(* ===== verification/Sentinel_Prelude.thy ===== *)
theory Sentinel_Prelude
  imports Main "HOL-Library.Word"
begin

text \<open>
  Shared vocabulary of the development: the types the Rust sources are read with, the
  collections of simplification rules the component theories extend, and generic lemmas
  on lists, options and words.

  \<^item> A Rust \<open>char\<close> is a Unicode scalar value, here a natural number, and a
    \<open>str\<close>/\<open>String\<close> is the list of its scalar values (\<open>ustr\<close>); \<open>lit\<close> turns an
    ASCII literal into such a list. Theorems therefore hold for all strings, not for
    ASCII only.
  \<^item> \<open>u8\<close>, \<open>u16\<close> and \<open>u32\<close> are machine words; an \<open>i32\<close> is a 32-bit word read
    with \<open>sint\<close> where arithmetic may wrap, and an \<open>int\<close> where it is only a number.
  \<^item> An \<open>Instant\<close> or a \<open>Duration\<close> is a number of nanoseconds; \<open>elapsed\<close>
    saturates at zero, as the natural-number difference does.
\<close>

named_theorems str_eval \<open>equations that evaluate string routines\<close>
named_theorems fresh_simps \<open>characteristic equations of the remember stores\<close>
named_theorems queue_simps \<open>characteristic equations of the approval queue\<close>

type_synonym uchar = nat
type_synonym ustr = "uchar list"
type_synonym u8 = "8 word"
type_synonym u16 = "16 word"
type_synonym u32 = "32 word"
type_synonym byte = u8
type_synonym instant = nat
type_synonym duration = nat
type_synonym pid = int

definition lit :: "string \<Rightarrow> ustr" where
  "lit s = map of_char s"

lemma lit_simps [simp]:
  "lit [] = []"
  "lit (c # cs) = of_char c # lit cs"
  by (simp_all add: lit_def)

lemma lit_append [simp]: "lit (xs @ ys) = lit xs @ lit ys"
  by (simp add: lit_def)

lemma inj_lit: "inj lit"
  by (simp add: lit_def inj_def inj_map_eq_map inj_of_char)

lemma lit_eq_iff: "lit xs = lit ys \<longleftrightarrow> xs = ys"
  using inj_lit by (simp add: inj_eq)

abbreviation u32_max :: u32 where
  "u32_max \<equiv> 4294967295"

text \<open>\<open>Duration::from_secs\<close> and \<open>Instant::elapsed\<close>.\<close>

definition from_secs :: "nat \<Rightarrow> duration" where
  "from_secs s = s * 1000000000"

definition elapsed :: "instant \<Rightarrow> instant \<Rightarrow> duration" where
  "elapsed now t = now - t"

lemma from_secs_mono [simp]: "from_secs a \<le> from_secs b \<longleftrightarrow> a \<le> b"
  by (simp add: from_secs_def)

lemma from_secs_less [simp]: "from_secs a < from_secs b \<longleftrightarrow> a < b"
  by (simp add: from_secs_def)

lemma from_secs_pos [simp]: "0 < from_secs a \<longleftrightarrow> 0 < a"
  by (simp add: from_secs_def)

lemma elapsed_self [simp]: "elapsed t t = 0"
  by (simp add: elapsed_def)

lemma elapsed_mono: "now \<le> now' \<Longrightarrow> elapsed now t \<le> elapsed now' t"
  by (simp add: elapsed_def diff_le_mono)

lemma elapsed_antimono: "t \<le> t' \<Longrightarrow> elapsed now t' \<le> elapsed now t"
  by (simp add: elapsed_def diff_le_mono2)

subsection \<open>Lists\<close>

lemma dropWhile_all: "(\<And>x. x \<in> set xs \<Longrightarrow> P x) \<Longrightarrow> dropWhile P xs = []"
  by (simp add: dropWhile_eq_Nil_conv)

lemma dropWhile_hd: "xs = [] \<or> \<not> P (hd xs) \<Longrightarrow> dropWhile P xs = xs"
  by (cases xs) auto

lemma hd_append_neq: "xs \<noteq> [] \<Longrightarrow> hd (xs @ ys) = hd xs"
  by (cases xs) auto

lemma filter_rev_last: "xs \<noteq> [] \<Longrightarrow> last xs \<in> set xs"
  by simp

lemma list_all_append_iff: "(\<forall>x\<in>set (xs @ ys). P x) \<longleftrightarrow> (\<forall>x\<in>set xs. P x) \<and> (\<forall>x\<in>set ys. P x)"
  by auto

subsection \<open>Options\<close>

text \<open>\<open>Option::or\<close>, \<open>Option::filter\<close> and \<open>unwrap_or\<close>.\<close>

fun option_or :: "'a option \<Rightarrow> 'a option \<Rightarrow> 'a option" where
  "option_or None y = y"
| "option_or (Some x) y = Some x"

fun option_filter :: "('a \<Rightarrow> bool) \<Rightarrow> 'a option \<Rightarrow> 'a option" where
  "option_filter P None = None"
| "option_filter P (Some x) = (if P x then Some x else None)"

fun unwrap_or :: "'a option \<Rightarrow> 'a \<Rightarrow> 'a" where
  "unwrap_or None d = d"
| "unwrap_or (Some x) d = x"

lemma option_filter_Some_iff [simp]:
  "option_filter P y = Some x \<longleftrightarrow> y = Some x \<and> P x"
  by (cases y) auto

lemma option_or_None_iff [simp]: "option_or x y = None \<longleftrightarrow> x = None \<and> y = None"
  by (cases x) auto

lemma option_or_Some_iff: "option_or x y = Some v \<longleftrightarrow> x = Some v \<or> (x = None \<and> y = Some v)"
  by (cases x) auto

lemma unwrap_or_eq: "unwrap_or y d = (case y of None \<Rightarrow> d | Some x \<Rightarrow> x)"
  by (cases y) auto

subsection \<open>Words\<close>

lemma unat_u32_bound: "unat (w :: u32) < 2 ^ 32"
  using unsigned_less [of w, where 'a = nat] by simp

lemma u32_of_nat_unat: "n < 2 ^ 32 \<Longrightarrow> unat (of_nat n :: u32) = n"
  by (simp add: unat_of_nat)

end
