(* ===== verification/Rust_Str.thy ===== *)
theory Rust_Str
  imports Sentinel_Prelude
begin

text \<open>
  The routines of Rust's standard library on strings that the sources call:
  white space, \<open>trim\<close>, \<open>split_whitespace\<close>, \<open>split\<close>, \<open>split_once\<close>, \<open>lines\<close>,
  \<open>strip_prefix\<close>, \<open>join\<close>, the decimal forms of integers, and \<open>Path::file_name\<close>.
  The lemmas are the laws the component theories rest on: tokens are never empty and
  hold no white space, joining tokens and splitting again is the identity, and the
  decimal form of an integer is injective and parses back.
\<close>

subsection \<open>White space\<close>

text \<open>\<open>char::is_whitespace\<close>: the Unicode property White\_Space.\<close>

definition is_whitespace :: "uchar \<Rightarrow> bool" where
  "is_whitespace c \<longleftrightarrow>
     (9 \<le> c \<and> c \<le> 13) \<or> c = 32 \<or> c = 133 \<or> c = 160 \<or> c = 5760 \<or>
     (8192 \<le> c \<and> c \<le> 8202) \<or> c = 8232 \<or> c = 8233 \<or> c = 8239 \<or> c = 8287 \<or> c = 12288"

lemma is_whitespace_numeral [simp]:
  "is_whitespace (numeral n) \<longleftrightarrow>
     (9 \<le> (numeral n :: nat) \<and> (numeral n :: nat) \<le> 13) \<or> (numeral n :: nat) = 32 \<or>
     (numeral n :: nat) = 133 \<or> (numeral n :: nat) = 160 \<or> (numeral n :: nat) = 5760 \<or>
     (8192 \<le> (numeral n :: nat) \<and> (numeral n :: nat) \<le> 8202) \<or> (numeral n :: nat) = 8232 \<or>
     (numeral n :: nat) = 8233 \<or> (numeral n :: nat) = 8239 \<or> (numeral n :: nat) = 8287 \<or>
     (numeral n :: nat) = 12288"
  by (simp add: is_whitespace_def)

lemma is_whitespace_0 [simp]: "\<not> is_whitespace 0"
  by (simp add: is_whitespace_def)

definition trim_start :: "ustr \<Rightarrow> ustr" where
  "trim_start s = dropWhile is_whitespace s"

definition trim :: "ustr \<Rightarrow> ustr" where
  "trim s = rev (trim_start (rev (trim_start s)))"

text \<open>\<open>str::split_whitespace\<close>: the maximal runs of characters that are not white space.\<close>

fun split_whitespace :: "ustr \<Rightarrow> ustr list" where
  "split_whitespace [] = []"
| "split_whitespace (c # cs) =
     (if is_whitespace c then split_whitespace cs
      else if cs = [] \<or> is_whitespace (hd cs) then [c] # split_whitespace cs
      else (case split_whitespace cs of [] \<Rightarrow> [[c]] | w # ws \<Rightarrow> (c # w) # ws))"

text \<open>A token: not empty and free of white space.\<close>

definition is_token :: "ustr \<Rightarrow> bool" where
  "is_token w \<longleftrightarrow> w \<noteq> [] \<and> (\<forall>c\<in>set w. \<not> is_whitespace c)"

lemma is_token_Cons [simp]:
  "is_token (c # cs) \<longleftrightarrow> \<not> is_whitespace c \<and> (cs = [] \<or> is_token cs)"
  by (auto simp: is_token_def)

lemma is_token_Nil [simp]: "\<not> is_token []"
  by (simp add: is_token_def)

lemma split_whitespace_tokens: "w \<in> set (split_whitespace s) \<Longrightarrow> is_token w"
proof (induction s arbitrary: w)
  case Nil
  then show ?case by simp
next
  case (Cons c cs)
  from Cons.prems consider
      (rest) "w \<in> set (split_whitespace cs)"
    | (one) "\<not> is_whitespace c" "w = [c]"
    | (ext) v where "\<not> is_whitespace c" "w = c # v" "v \<in> set (split_whitespace cs)"
    by (auto split: if_splits list.splits)
  then show ?case
  proof cases
    case rest
    then show ?thesis by (rule Cons.IH)
  next
    case one
    then show ?thesis by simp
  next
    case ext
    with Cons.IH [of v] show ?thesis by simp
  qed
qed

lemma split_whitespace_eq_Nil: "split_whitespace s = [] \<longleftrightarrow> (\<forall>c\<in>set s. is_whitespace c)"
  by (induction s) (auto split: list.splits)

lemma split_whitespace_token [simp]: "is_token w \<Longrightarrow> split_whitespace w = [w]"
proof (induction w)
  case Nil
  then show ?case by simp
next
  case (Cons c w)
  then show ?case by (cases w) auto
qed

lemma split_whitespace_ws_append:
  "(\<forall>c\<in>set p. is_whitespace c) \<Longrightarrow> split_whitespace (p @ s) = split_whitespace s"
  by (induction p) auto

lemma split_whitespace_append_ws:
  "is_whitespace c \<Longrightarrow> split_whitespace (s @ c # t) = split_whitespace s @ split_whitespace t"
proof (induction s)
  case Nil
  then show ?case by simp
next
  case (Cons d s)
  note IH = Cons.IH [OF Cons.prems]
  show ?case
  proof (cases s)
    case Nil
    with Cons.prems show ?thesis by simp
  next
    case (Cons e s')
    then have hd: "hd (s @ c # t) = hd s" "s @ c # t \<noteq> []" "s \<noteq> []" by simp_all
    show ?thesis
    proof (cases "\<not> is_whitespace d \<and> \<not> is_whitespace (hd s)")
      case True
      with Cons have "split_whitespace s \<noteq> []"
        by (auto simp: split_whitespace_eq_Nil simp del: split_whitespace.simps)
      with True hd IH show ?thesis by (auto simp: neq_Nil_conv)
    next
      case False
      with hd IH show ?thesis by auto
    qed
  qed
qed

lemma split_whitespace_append_ws_all:
  "(\<forall>c\<in>set p. is_whitespace c) \<Longrightarrow> split_whitespace (s @ p) = split_whitespace s"
proof (cases p)
  case Nil
  then show ?thesis by simp
next
  case (Cons c cs)
  moreover assume "\<forall>c\<in>set p. is_whitespace c"
  ultimately show ?thesis
    by (simp add: split_whitespace_append_ws split_whitespace_eq_Nil)
qed

lemma trim_start_decomp: "\<exists>p. s = p @ trim_start s \<and> (\<forall>c\<in>set p. is_whitespace c)"
  by (metis set_takeWhileD takeWhile_dropWhile_id trim_start_def)

lemma trim_decomp:
  "\<exists>p q. s = p @ trim s @ q \<and> (\<forall>c\<in>set p. is_whitespace c) \<and> (\<forall>c\<in>set q. is_whitespace c)"
proof -
  obtain p where p: "s = p @ trim_start s" "\<forall>c\<in>set p. is_whitespace c"
    using trim_start_decomp by blast
  obtain q where q: "rev (trim_start s) = q @ trim_start (rev (trim_start s))"
      "\<forall>c\<in>set q. is_whitespace c"
    using trim_start_decomp by blast
  from q(1) have "trim_start s = trim s @ rev q"
    by (metis rev_append rev_rev_ident trim_def)
  with p q(2) show ?thesis by (metis set_rev)
qed

lemma split_whitespace_trim [simp]: "split_whitespace (trim s) = split_whitespace s"
  by (metis split_whitespace_append_ws_all split_whitespace_ws_append trim_decomp)

lemma trim_start_id: "s = [] \<or> \<not> is_whitespace (hd s) \<Longrightarrow> trim_start s = s"
  by (simp add: trim_start_def dropWhile_hd)

lemma trim_id:
  "s = [] \<or> \<not> is_whitespace (hd s) \<and> \<not> is_whitespace (last s) \<Longrightarrow> trim s = s"
  by (auto simp: trim_def trim_start_id hd_rev)

lemma trim_token [simp]: "is_token w \<Longrightarrow> trim w = w"
  by (rule trim_id) (auto simp: is_token_def)

lemma trim_Nil [simp]: "trim [] = []"
  by (simp add: trim_def trim_start_def)

lemma trim_start_hd: "trim_start s = [] \<or> \<not> is_whitespace (hd (trim_start s))"
  by (induction s) (auto simp: trim_start_def)

lemma trim_ends:
  "trim s = [] \<or> \<not> is_whitespace (hd (trim s)) \<and> \<not> is_whitespace (last (trim s))"
proof (cases "trim s = []")
  case True
  then show ?thesis ..
next
  case False
  then have ne: "trim_start (rev (trim_start s)) \<noteq> []"
    by (simp add: trim_def)
  then have last: "\<not> is_whitespace (last (trim s))"
    using trim_start_hd [of "rev (trim_start s)"] by (simp add: trim_def last_rev)
  obtain p where "rev (trim_start s) = p @ trim_start (rev (trim_start s))"
    using trim_start_decomp by blast
  then have "trim_start s = trim s @ rev p"
    by (metis rev_append rev_rev_ident trim_def)
  with False have "hd (trim s) = hd (trim_start s)"
    by (metis hd_append_neq)
  moreover have "trim_start s \<noteq> []"
    using ne by (auto simp only: trim_start_def rev.simps dropWhile.simps)
  ultimately show ?thesis
    using trim_start_hd [of s] last by simp
qed

lemma trim_idem [simp]: "trim (trim s) = trim s"
  by (rule trim_id) (rule trim_ends)

lemma trim_eq_Nil: "trim s = [] \<longleftrightarrow> (\<forall>c\<in>set s. is_whitespace c)"
  by (metis split_whitespace.simps(1) split_whitespace_eq_Nil split_whitespace_trim trim_ends
      list.set_sel(1))

subsection \<open>Joining and splitting\<close>

text \<open>\<open>[T]::join\<close>.\<close>

fun join :: "ustr \<Rightarrow> ustr list \<Rightarrow> ustr" where
  "join sep [] = []"
| "join sep [w] = w"
| "join sep (w # v # ws) = w @ sep @ join sep (v # ws)"

lemma split_whitespace_join:
  "(\<forall>w\<in>set ws. is_token w) \<Longrightarrow> split_whitespace (join [32] ws) = ws"
  by (induction "[32::nat]" ws rule: join.induct) (simp_all add: split_whitespace_append_ws)

lemma join_tokens_ends:
  "ws \<noteq> [] \<Longrightarrow> (\<forall>w\<in>set ws. is_token w) \<Longrightarrow>
     join [32] ws \<noteq> [] \<and> \<not> is_whitespace (hd (join [32] ws)) \<and> \<not> is_whitespace (last (join [32] ws))"
  by (induction "[32::nat]" ws rule: join.induct) (auto simp: is_token_def)

lemma trim_join_tokens:
  "(\<forall>w\<in>set ws. is_token w) \<Longrightarrow> trim (join [32] ws) = join [32] ws"
  using join_tokens_ends [of ws] by (cases "ws = []") (auto intro: trim_id)

text \<open>\<open>str::split\<close> with a character predicate, \<open>split_once\<close> and \<open>strip_prefix\<close>.\<close>

fun split_on :: "('a \<Rightarrow> bool) \<Rightarrow> 'a list \<Rightarrow> 'a list list" where
  "split_on P [] = [[]]"
| "split_on P (c # cs) =
     (if P c then [] # split_on P cs
      else (case split_on P cs of [] \<Rightarrow> [[c]] | w # ws \<Rightarrow> (c # w) # ws))"

lemma split_on_not_Nil [simp]: "split_on P s \<noteq> []"
  by (induction s) (auto split: list.splits)

lemma split_on_pieces: "w \<in> set (split_on P s) \<Longrightarrow> c \<in> set w \<Longrightarrow> \<not> P c"
proof (induction s arbitrary: w)
  case Nil
  then show ?case by simp
next
  case (Cons d s)
  then show ?case by (cases "split_on P s") (fastforce split: if_splits)+
qed

lemma split_on_none: "(\<forall>c\<in>set s. \<not> P c) \<Longrightarrow> split_on P s = [s]"
  by (induction s) auto

lemma split_on_eq_none [simp]: "d \<notin> set s \<Longrightarrow> split_on (\<lambda>c. c = d) s = [s]"
  by (rule split_on_none) auto

lemma hd_split_on: "hd (split_on P s) = takeWhile (\<lambda>c. \<not> P c) s"
  by (induction s) (auto split: list.splits)

lemma split_on_append_sep:
  "P c \<Longrightarrow> split_on P (s @ c # t) = split_on P s @ split_on P t"
  by (induction s) (auto split: list.splits)

fun split_once :: "uchar \<Rightarrow> ustr \<Rightarrow> (ustr \<times> ustr) option" where
  "split_once d [] = None"
| "split_once d (c # cs) =
     (if c = d then Some ([], cs)
      else map_option (\<lambda>(a, b). (c # a, b)) (split_once d cs))"

lemma split_once_append: "d \<notin> set a \<Longrightarrow> split_once d (a @ d # b) = Some (a, b)"
  by (induction a) auto

lemma split_once_Some_iff: "split_once d s = Some (a, b) \<longleftrightarrow> s = a @ d # b \<and> d \<notin> set a"
proof
  show "split_once d s = Some (a, b) \<Longrightarrow> s = a @ d # b \<and> d \<notin> set a"
    by (induction s arbitrary: a) (auto split: if_splits)
qed (auto simp: split_once_append)

definition starts_with :: "ustr \<Rightarrow> ustr \<Rightarrow> bool" where
  "starts_with p s \<longleftrightarrow> take (length p) s = p"

definition ends_with :: "ustr \<Rightarrow> ustr \<Rightarrow> bool" where
  "ends_with p s \<longleftrightarrow> starts_with (rev p) (rev s)"

definition strip_prefix :: "ustr \<Rightarrow> ustr \<Rightarrow> ustr option" where
  "strip_prefix p s = (if starts_with p s then Some (drop (length p) s) else None)"

fun contains :: "ustr \<Rightarrow> ustr \<Rightarrow> bool" where
  "contains p [] \<longleftrightarrow> p = []"
| "contains p (c # cs) \<longleftrightarrow> starts_with p (c # cs) \<or> contains p cs"

lemma starts_with_iff: "starts_with p s \<longleftrightarrow> (\<exists>t. s = p @ t)"
  by (auto simp: starts_with_def) (metis append_take_drop_id)

lemma strip_prefix_Some_iff: "strip_prefix p s = Some t \<longleftrightarrow> s = p @ t"
  by (auto simp: strip_prefix_def starts_with_iff)

lemma contains_iff: "contains p s \<longleftrightarrow> (\<exists>a b. s = a @ p @ b)"
proof (induction s)
  case Nil
  then show ?case by auto
next
  case (Cons c cs)
  show ?case
    by (auto simp: Cons.IH starts_with_iff Cons_eq_append_conv)
qed

text \<open>\<open>str::lines\<close>: lines end in a line feed, a carriage return before it is dropped, and
  the last line may lack its terminator.\<close>

definition strip_cr :: "ustr \<Rightarrow> ustr" where
  "strip_cr l = (if l \<noteq> [] \<and> last l = 13 then butlast l else l)"

fun lines_from :: "ustr \<Rightarrow> ustr \<Rightarrow> ustr list" where
  "lines_from cur [] = (if cur = [] then [] else [cur])"
| "lines_from cur (c # cs) =
     (if c = 10 then strip_cr cur # lines_from [] cs else lines_from (cur @ [c]) cs)"

definition lines :: "ustr \<Rightarrow> ustr list" where
  "lines s = lines_from [] s"

lemma lines_from_no_lf:
  "l \<in> set (lines_from cur s) \<Longrightarrow> 10 \<notin> set cur \<Longrightarrow> 10 \<notin> set l"
  by (induction cur s rule: lines_from.induct)
    (auto simp: strip_cr_def split: if_splits dest: in_set_butlastD)

definition to_ascii_lowercase :: "ustr \<Rightarrow> ustr" where
  "to_ascii_lowercase s = map (\<lambda>c. if 65 \<le> c \<and> c \<le> 90 then c + 32 else c) s"

subsection \<open>Decimal integers\<close>

text \<open>\<open>Display\<close> of an unsigned integer.\<close>

fun show_nat :: "nat \<Rightarrow> ustr" where
  "show_nat n = (if n < 10 then [48 + n] else show_nat (n div 10) @ [48 + n mod 10])"

declare show_nat.simps [simp del]

definition show_u32 :: "u32 \<Rightarrow> ustr" where
  "show_u32 w = show_nat (unat w)"

definition show_int :: "int \<Rightarrow> ustr" where
  "show_int i = (if i < 0 then 45 # show_nat (nat (- i)) else show_nat (nat i))"

definition is_digit :: "uchar \<Rightarrow> bool" where
  "is_digit c \<longleftrightarrow> 48 \<le> c \<and> c \<le> 57"

fun parse_digits :: "nat \<Rightarrow> ustr \<Rightarrow> nat option" where
  "parse_digits acc [] = Some acc"
| "parse_digits acc (c # cs) =
     (if is_digit c then parse_digits (acc * 10 + (c - 48)) cs else None)"

definition parse_nat :: "ustr \<Rightarrow> nat option" where
  "parse_nat s = (if s = [] then None else parse_digits 0 s)"

text \<open>\<open>str::parse::<u32>\<close>: an optional plus sign, then decimal digits, in range.\<close>

definition parse_u32 :: "ustr \<Rightarrow> u32 option" where
  "parse_u32 s =
     (case parse_nat (if s \<noteq> [] \<and> hd s = 43 then tl s else s) of
        None \<Rightarrow> None
      | Some n \<Rightarrow> if n < 2 ^ 32 then Some (of_nat n) else None)"

text \<open>\<open>str::parse::<i32>\<close>: a minus sign is accepted too.\<close>

definition parse_i32 :: "ustr \<Rightarrow> int option" where
  "parse_i32 s =
     (if s \<noteq> [] \<and> hd s = 45
      then (case parse_nat (tl s) of
              None \<Rightarrow> None | Some n \<Rightarrow> if n \<le> 2 ^ 31 then Some (- int n) else None)
      else (case parse_nat (if s \<noteq> [] \<and> hd s = 43 then tl s else s) of
              None \<Rightarrow> None | Some n \<Rightarrow> if n < 2 ^ 31 then Some (int n) else None))"

lemma show_nat_digits: "c \<in> set (show_nat n) \<Longrightarrow> is_digit c"
proof (induction n rule: show_nat.induct)
  case (1 n)
  then show ?case
    by (subst (asm) (2) show_nat.simps) (auto simp: is_digit_def split: if_splits)
qed

lemma show_nat_not_Nil [simp]: "show_nat n \<noteq> []"
  by (subst show_nat.simps) simp

lemma parse_digits_append:
  "parse_digits acc (a @ b) = (case parse_digits acc a of None \<Rightarrow> None | Some v \<Rightarrow> parse_digits v b)"
  by (induction acc a rule: parse_digits.induct) auto

lemma parse_digits_show_nat: "parse_digits 0 (show_nat n) = Some n"
proof (induction n rule: show_nat.induct)
  case (1 n)
  show ?case
  proof (cases "n < 10")
    case True
    then show ?thesis by (subst show_nat.simps) (simp add: is_digit_def)
  next
    case False
    with 1 have "parse_digits 0 (show_nat (n div 10)) = Some (n div 10)" by simp
    with False show ?thesis
      by (subst show_nat.simps) (simp add: parse_digits_append is_digit_def)
  qed
qed

lemma hd_show_nat: "is_digit (hd (show_nat n))"
  by (rule show_nat_digits) (rule hd_in_set, simp)

lemma show_nat_no_sign [simp]: "hd (show_nat n) \<noteq> 43" "hd (show_nat n) \<noteq> 45"
  using hd_show_nat [of n] by (auto simp: is_digit_def)

lemma parse_u32_show [simp]: "parse_u32 (show_u32 w) = Some w"
  by (simp add: parse_u32_def show_u32_def parse_nat_def parse_digits_show_nat
      unat_u32_bound [simplified])

lemma show_u32_inj [simp]: "show_u32 a = show_u32 b \<longleftrightarrow> a = b"
  by (metis option.inject parse_u32_show)

lemma show_u32_digits: "c \<in> set (show_u32 w) \<Longrightarrow> is_digit c"
  by (simp add: show_u32_def show_nat_digits)

lemma show_u32_no_nul [simp]: "0 \<notin> set (show_u32 w)"
  using show_u32_digits by (force simp: is_digit_def)

lemma show_u32_token [simp]: "is_token (show_u32 w)"
proof -
  have "show_u32 w \<noteq> []" by (simp add: show_u32_def)
  moreover have "\<forall>c\<in>set (show_u32 w). \<not> is_whitespace c"
    using show_u32_digits by (fastforce simp: is_digit_def is_whitespace_def)
  ultimately show ?thesis by (simp add: is_token_def)
qed

text \<open>A separator that does not occur in the left parts makes concatenation injective.\<close>

lemma append_sep_inj:
  assumes "(d::uchar) \<notin> set x" and "d \<notin> set y"
  shows "x @ d # s = y @ d # t \<longleftrightarrow> x = y \<and> s = t"
proof
  assume "x @ d # s = y @ d # t"
  then have "split_once d (x @ d # s) = split_once d (y @ d # t)" by (rule arg_cong)
  then show "x = y \<and> s = t"
    using split_once_append [OF assms(1)] split_once_append [OF assms(2)] by simp
qed simp

subsection \<open>Paths\<close>

text \<open>
  \<open>Path::file_name\<close> on Unix: empty and \<open>.\<close> components are skipped; the last component
  counts unless it is \<open>..\<close>; a path without components (the root, \<open>.\<close>, the empty path)
  has no file name.
\<close>

definition path_components :: "ustr \<Rightarrow> ustr list" where
  "path_components s = filter (\<lambda>w. w \<noteq> [] \<and> w \<noteq> [46]) (split_on (\<lambda>c. c = 47) s)"

definition file_name :: "ustr \<Rightarrow> ustr option" where
  "file_name s =
     (let cs = path_components s
      in if cs = [] \<or> last cs = [46, 46] then None else Some (last cs))"

lemma file_name_SomeD:
  "file_name s = Some b \<Longrightarrow> b \<noteq> [] \<and> 47 \<notin> set b \<and> b \<noteq> [46] \<and> b \<noteq> [46, 46]"
proof -
  assume a: "file_name s = Some b"
  then have "b \<in> set (path_components s)"
    by (auto simp: file_name_def Let_def split: if_splits)
  with a show ?thesis
    by (auto simp: file_name_def path_components_def Let_def split: if_splits
        dest: split_on_pieces)
qed

lemma file_name_plain:
  "47 \<notin> set s \<Longrightarrow> s \<noteq> [] \<Longrightarrow> s \<noteq> [46] \<Longrightarrow> s \<noteq> [46, 46] \<Longrightarrow> file_name s = Some s"
  by (simp add: file_name_def path_components_def split_on_none Let_def)

lemma file_name_dir_append:
  "47 \<notin> set b \<Longrightarrow> b \<noteq> [] \<Longrightarrow> b \<noteq> [46] \<Longrightarrow> b \<noteq> [46, 46] \<Longrightarrow> file_name (d @ 47 # b) = Some b"
  by (simp add: file_name_def path_components_def split_on_append_sep split_on_none Let_def)

text \<open>
  \<open>Path::extension\<close>: what follows the last dot of the file name, unless the name has no
  dot or its only dot leads it.
\<close>

definition path_extension :: "ustr \<Rightarrow> ustr option" where
  "path_extension s =
     (case file_name s of
        None \<Rightarrow> None
      | Some b \<Rightarrow>
          let ext = rev (takeWhile (\<lambda>c. c \<noteq> 46) (rev b));
              stem = rev (tl (dropWhile (\<lambda>c. c \<noteq> 46) (rev b)))
          in if 46 \<notin> set b \<or> stem = [] then None else Some ext)"

subsection \<open>UTF-8\<close>

text \<open>
  One decoding step at a first byte and the bytes after it: the scalar value, or nothing
  when the sequence is ill formed, and how many of the following bytes belong to it (for
  an ill-formed sequence the longest part that could have started a character).
\<close>

definition is_cont :: "nat \<Rightarrow> bool" where
  "is_cont b \<longleftrightarrow> 128 \<le> b \<and> b \<le> 191"

definition second_ok3 :: "nat \<Rightarrow> nat \<Rightarrow> bool" where
  "second_ok3 b0 b1 =
     (if b0 = 224 then 160 \<le> b1 \<and> b1 \<le> 191
      else if b0 = 237 then 128 \<le> b1 \<and> b1 \<le> 159
      else is_cont b1)"

definition second_ok4 :: "nat \<Rightarrow> nat \<Rightarrow> bool" where
  "second_ok4 b0 b1 =
     (if b0 = 240 then 144 \<le> b1 \<and> b1 \<le> 191
      else if b0 = 244 then 128 \<le> b1 \<and> b1 \<le> 143
      else is_cont b1)"

definition nth_byte :: "nat list \<Rightarrow> nat \<Rightarrow> nat" where
  "nth_byte bs i = (if i < length bs then bs ! i else 0)"

definition utf8_step :: "nat \<Rightarrow> nat list \<Rightarrow> uchar option \<times> nat" where
  "utf8_step b0 bs =
     (let b1 = nth_byte bs 0; b2 = nth_byte bs 1; b3 = nth_byte bs 2
      in if b0 < 128 then (Some b0, 0)
         else if 194 \<le> b0 \<and> b0 \<le> 223 then
           (if is_cont b1 then (Some ((b0 - 192) * 64 + (b1 - 128)), 1) else (None, 0))
         else if 224 \<le> b0 \<and> b0 \<le> 239 then
           (if \<not> second_ok3 b0 b1 then (None, 0)
            else if \<not> is_cont b2 then (None, 1)
            else (Some ((b0 - 224) * 4096 + (b1 - 128) * 64 + (b2 - 128)), 2))
         else if 240 \<le> b0 \<and> b0 \<le> 244 then
           (if \<not> second_ok4 b0 b1 then (None, 0)
            else if \<not> is_cont b2 then (None, 1)
            else if \<not> is_cont b3 then (None, 2)
            else (Some ((b0 - 240) * 262144 + (b1 - 128) * 4096 + (b2 - 128) * 64 + (b3 - 128)), 3))
         else (None, 0))"

text \<open>\<open>std::str::from_utf8\<close> and \<open>String::from_utf8_lossy\<close>.\<close>

fun decode_utf8 :: "nat list \<Rightarrow> ustr option" where
  "decode_utf8 [] = Some []"
| "decode_utf8 (b0 # bs) =
     (case utf8_step b0 bs of
        (None, _) \<Rightarrow> None
      | (Some c, k) \<Rightarrow> map_option (\<lambda>cs. c # cs) (decode_utf8 (drop k bs)))"

fun decode_utf8_lossy :: "nat list \<Rightarrow> ustr" where
  "decode_utf8_lossy [] = []"
| "decode_utf8_lossy (b0 # bs) =
     (case utf8_step b0 bs of
        (None, k) \<Rightarrow> 65533 # decode_utf8_lossy (drop k bs)
      | (Some c, k) \<Rightarrow> c # decode_utf8_lossy (drop k bs))"

definition from_utf8 :: "byte list \<Rightarrow> ustr option" where
  "from_utf8 bs = decode_utf8 (map unat bs)"

definition from_utf8_lossy :: "byte list \<Rightarrow> ustr" where
  "from_utf8_lossy bs = decode_utf8_lossy (map unat bs)"

text \<open>\<open>char::len_utf8\<close> and \<open>str::len\<close> (a number of bytes), and the encoder \<open>as_bytes\<close>.\<close>

definition len_utf8 :: "uchar \<Rightarrow> nat" where
  "len_utf8 c = (if c < 128 then 1 else if c < 2048 then 2 else if c < 65536 then 3 else 4)"

definition str_len :: "ustr \<Rightarrow> nat" where
  "str_len s = sum_list (map len_utf8 s)"

definition encode_char :: "uchar \<Rightarrow> nat list" where
  "encode_char c =
     (if c < 128 then [c]
      else if c < 2048 then [192 + c div 64, 128 + c mod 64]
      else if c < 65536 then [224 + c div 4096, 128 + c div 64 mod 64, 128 + c mod 64]
      else [240 + c div 262144, 128 + c div 4096 mod 64, 128 + c div 64 mod 64, 128 + c mod 64])"

definition encode_utf8 :: "ustr \<Rightarrow> nat list" where
  "encode_utf8 s = concat (map encode_char s)"

definition as_bytes :: "ustr \<Rightarrow> byte list" where
  "as_bytes s = map of_nat (encode_utf8 s)"

definition is_scalar :: "uchar \<Rightarrow> bool" where
  "is_scalar c \<longleftrightarrow> c < 55296 \<or> (57344 \<le> c \<and> c < 1114112)"

lemma decode_utf8_ascii: "(\<forall>b\<in>set bs. b < 128) \<Longrightarrow> decode_utf8 bs = Some bs"
  by (induction bs) (simp_all add: utf8_step_def)

lemma decode_utf8_lossy_ascii: "(\<forall>b\<in>set bs. b < 128) \<Longrightarrow> decode_utf8_lossy bs = bs"
  by (induction bs) (simp_all add: utf8_step_def)

lemma length_encode_char: "length (encode_char c) = len_utf8 c"
  by (simp add: encode_char_def len_utf8_def)

lemma length_encode_utf8: "length (encode_utf8 s) = str_len s"
  by (induction s) (simp_all add: encode_utf8_def str_len_def length_encode_char)

lemma encode_char_byte: "is_scalar c \<Longrightarrow> b \<in> set (encode_char c) \<Longrightarrow> b < 256"
  by (auto simp: encode_char_def is_scalar_def split: if_splits)

text \<open>The decoder undoes the encoder: first the digit arithmetic of the long forms.\<close>

lemma div_4096: "(c::nat) div 4096 = c div 64 div 64"
  by (simp flip: div_mult2_eq)

lemma div_262144: "(c::nat) div 262144 = c div 64 div 64 div 64"
  by (simp flip: div_mult2_eq)

lemma digits3: "(c::nat) div 64 div 64 * 4096 + c div 64 mod 64 * 64 + c mod 64 = c"
proof -
  have "c div 64 div 64 * 64 + c div 64 mod 64 = c div 64" "c div 64 * 64 + c mod 64 = c"
    by simp_all
  then show ?thesis by linarith
qed

lemma digits4:
  "(c::nat) div 64 div 64 div 64 * 262144 + c div 64 div 64 mod 64 * 4096 + c div 64 mod 64 * 64 + c mod 64 = c"
proof -
  have "c div 64 div 64 div 64 * 64 + c div 64 div 64 mod 64 = c div 64 div 64" by simp
  then show ?thesis using digits3 [of c] by linarith
qed

lemma utf8_step_encode_3:
  assumes "2048 \<le> c" "c < 65536" "is_scalar c"
  shows "utf8_step (hd (encode_char c)) (tl (encode_char c) @ r) = (Some c, length (encode_char c) - 1)"
proof -
  define q where "q = c div 64"
  have q: "32 \<le> q" "q < 1024" using assms by (auto simp: q_def)
  have sur: "q < 864 \<or> 896 \<le> q" using assms by (auto simp: q_def is_scalar_def)
  have dm: "q div 64 * 64 + q mod 64 = q" by simp
  have "q div 64 = 13 \<Longrightarrow> q mod 64 \<le> 31" using q sur dm by linarith
  then have "second_ok3 (224 + q div 64) (128 + q mod 64)"
    using q sur by (auto simp: second_ok3_def is_cont_def)
  moreover have "q div 64 \<le> 15" using q by simp
  ultimately show ?thesis
    using assms digits3 [of c]
    by (simp add: encode_char_def utf8_step_def nth_byte_def is_cont_def div_4096 q_def [symmetric])
qed

lemma utf8_step_encode_4:
  assumes "65536 \<le> c" "c < 1114112"
  shows "utf8_step (hd (encode_char c)) (tl (encode_char c) @ r) = (Some c, length (encode_char c) - 1)"
proof -
  define q where "q = c div 64 div 64"
  have q: "16 \<le> q" "q < 272" using assms by (auto simp: q_def)
  have dm: "q div 64 * 64 + q mod 64 = q" by simp
  have "q div 64 = 4 \<Longrightarrow> q mod 64 \<le> 15" using q dm by linarith
  then have "second_ok4 (240 + q div 64) (128 + q mod 64)"
    using q by (auto simp: second_ok4_def is_cont_def)
  moreover have "q div 64 \<le> 4" using q by simp
  moreover have "is_cont (128 + c div 64 mod 64)" "is_cont (128 + c mod 64)"
    by (simp_all add: is_cont_def)
  ultimately have "utf8_step (240 + q div 64)
      ((128 + q mod 64) # (128 + c div 64 mod 64) # (128 + c mod 64) # r) = (Some c, 3)"
    using digits4 [of c] by (simp add: utf8_step_def nth_byte_def Let_def q_def [symmetric])
  moreover have "encode_char c =
      [240 + q div 64, 128 + q mod 64, 128 + c div 64 mod 64, 128 + c mod 64]"
    using assms by (simp add: encode_char_def div_4096 div_262144 q_def)
  ultimately show ?thesis by simp
qed

lemma utf8_step_encode_char:
  assumes "is_scalar c"
  shows "utf8_step (hd (encode_char c)) (tl (encode_char c) @ r) = (Some c, length (encode_char c) - 1)"
proof -
  consider "c < 128" | "128 \<le> c" "c < 2048" | "2048 \<le> c" "c < 65536" | "65536 \<le> c" "c < 1114112"
    using assms unfolding is_scalar_def by linarith
  then show ?thesis
  proof cases
    case 1
    then show ?thesis by (simp add: encode_char_def utf8_step_def)
  next
    case 2
    then have enc: "encode_char c = [192 + c div 64, 128 + c mod 64]"
      by (simp add: encode_char_def)
    have lead: "194 \<le> 192 + c div 64" "192 + c div 64 \<le> 223" "\<not> 192 + c div 64 < 128"
      using 2 by auto
    have tail: "is_cont (128 + c mod 64)"
      by (simp add: is_cont_def)
    have "utf8_step (192 + c div 64) ((128 + c mod 64) # r) = (Some c, 1)"
      using lead tail by (simp add: utf8_step_def nth_byte_def Let_def)
    then show ?thesis by (simp add: enc)
  qed (use assms utf8_step_encode_3 utf8_step_encode_4 in auto)
qed

lemma encode_char_not_Nil: "encode_char c \<noteq> []"
  by (simp add: encode_char_def)

lemma decode_encode_append:
  assumes "\<forall>c\<in>set s. is_scalar c"
  shows "decode_utf8 (encode_utf8 s @ r) = map_option (\<lambda>cs. s @ cs) (decode_utf8 r)"
  using assms
proof (induction s)
  case Nil
  then show ?case by (simp add: encode_utf8_def option.map_ident)
next
  case (Cons c s)
  let ?e = "encode_char c"
  have split: "encode_utf8 (c # s) @ r = hd ?e # tl ?e @ (encode_utf8 s @ r)"
    using encode_char_not_Nil [of c] by (simp add: encode_utf8_def hd_Cons_tl)
  have "decode_utf8 (encode_utf8 (c # s) @ r) =
      map_option (\<lambda>cs. c # cs) (decode_utf8 (encode_utf8 s @ r))"
    unfolding split decode_utf8.simps using Cons.prems
    by (simp add: utf8_step_encode_char)
  with Cons show ?case by (simp add: option.map_comp o_def)
qed

lemma decode_encode_utf8: "(\<forall>c\<in>set s. is_scalar c) \<Longrightarrow> decode_utf8 (encode_utf8 s) = Some s"
  using decode_encode_append [of s "[]"] by simp

lemma from_utf8_as_bytes: "(\<forall>c\<in>set s. is_scalar c) \<Longrightarrow> from_utf8 (as_bytes s) = Some s"
proof -
  assume a: "\<forall>c\<in>set s. is_scalar c"
  then have "\<forall>b\<in>set (encode_utf8 s). b < 256"
    by (auto simp: encode_utf8_def dest: encode_char_byte)
  then have "map unat (as_bytes s) = encode_utf8 s"
    by (simp add: as_bytes_def unat_of_nat map_idI)
  with a show ?thesis by (simp add: from_utf8_def decode_encode_utf8)
qed

text \<open>The rules that evaluate the string routines on concrete strings.\<close>

declare trim_def [str_eval] trim_start_def [str_eval] starts_with_def [str_eval] ends_with_def [str_eval]
  strip_prefix_def [str_eval] lines_def [str_eval] strip_cr_def [str_eval]
  path_components_def [str_eval] file_name_def [str_eval] path_extension_def [str_eval]
  parse_u32_def [str_eval] parse_i32_def [str_eval] parse_nat_def [str_eval] is_digit_def [str_eval]
  show_u32_def [str_eval] show_int_def [str_eval] Let_def [str_eval]

end
