(* ===== verification/Logfmt.thy ===== *)
theory Logfmt
  imports Rust_Str
begin

text \<open>
  Structured audit lines (\<open>sentinel-shared/src/lib.rs\<close>, module \<open>log_kv\<close>) and the log
  records the other components emit. A record is a level and the text of the line. The
  debug messages of the agent and its exchange with polkit's helper are not modelled.
\<close>

datatype log_level = LError | LWarn | LInfo | LDebug

type_synonym log_record = "log_level \<times> ustr"

definition needs_quoting :: "ustr \<Rightarrow> bool" where
  "needs_quoting value = (\<exists>c\<in>set value. is_whitespace c \<or> c = 34 \<or> c = 61)"

fun escape_chars :: "ustr \<Rightarrow> ustr" where
  "escape_chars [] = []"
| "escape_chars (c # cs) =
     (if c = 34 then [92, 34] else if c = 92 then [92, 92] else [c]) @ escape_chars cs"

definition quote :: "ustr \<Rightarrow> ustr" where
  "quote value =
     (if value = [] then [34, 34]
      else if \<not> needs_quoting value then value
      else 34 # escape_chars value @ [34])"

text \<open>
  The consumer's side: a reader that takes one logfmt value off the front of a line. A
  value that opens with a double quote runs to the closing one with backslash escapes
  undone; any other value runs to the next white space.
\<close>

fun read_quoted :: "ustr \<Rightarrow> (ustr \<times> ustr) option" where
  "read_quoted [] = None"
| "read_quoted (c # cs) =
     (if c = 34 then Some ([], cs)
      else if c = 92 then
        (case cs of [] \<Rightarrow> None
         | d # ds \<Rightarrow> map_option (\<lambda>(v, r). (d # v, r)) (read_quoted ds))
      else map_option (\<lambda>(v, r). (c # v, r)) (read_quoted cs))"

definition read_value :: "ustr \<Rightarrow> (ustr \<times> ustr) option" where
  "read_value s =
     (if s \<noteq> [] \<and> hd s = 34 then read_quoted (tl s)
      else Some (takeWhile (\<lambda>c. \<not> is_whitespace c) s, dropWhile (\<lambda>c. \<not> is_whitespace c) s))"

lemma read_quoted_escape: "read_quoted (escape_chars v @ 34 # r) = Some (v, r)"
  by (induction v) auto

lemma read_value_quote:
  assumes "r = [] \<or> is_whitespace (hd r)"
  shows "read_value (quote v @ r) = Some (v, r)"
proof (cases "v = [] \<or> needs_quoting v")
  case True
  then show ?thesis
    by (auto simp: quote_def read_value_def read_quoted_escape)
next
  case False
  then have nw: "\<forall>c\<in>set v. \<not> is_whitespace c" and "hd v \<noteq> 34" "v \<noteq> []"
    by (auto simp: needs_quoting_def)
  moreover have "takeWhile (\<lambda>c. \<not> is_whitespace c) (v @ r) = v"
    using nw assms by (cases r) (auto simp: takeWhile_append2)
  moreover have "dropWhile (\<lambda>c. \<not> is_whitespace c) (v @ r) = r"
    using nw assms by (cases r) (auto simp: dropWhile_append2)
  ultimately show ?thesis
    using False by (simp add: quote_def read_value_def)
qed

lemma quote_inj: "quote a = quote b \<longleftrightarrow> a = b"
proof
  assume "quote a = quote b"
  then have "read_value (quote a @ []) = read_value (quote b @ [])" by (rule arg_cong [of _ _ "\<lambda>x. read_value (x @ [])"])
  then show "a = b" by (simp only: read_value_quote option.inject prod.inject simp_thms)
qed simp

text \<open>A line of the form \<open>k1=v1 k2=v2 \<dots>\<close> after its first field, as the sources build them.\<close>

definition field :: "string \<Rightarrow> ustr \<Rightarrow> ustr" where
  "field key value = 32 # lit key @ 61 # quote value"

definition raw_field :: "string \<Rightarrow> ustr \<Rightarrow> ustr" where
  "raw_field key value = 32 # lit key @ 61 # value"

subsection \<open>Properties\<close>

text \<open>C34. A quoted value reads back: in a log line, a reader that takes one value off the front
  of a quoted value followed by white space or the end gets exactly the value and what
  follows. A value from another program can therefore not start a new field.\<close>

theorem quote_roundtrip:
  assumes "r = [] \<or> is_whitespace (hd r)"
  shows "read_value (quote v @ r) = Some (v, r)"
  using assms by (rule read_value_quote)

theorem quote_roundtrip_witness:
  "read_value (quote (lit ''a b'' @ [34] @ lit '' event=auth.allow'') @ lit '' service=sudo'') =
     Some (lit ''a b'' @ [34] @ lit '' event=auth.allow'', lit '' service=sudo'')"
  by (rule quote_roundtrip) simp

end
