(* ===== verification/Procfs.thy ===== *)
theory Procfs
  imports Logfmt
begin

text \<open>
  The best-effort readers of \<open>/proc\<close> and of logind's session files
  (\<open>sentinel-shared/src/lib.rs\<close>, modules \<open>procfs\<close> and \<open>logind\<close>, and
  \<open>logfmt_session_for_pid\<close>). The kernel's files are a parameter: a record of the
  contents of every readable file and the target of every readable link, as bytes.
  Every error of the sources is \<open>None\<close> here as there. The lemmas show that reading
  undoes the kernel's NUL-separated form, that a process id that is not positive reads
  nothing, and that a session id that passes the whitelist stays inside the session
  directory.
\<close>

record fs =
  read_file :: "ustr \<Rightarrow> byte list option"
  read_link :: "ustr \<Rightarrow> byte list option"

text \<open>\<open>std::fs::read_to_string\<close>: also fails when the bytes are not UTF-8.\<close>

definition read_to_string :: "fs \<Rightarrow> ustr \<Rightarrow> ustr option" where
  "read_to_string w path = Option.bind (read_file w path) from_utf8"

definition proc_path :: "pid \<Rightarrow> string \<Rightarrow> ustr" where
  "proc_path p entry = lit ''/proc/'' @ show_int p @ lit ''/'' @ lit entry"

subsection \<open>Process readers\<close>

definition read_comm :: "fs \<Rightarrow> pid \<Rightarrow> ustr option" where
  "read_comm w p =
     (if p \<le> 0 then None
      else map_option trim (read_to_string w (proc_path p ''comm'')))"

text \<open>The \<open>for\<close> loop: the first line with the prefix decides, even when it does not parse.\<close>

fun find_ppid :: "ustr list \<Rightarrow> int option" where
  "find_ppid [] = None"
| "find_ppid (line # ls) =
     (case strip_prefix (lit ''PPid:'') line of
        Some rest \<Rightarrow> parse_i32 (trim rest)
      | None \<Rightarrow> find_ppid ls)"

definition read_ppid :: "fs \<Rightarrow> pid \<Rightarrow> pid option" where
  "read_ppid w p =
     (if p \<le> 0 then None
      else (case read_to_string w (proc_path p ''status'') of
              None \<Rightarrow> None
            | Some s \<Rightarrow> find_ppid (lines s)))"

definition read_exe :: "fs \<Rightarrow> pid \<Rightarrow> ustr option" where
  "read_exe w p =
     (if p \<le> 0 then None else Option.bind (read_link w (proc_path p ''exe'')) from_utf8)"

definition read_cwd :: "fs \<Rightarrow> pid \<Rightarrow> ustr option" where
  "read_cwd w p =
     (if p \<le> 0 then None else Option.bind (read_link w (proc_path p ''cwd'')) from_utf8)"

definition cmdline_parts :: "byte list \<Rightarrow> ustr list" where
  "cmdline_parts bytes =
     map from_utf8_lossy (filter (\<lambda>s. s \<noteq> []) (split_on (\<lambda>b. b = 0) bytes))"

definition read_cmdline :: "fs \<Rightarrow> pid \<Rightarrow> ustr option" where
  "read_cmdline w p =
     (if p \<le> 0 then None
      else (case read_file w (proc_path p ''cmdline'') of
              None \<Rightarrow> None
            | Some bytes \<Rightarrow>
                (let parts = cmdline_parts bytes
                 in if parts = [] then None else Some (join [32] parts))))"

text \<open>The \<open>for\<close> loop over the environment entries with its three \<open>continue\<close>s.\<close>

fun find_var :: "ustr \<Rightarrow> byte list list \<Rightarrow> ustr option" where
  "find_var key [] = None"
| "find_var key (entry # es) =
     (if entry = [] then find_var key es
      else (case from_utf8 entry of
              None \<Rightarrow> find_var key es
            | Some s \<Rightarrow>
                (case split_once 61 s of
                   None \<Rightarrow> find_var key es
                 | Some (k, v) \<Rightarrow> if k = key then Some v else find_var key es)))"

definition read_environ_var :: "fs \<Rightarrow> pid \<Rightarrow> ustr \<Rightarrow> ustr option" where
  "read_environ_var w p key =
     (if p \<le> 0 then None
      else (case read_file w (proc_path p ''environ'') of
              None \<Rightarrow> None
            | Some bytes \<Rightarrow> find_var key (split_on (\<lambda>b. b = 0) bytes)))"

subsection \<open>logind sessions\<close>

record SessionInfo =
  si_state :: "ustr option"
  si_kind :: "ustr option"
  si_class :: "ustr option"
  si_remote :: "bool option"
  si_tty :: "ustr option"

definition is_ascii_alphanumeric :: "uchar \<Rightarrow> bool" where
  "is_ascii_alphanumeric c \<longleftrightarrow>
     (48 \<le> c \<and> c \<le> 57) \<or> (65 \<le> c \<and> c \<le> 90) \<or> (97 \<le> c \<and> c \<le> 122)"

definition is_safe_session_id :: "ustr \<Rightarrow> bool" where
  "is_safe_session_id s \<longleftrightarrow>
     s \<noteq> [] \<and> str_len s \<le> 16 \<and> list_all (\<lambda>c. is_ascii_alphanumeric c \<or> c = 45) s"

text \<open>Collecting pairs into a \<open>HashMap\<close>: a later pair replaces an earlier one.\<close>

definition parse_kv :: "ustr \<Rightarrow> ustr \<rightharpoonup> ustr" where
  "parse_kv s =
     map_of (rev (List.map_filter (split_once 61)
       (filter (\<lambda>l. \<not> starts_with [35] l \<and> l \<noteq> []) (lines s))))"

definition session_path :: "ustr \<Rightarrow> ustr" where
  "session_path session_id = lit ''/run/systemd/sessions/'' @ session_id"

definition session_info :: "fs \<Rightarrow> ustr \<Rightarrow> SessionInfo option" where
  "session_info w session_id =
     (if \<not> is_safe_session_id session_id then None
      else (case read_to_string w (session_path session_id) of
              None \<Rightarrow> None
            | Some raw \<Rightarrow>
                (let kv = parse_kv raw
                 in Some \<lparr>si_state = kv (lit ''STATE''),
                          si_kind = kv (lit ''TYPE''),
                          si_class = kv (lit ''CLASS''),
                          si_remote = map_option (\<lambda>v. v = lit ''1'') (kv (lit ''REMOTE'')),
                          si_tty = kv (lit ''TTY'')\<rparr>)))"

definition logfmt_session_for_pid :: "fs \<Rightarrow> pid \<Rightarrow> ustr" where
  "logfmt_session_for_pid w p =
     (case read_environ_var w p (lit ''XDG_SESSION_ID'') of
        None \<Rightarrow> []
      | Some sid \<Rightarrow>
          (case session_info w sid of
             None \<Rightarrow> []
           | Some info \<Rightarrow>
               (case si_kind info of Some t \<Rightarrow> field ''session_type'' t | None \<Rightarrow> []) @
               (case si_class info of Some c \<Rightarrow> field ''session_class'' c | None \<Rightarrow> []) @
               (case si_remote info of
                  Some r \<Rightarrow> raw_field ''session_remote'' (if r then lit ''1'' else lit ''0'')
                | None \<Rightarrow> [])))"

subsection \<open>Lemmas\<close>

lemmas procfs_defs = read_comm_def read_ppid_def read_exe_def read_cwd_def read_cmdline_def
  read_environ_var_def

lemma procfs_nonpositive:
  assumes "p \<le> 0"
  shows "read_comm w p = None" "read_ppid w p = None" "read_exe w p = None" "read_cwd w p = None"
    "read_cmdline w p = None" "read_environ_var w p key = None"
  using assms by (simp_all add: procfs_defs)

lemma safe_session_id_chars:
  "is_safe_session_id s \<Longrightarrow> c \<in> set s \<Longrightarrow> is_ascii_alphanumeric c \<or> c = 45"
  by (auto simp: is_safe_session_id_def list_all_iff)

lemma safe_session_id_no_path:
  assumes "is_safe_session_id s"
  shows "47 \<notin> set s" "46 \<notin> set s" "0 \<notin> set s"
  using safe_session_id_chars [OF assms] by (force simp: is_ascii_alphanumeric_def)+

text \<open>The path opened for a session id names a file directly in the session directory.\<close>

lemma session_path_component:
  assumes "is_safe_session_id s"
  shows "path_components (session_path s) = map lit [''run'', ''systemd'', ''sessions''] @ [s]"
    (is "?l = ?r")
proof -
  have ne: "s \<noteq> []" using assms by (simp add: is_safe_session_id_def)
  have "s \<noteq> [46]" using safe_session_id_no_path(2) [OF assms] by auto
  moreover have "split_on (\<lambda>c. c = 47) s = [s]"
    using safe_session_id_no_path(1) [OF assms] by simp
  ultimately show ?thesis
    using ne by (simp add: session_path_def path_components_def)
qed

lemma session_path_file_name:
  assumes "is_safe_session_id s"
  shows "file_name (session_path s) = Some s"
proof -
  have "s \<noteq> [46, 46]" using safe_session_id_no_path(2) [OF assms] by auto
  then show ?thesis
    by (simp add: file_name_def session_path_component [OF assms])
qed

text \<open>
  The kernel's form of an argument vector or an environment: every entry followed by NUL.
\<close>

definition nul_terminated :: "byte list list \<Rightarrow> byte list" where
  "nul_terminated args = concat (map (\<lambda>a. a @ [0]) args)"

lemma split_nul_terminated:
  assumes "\<forall>a\<in>set args. 0 \<notin> set a"
  shows "split_on (\<lambda>b. b = 0) (nul_terminated args) = args @ [[]]"
  using assms
proof (induction args)
  case (Cons a args)
  have "nul_terminated (a # args) = a @ 0 # nul_terminated args"
    by (simp add: nul_terminated_def)
  then show ?case
    using Cons by (simp add: split_on_append_sep)
qed (simp add: nul_terminated_def)

lemma filter_nonempty_id: "(\<forall>a\<in>set args. a \<noteq> []) \<Longrightarrow> filter (\<lambda>s. s \<noteq> []) args = args"
  by (induction args) auto

lemma cmdline_parts_nul_terminated:
  assumes "\<forall>a\<in>set args. 0 \<notin> set a \<and> a \<noteq> []"
  shows "cmdline_parts (nul_terminated args) = map from_utf8_lossy args"
  using assms by (simp add: cmdline_parts_def split_nul_terminated filter_nonempty_id)

lemma find_var_append_empty [simp]: "find_var key (es @ [[]]) = find_var key es"
  by (induction key es rule: find_var.induct) (auto split: option.splits)

text \<open>The reference reading of an environment: its first well-formed entry for the key.\<close>

definition env_entries :: "byte list list \<Rightarrow> (ustr \<times> ustr) list" where
  "env_entries es = List.map_filter (\<lambda>e. Option.bind (from_utf8 e) (split_once 61)) es"

lemma env_entries_simps [simp]:
  "env_entries [] = []"
  "env_entries (e # es) =
     (case Option.bind (from_utf8 e) (split_once 61) of None \<Rightarrow> env_entries es | Some kv \<Rightarrow> kv # env_entries es)"
  by (auto simp: env_entries_def List.map_filter_def split: option.splits)

lemma from_utf8_Nil [simp]: "from_utf8 [] = Some []"
  by (simp add: from_utf8_def)

lemma find_var_map_of: "find_var key es = map_of (env_entries es) key"
  by (induction key es rule: find_var.induct) (auto split: option.splits)

lemma read_environ_var_nul_terminated:
  assumes "0 < p" "read_file w (proc_path p ''environ'') = Some (nul_terminated es)"
    "\<forall>e\<in>set es. 0 \<notin> set e"
  shows "read_environ_var w p key = map_of (env_entries es) key"
proof -
  have "\<not> p \<le> 0" using assms(1) by simp
  with assms show ?thesis
    by (simp add: read_environ_var_def split_nul_terminated find_var_map_of [symmetric])
qed

subsection \<open>Properties\<close>

text \<open>A session id read from another process's environment cannot leave logind's directory:
  session data is returned only for an id whose path is a file directly inside
  \<open>/run/systemd/sessions\<close>, and its name is the id itself.\<close>

theorem session_info_confined:
  assumes "session_info w sid = Some info"
  shows "path_components (session_path sid) = map lit [''run'', ''systemd'', ''sessions''] @ [sid] \<and>
     file_name (session_path sid) = Some sid \<and> (\<exists>raw. read_to_string w (session_path sid) = Some raw)"
proof -
  have safe: "is_safe_session_id sid" and "\<exists>raw. read_to_string w (session_path sid) = Some raw"
    using assms by (auto simp: session_info_def split: if_splits option.splits)
  then show ?thesis
    using session_path_component [OF safe] session_path_file_name [OF safe] by blast
qed

theorem session_info_confined_witness:
  "file_name (session_path (lit ''c1'')) = Some (lit ''c1'')"
proof -
  let ?w = "\<lparr>read_file = (\<lambda>_. Some []), read_link = (\<lambda>_. None)\<rparr>"
  have "is_safe_session_id (lit ''c1'')"
    by (simp add: is_safe_session_id_def is_ascii_alphanumeric_def str_len_def len_utf8_def)
  then have "\<exists>info. session_info ?w (lit ''c1'') = Some info"
    by (simp add: session_info_def read_to_string_def Let_def del: lit_simps)
  then show ?thesis using session_info_confined by blast
qed

text \<open>Reading a variable of another process undoes the kernel's form of an environment: the
  answer is the value of the first well-formed entry for the name, whatever other bytes the
  environment holds, and nothing is read for a process id that is not positive.\<close>

theorem read_environ_var_correct:
  assumes "read_file w (proc_path p ''environ'') = Some (nul_terminated es)" "\<forall>e\<in>set es. 0 \<notin> set e"
  shows "read_environ_var w p key = (if 0 < p then map_of (env_entries es) key else None)"
  using assms read_environ_var_nul_terminated [OF _ assms] procfs_nonpositive(6) [of p w key] by auto

theorem read_environ_var_correct_witness:
  "read_environ_var \<lparr>read_file = (\<lambda>_. Some [76, 61, 65, 0, 255, 0, 76, 61, 66, 0]), read_link = (\<lambda>_. None)\<rparr> 7 (lit ''L'')
     = Some (lit ''A'')"
proof -
  let ?es = "[[76, 61, 65], [255], [76, 61, 66]] :: byte list list"
  let ?w = "\<lparr>read_file = (\<lambda>_. Some [76, 61, 65, 0, 255, 0, 76, 61, 66, 0]), read_link = (\<lambda>_. None)\<rparr> :: fs"
  have "read_file ?w (proc_path 7 ''environ'') = Some (nul_terminated ?es)" by (simp add: nul_terminated_def)
  from read_environ_var_correct [OF this, of "lit ''L''"] show ?thesis
    by (simp add: from_utf8_def utf8_step_def)
qed

end
