(* ===== verification/Commands.thy ===== *)
theory Commands
  imports Rust_Str
begin

text \<open>
  The command-line analysis of \<open>sentinel-shared/src/lib.rs\<close>: message templates
  (\<open>format_message\<close>), the base name of an executable, stripping an elevation tool and
  its options from a command line, and the rules that say which commands may be
  remembered and under which key. The loops are recursions over the list they walk.
\<close>

subsection \<open>Templates\<close>

fun format_message :: "ustr \<Rightarrow> ustr \<Rightarrow> ustr \<Rightarrow> ustr \<Rightarrow> ustr" where
  "format_message [] user service process = []"
| "format_message (c # cs) user service process =
     (if c \<noteq> 37 then c # format_message cs user service process
      else (case cs of
              [] \<Rightarrow> [37]
            | d # ds \<Rightarrow>
                (if d = 117 then user
                 else if d = 115 then service
                 else if d = 112 then process
                 else if d = 37 then [37]
                 else [37, d]) @ format_message ds user service process))"

subsection \<open>Elevation tools\<close>

definition process_basename :: "ustr \<Rightarrow> ustr option" where
  "process_basename exe = file_name exe"

definition ELEVATION_TOOLS :: "ustr list" where
  "ELEVATION_TOOLS = map lit [''pkexec'', ''sudo'', ''sudo-rs'', ''su'', ''doas'']"

definition ELEVATION_FLAGS_WITH_VALUE :: "ustr list" where
  "ELEVATION_FLAGS_WITH_VALUE = map lit
     [''--user'', ''-u'', ''--group'', ''-g'', ''--host'', ''-h'', ''--chdir'', ''-D'',
      ''--prompt'', ''-p'', ''--command-timeout'', ''-T'', ''--close-from'', ''-C'',
      ''--type'', ''-t'', ''--role'', ''-r'', ''--other-user'', ''-U'', ''--chroot'', ''-R'']"

text \<open>The \<open>while i < parts.len()\<close> loop over the remaining arguments; the result is the
  suffix \<open>parts[i..]\<close> at which it stops.\<close>

fun skip_options :: "ustr list \<Rightarrow> ustr list" where
  "skip_options [] = []"
| "skip_options (p # ps) =
     (if p \<in> set ELEVATION_FLAGS_WITH_VALUE then (case ps of [] \<Rightarrow> [] | _ # qs \<Rightarrow> skip_options qs)
      else if starts_with [45] p then skip_options ps
      else p # ps)"

definition leading_basename :: "ustr \<Rightarrow> ustr" where
  "leading_basename first = unwrap_or (process_basename first) first"

definition strip_elevation_prefix :: "ustr \<Rightarrow> ustr" where
  "strip_elevation_prefix cmdline =
     (case split_whitespace cmdline of
        [] \<Rightarrow> []
      | first # rest \<Rightarrow>
          if leading_basename first \<notin> set ELEVATION_TOOLS then cmdline
          else join [32] (skip_options rest))"

subsection \<open>What may be remembered\<close>

definition REMEMBER_INELIGIBLE :: "ustr list" where
  "REMEMBER_INELIGIBLE = map lit
     [''sh'', ''bash'', ''dash'', ''zsh'', ''fish'', ''ksh'', ''tcsh'', ''csh'', ''ash'', ''busybox'',
      ''python'', ''python2'', ''python3'', ''perl'', ''ruby'', ''node'', ''nodejs'', ''lua'', ''php'',
      ''gdb'', ''tclsh'', ''expect'',
      ''su'', ''sudo'', ''sudo-rs'', ''doas'', ''pkexec'', ''run0'', ''env'',
      ''vi'', ''vim'', ''nvim'', ''view'', ''emacs'', ''nano'', ''less'', ''more'', ''man'', ''ed'',
      ''awk'', ''find'']"

definition remember_eligible_command :: "ustr \<Rightarrow> bool" where
  "remember_eligible_command cmd =
     (case split_whitespace cmd of
        [] \<Rightarrow> False
      | first # _ \<Rightarrow> leading_basename first \<notin> set REMEMBER_INELIGIBLE)"

datatype remember_scope = ScopeCommand | ScopeProgram

definition remember_key_command :: "ustr \<Rightarrow> remember_scope \<Rightarrow> ustr" where
  "remember_key_command command scope =
     (case scope of
        ScopeCommand \<Rightarrow> trim command
      | ScopeProgram \<Rightarrow> (case split_whitespace command of [] \<Rightarrow> [] | t # _ \<Rightarrow> t))"

definition resolve_icon_name :: "ustr option \<Rightarrow> ustr option" where
  "resolve_icon_name process_exe = Option.bind process_exe process_basename"

subsection \<open>Lemmas\<close>

declare process_basename_def [str_eval] ELEVATION_TOOLS_def [str_eval]
  ELEVATION_FLAGS_WITH_VALUE_def [str_eval] leading_basename_def [str_eval]
  strip_elevation_prefix_def [str_eval] REMEMBER_INELIGIBLE_def [str_eval]
  remember_eligible_command_def [str_eval] remember_key_command_def [str_eval]

lemma format_message_no_percent:
  "37 \<notin> set t \<Longrightarrow> format_message t u s p = t"
  by (induction t) auto

lemma format_message_append:
  "37 \<notin> set t \<Longrightarrow> format_message (t @ r) u s p = t @ format_message r u s p"
  by (induction t) auto

text \<open>Escaping every percent sign makes any text literal.\<close>

definition escape_percent :: "ustr \<Rightarrow> ustr" where
  "escape_percent t = concat (map (\<lambda>c. if c = 37 then [37, 37] else [c]) t)"

lemma format_message_escape:
  "format_message (escape_percent t @ r) u s p = t @ format_message r u s p"
  by (induction t) (auto simp: escape_percent_def)

lemma skip_options_suffix: "\<exists>ks. ps = ks @ skip_options ps"
proof (induction ps rule: skip_options.induct)
  case 1
  then show ?case by simp
next
  case (2 p ps)
  show ?case
  proof (cases "p \<in> set ELEVATION_FLAGS_WITH_VALUE")
    case True
    show ?thesis
    proof (cases ps)
      case Nil
      with True show ?thesis by simp
    next
      case (Cons q qs)
      with "2.IH"(1) [OF True, of q qs] obtain ks where "qs = ks @ skip_options qs" by auto
      with True Cons have "p # ps = (p # q # ks) @ skip_options (p # ps)" by simp
      then show ?thesis by blast
    qed
  next
    case False
    then show ?thesis using "2.IH"(2)
      by (auto intro: exI [of _ "[]"]) (metis append_Cons)
  qed
qed

lemma set_skip_options: "set (skip_options ps) \<subseteq> set ps"
  using skip_options_suffix [of ps] by (metis Un_upper2 set_append)

lemma length_skip_options: "length (skip_options ps) \<le> length ps"
  using skip_options_suffix [of ps] by (metis le_add2 length_append)

lemma skip_options_hd:
  "skip_options ps \<noteq> [] \<Longrightarrow>
     hd (skip_options ps) \<notin> set ELEVATION_FLAGS_WITH_VALUE \<and> \<not> starts_with [45] (hd (skip_options ps))"
proof (induction ps rule: skip_options.induct)
  case 1
  then show ?case by simp
next
  case (2 p ps)
  show ?case
  proof (cases "p \<in> set ELEVATION_FLAGS_WITH_VALUE")
    case True
    with 2 show ?thesis by (cases ps) simp_all
  next
    case False
    with 2 show ?thesis by (cases "starts_with [45] p") simp_all
  qed
qed

lemma leading_basename_not_Nil: "w \<noteq> [] \<Longrightarrow> leading_basename w \<noteq> []"
  using file_name_SomeD by (auto simp: leading_basename_def process_basename_def unwrap_or_eq
      split: option.splits)

lemma leading_basename_plain:
  "47 \<notin> set w \<Longrightarrow> leading_basename w = w"
  by (cases "w = [] \<or> w = [46] \<or> w = [46, 46]")
    (auto simp: leading_basename_def process_basename_def file_name_plain,
     auto simp: file_name_def path_components_def)

lemma leading_basename_dir:
  "47 \<notin> set b \<Longrightarrow> b \<noteq> [] \<Longrightarrow> b \<noteq> [46] \<Longrightarrow> b \<noteq> [46, 46] \<Longrightarrow> leading_basename (d @ 47 # b) = b"
  by (simp add: leading_basename_def process_basename_def file_name_dir_append)

subsection \<open>Templates as segments\<close>

text \<open>
  The reference reading of a template: it is cut into segments once, before any value is
  known, and each segment is then rendered on its own. A value is therefore never
  scanned for tokens.
\<close>

datatype segment = SChar uchar | SUser | SService | SProcess

fun segments :: "ustr \<Rightarrow> segment list" where
  "segments [] = []"
| "segments [c] = [SChar c]"
| "segments (c # d # ds) =
     (if c \<noteq> 37 then SChar c # segments (d # ds)
      else if d = 117 then SUser # segments ds
      else if d = 115 then SService # segments ds
      else if d = 112 then SProcess # segments ds
      else if d = 37 then SChar 37 # segments ds
      else SChar 37 # SChar d # segments ds)"

fun render :: "ustr \<Rightarrow> ustr \<Rightarrow> ustr \<Rightarrow> segment \<Rightarrow> ustr" where
  "render user service process (SChar c) = [c]"
| "render user service process SUser = user"
| "render user service process SService = service"
| "render user service process SProcess = process"

lemma format_message_segments_aux:
  "format_message t u s p = concat (map (render u s p) (segments t))"
  by (induction t rule: segments.induct) auto

subsection \<open>Stripping\<close>

lemma split_strip_elevation:
  "split_whitespace cmdline = first # rest \<Longrightarrow>
     split_whitespace (strip_elevation_prefix cmdline) =
       (if leading_basename first \<in> set ELEVATION_TOOLS then skip_options rest else first # rest)"
proof -
  assume a: "split_whitespace cmdline = first # rest"
  then have "\<forall>w\<in>set rest. is_token w"
    using split_whitespace_tokens [of _ cmdline] by simp
  with set_skip_options [of rest] have "\<forall>w\<in>set (skip_options rest). is_token w" by blast
  then show ?thesis
    using a by (simp add: strip_elevation_prefix_def split_whitespace_join)
qed

lemma strip_elevation_Nil_tokens:
  "split_whitespace cmdline = [] \<Longrightarrow> strip_elevation_prefix cmdline = []"
  by (simp add: strip_elevation_prefix_def)

lemma strip_elevation_neq_iff:
  assumes "split_whitespace cmdline = first # rest"
  shows "strip_elevation_prefix cmdline \<noteq> cmdline \<longleftrightarrow> leading_basename first \<in> set ELEVATION_TOOLS"
proof
  assume "leading_basename first \<in> set ELEVATION_TOOLS"
  then have "length (split_whitespace (strip_elevation_prefix cmdline)) < length (split_whitespace cmdline)"
    using assms length_skip_options [of rest] by (simp add: split_strip_elevation)
  then show "strip_elevation_prefix cmdline \<noteq> cmdline" by auto
next
  assume "strip_elevation_prefix cmdline \<noteq> cmdline"
  then show "leading_basename first \<in> set ELEVATION_TOOLS"
    using assms by (auto simp: strip_elevation_prefix_def split: if_splits)
qed

lemma trim_strip_elevation:
  assumes "split_whitespace cmdline = first # rest" "leading_basename first \<in> set ELEVATION_TOOLS"
  shows "trim (strip_elevation_prefix cmdline) = strip_elevation_prefix cmdline"
proof -
  have "\<forall>w\<in>set (skip_options rest). is_token w"
    using split_whitespace_tokens [of _ cmdline] assms(1) set_skip_options [of rest] by auto
  with assms show ?thesis by (simp add: strip_elevation_prefix_def trim_join_tokens)
qed

subsection \<open>Eligibility\<close>

lemma remember_eligible_iff:
  "remember_eligible_command cmd \<longleftrightarrow>
     (\<exists>first rest. split_whitespace cmd = first # rest \<and>
        leading_basename first \<notin> set REMEMBER_INELIGIBLE)"
  by (auto simp: remember_eligible_command_def split: list.splits)

lemma remember_eligible_trim [simp]:
  "remember_eligible_command (trim cmd) = remember_eligible_command cmd"
  by (simp add: remember_eligible_command_def)

lemma remember_eligible_not_blank: "remember_eligible_command cmd \<Longrightarrow> trim cmd \<noteq> []"
  by (auto simp: remember_eligible_iff trim_eq_Nil simp flip: split_whitespace_eq_Nil)

lemma split_remember_key_command:
  "split_whitespace (remember_key_command cmd scope) =
     (case scope of ScopeCommand \<Rightarrow> split_whitespace cmd | ScopeProgram \<Rightarrow> take 1 (split_whitespace cmd))"
proof (cases scope)
  case ScopeProgram
  then show ?thesis
    using split_whitespace_tokens [of "hd (split_whitespace cmd)" cmd]
    by (cases "split_whitespace cmd") (simp_all add: remember_key_command_def)
qed (simp add: remember_key_command_def)

lemma remember_key_eligible:
  "remember_eligible_command (remember_key_command cmd scope) = remember_eligible_command cmd"
  by (cases scope; cases "split_whitespace cmd")
    (simp_all add: remember_eligible_command_def split_remember_key_command)

lemma remember_key_not_Nil:
  "remember_eligible_command cmd \<Longrightarrow> remember_key_command cmd scope \<noteq> []"
  using remember_eligible_command_def remember_key_eligible [of cmd scope]
  by (metis list.case(1) split_whitespace.simps(1))

subsection \<open>Properties\<close>

text \<open>C35. A template is read once: formatting equals cutting the template into segments before
  any value is known and rendering each segment. A user, service or process name that
  contains a percent token is therefore never expanded again.\<close>

theorem format_message_single_pass:
  "format_message t user service process = concat (map (render user service process) (segments t))"
  by (rule format_message_segments_aux)



text \<open>
  A user name or an environment assignment before the command is taken for the command, so
  that an elevation to a root shell counts as an eligible program.
\<close>

theorem strip_elevation_takes_user_for_command:
  "strip_elevation_prefix (lit ''su root'') = lit ''root'' \<and> remember_eligible_command (lit ''root'') \<and>
   strip_elevation_prefix (lit ''sudo A=1 bash'') = lit ''A=1 bash'' \<and> remember_eligible_command (lit ''A=1 bash'')"
  by (simp add: str_eval)

end
