(* ===== verification/Pam_Process.thy ===== *)
theory Pam_Process
  imports Procfs Commands
begin

text \<open>
  What the PAM module learns about the request before it decides: the process behind it
  (\<open>pam-sentinel/src/proc_info.rs\<close>), the user and session ids (\<open>lib.rs\<close>,
  \<open>caller_uid\<close> and \<open>read_proc_u32\<close>), the Wayland display (\<open>display.rs\<close>) and the locale
  forwarded to the dialog (\<open>locale.rs\<close>). The files are those of \<open>fs\<close>; the process
  environment is a map from names to bytes and its updates are returned.
\<close>

subsection \<open>The process behind the request\<close>

record process_info =
  pi_name :: ustr
  pi_exe :: ustr
  pi_cmdline :: ustr
  pi_cwd :: ustr
  pi_remember_command :: "ustr option"
  pi_policy_exe :: "ustr option"

definition remember_command_for :: "ustr \<Rightarrow> ustr option" where
  "remember_command_for cmd =
     (let cmd = trim cmd
      in if cmd \<noteq> [] \<and> remember_eligible_command cmd then Some cmd else None)"

text \<open>The three ways to resolve what is shown, remembered and matched by the policy.\<close>

definition resolve_target ::
  "fs \<Rightarrow> pid \<Rightarrow> ustr \<Rightarrow> ustr \<Rightarrow> ustr \<times> ustr \<times> ustr option \<times> ustr option" where
  "resolve_target w p raw_exe raw_cmdline =
     (let stripped = strip_elevation_prefix raw_cmdline;
          was_elevation = (raw_cmdline \<noteq> [] \<and> stripped \<noteq> raw_cmdline)
      in if was_elevation \<and> stripped \<noteq> [] then
           (let target_exe = (case split_whitespace stripped of [] \<Rightarrow> lit ''unknown'' | t # _ \<Rightarrow> t)
            in (target_exe, stripped, remember_command_for stripped, Some target_exe))
         else if was_elevation then
           (let parent =
              Option.bind (read_ppid w p) (\<lambda>ppid.
              Option.bind (read_exe w ppid) (\<lambda>pexe.
              Some (pexe, unwrap_or (read_cmdline w ppid) [])))
            in case parent of
                 Some (pexe, pcmdline) \<Rightarrow> (pexe, pcmdline, None, None)
               | None \<Rightarrow> (raw_exe, raw_cmdline, None, None))
         else (raw_exe, raw_cmdline, remember_command_for raw_cmdline, Some raw_exe))"

definition for_pid :: "fs \<Rightarrow> pid \<Rightarrow> process_info" where
  "for_pid w p =
     (let raw_exe = unwrap_or (read_exe w p) (lit ''unknown'');
          raw_cmdline = unwrap_or (read_cmdline w p) [];
          (exe, cmdline, remember_command, policy_exe) = resolve_target w p raw_exe raw_cmdline
      in \<lparr>pi_name = unwrap_or (option_or (process_basename exe) (read_comm w p)) (lit ''unknown''),
          pi_exe = exe,
          pi_cmdline = cmdline,
          pi_cwd = unwrap_or (read_cwd w p) [],
          pi_remember_command = remember_command,
          pi_policy_exe = policy_exe\<rparr>)"

subsection \<open>User and session ids\<close>

text \<open>The loop over the \<open>Uid:\<close> lines: a line that does not parse is passed over.\<close>

fun find_uid :: "ustr list \<Rightarrow> u32 option" where
  "find_uid [] = None"
| "find_uid (line # ls) =
     (case strip_prefix (lit ''Uid:'') line of
        None \<Rightarrow> find_uid ls
      | Some rest \<Rightarrow>
          (case split_whitespace rest of
             [] \<Rightarrow> find_uid ls
           | real # _ \<Rightarrow> (case parse_u32 real of Some uid \<Rightarrow> Some uid | None \<Rightarrow> find_uid ls)))"

definition caller_uid :: "fs \<Rightarrow> u32 \<Rightarrow> pid \<Rightarrow> u32" where
  "caller_uid w getuid ppid =
     (let login =
        (if 0 < ppid then
           option_filter (\<lambda>uid. uid \<noteq> u32_max)
             (Option.bind (read_to_string w (proc_path ppid ''loginuid'')) (\<lambda>s. parse_u32 (trim s)))
         else None);
          status =
        (if 0 < ppid then
           Option.bind (read_to_string w (proc_path ppid ''status'')) (\<lambda>s. find_uid (lines s))
         else None)
      in case login of
           Some uid \<Rightarrow> uid
         | None \<Rightarrow> unwrap_or status getuid)"

definition read_proc_u32 :: "fs \<Rightarrow> pid \<Rightarrow> string \<Rightarrow> u32" where
  "read_proc_u32 w ppid fld =
     (if 0 < ppid then
        unwrap_or
          (Option.bind (read_to_string w (proc_path ppid fld)) (\<lambda>s. parse_u32 (trim s))) u32_max
      else u32_max)"

subsection \<open>The display\<close>

type_synonym env = "ustr \<rightharpoonup> byte list"

text \<open>\<open>std::env::var\<close>: absent, or present but not UTF-8, is an error.\<close>

definition env_var :: "env \<Rightarrow> string \<Rightarrow> ustr option" where
  "env_var e name = Option.bind (e (lit name)) from_utf8"

record dir_entry =
  de_name :: "byte list"
  de_is_socket :: "bool option"

definition is_wayland_socket :: "dir_entry \<Rightarrow> ustr option" where
  "is_wayland_socket entry =
     (case from_utf8 (de_name entry) of
        None \<Rightarrow> None
      | Some s \<Rightarrow>
          if \<not> starts_with (lit ''wayland-'') s then None
          else if path_extension s = Some (lit ''lock'') then None
          else if \<not> unwrap_or (de_is_socket entry) False then None
          else Some s)"

fun first_socket :: "dir_entry list \<Rightarrow> ustr option" where
  "first_socket [] = None"
| "first_socket (entry # es) =
     (case is_wayland_socket entry of Some s \<Rightarrow> Some s | None \<Rightarrow> first_socket es)"

text \<open>\<open>read_dir\<close> is the kernel's listing: an error, or the entries that could be read.\<close>

definition detect_for_user :: "(ustr \<Rightarrow> dir_entry list option) \<Rightarrow> env \<Rightarrow> u32 \<Rightarrow> bool \<times> env" where
  "detect_for_user read_dir e uid =
     (if (case env_var e ''WAYLAND_DISPLAY'' of Some v \<Rightarrow> v \<noteq> [] | None \<Rightarrow> False) then (True, e)
      else
        (let runtime_dir = lit ''/run/user/'' @ show_u32 uid
         in case read_dir runtime_dir of
              None \<Rightarrow> (False, e)
            | Some entries \<Rightarrow>
                (case first_socket entries of
                   None \<Rightarrow> (False, e)
                 | Some s \<Rightarrow>
                     (let e1 = e(lit ''WAYLAND_DISPLAY'' \<mapsto> as_bytes s)
                      in (True,
                          if e1 (lit ''XDG_RUNTIME_DIR'') = None
                          then e1(lit ''XDG_RUNTIME_DIR'' \<mapsto> as_bytes runtime_dir)
                          else e1)))))"

subsection \<open>The locale\<close>

definition FORWARDED_VARS :: "ustr list" where
  "FORWARDED_VARS = map lit [''LC_ALL'', ''LC_MESSAGES'', ''LANG'']"

definition is_safe_locale_value :: "ustr \<Rightarrow> bool" where
  "is_safe_locale_value v \<longleftrightarrow>
     \<not> (v = [] \<or> str_len v > 32) \<and>
     list_all (\<lambda>c. is_ascii_alphanumeric c \<or> c = 46 \<or> c = 95 \<or> c = 64 \<or> c = 45) v"

fun read_locale_vars :: "fs \<Rightarrow> pid \<Rightarrow> ustr list \<Rightarrow> (ustr \<rightharpoonup> ustr)" where
  "read_locale_vars w p [] = Map.empty"
| "read_locale_vars w p (var # vars) =
     (case read_environ_var w p var of
        Some v \<Rightarrow>
          if is_safe_locale_value v then (read_locale_vars w p vars)(var \<mapsto> v)
          else read_locale_vars w p vars
      | None \<Rightarrow> read_locale_vars w p vars)"

definition read_locale_env :: "fs \<Rightarrow> pid \<Rightarrow> (ustr \<rightharpoonup> ustr)" where
  "read_locale_env w p = read_locale_vars w p FORWARDED_VARS"

subsection \<open>Lemmas\<close>

lemma remember_command_for_Some_iff:
  "remember_command_for cmd = Some c \<longleftrightarrow> c = trim cmd \<and> remember_eligible_command cmd"
  using remember_eligible_not_blank [of cmd] by (auto simp: remember_command_for_def Let_def)

lemma remember_command_for_eligible:
  "remember_command_for cmd = Some c \<Longrightarrow> remember_eligible_command c \<and> c \<noteq> []"
  using remember_eligible_not_blank [of c] by (auto simp: remember_command_for_Some_iff
      dest: remember_eligible_not_blank)

text \<open>A target that is neither remembered nor matched: elevation without a command.\<close>

definition bare_elevation :: "ustr \<Rightarrow> bool" where
  "bare_elevation cmdline \<longleftrightarrow> cmdline \<noteq> [] \<and> strip_elevation_prefix cmdline = []"

lemma strip_elevation_Nil [simp]: "strip_elevation_prefix [] = []"
  by (simp add: strip_elevation_prefix_def)

lemma resolve_target_bare:
  assumes "bare_elevation cmdline"
  shows "\<exists>exe cmd. resolve_target w p raw cmdline = (exe, cmd, None, None)"
  using assms
  by (auto simp: resolve_target_def bare_elevation_def Let_def split: option.splits)

lemma resolve_target_remember:
  assumes "resolve_target w p raw cmdline = (exe, cmd, Some c, pe)"
  shows "c = trim (strip_elevation_prefix cmdline) \<and> remember_eligible_command c \<and> c \<noteq> []"
proof -
  have ne: "strip_elevation_prefix cmdline \<noteq> []"
    using assms resolve_target_bare [of cmdline w p raw]
    by (cases "cmdline = []")
      (auto simp: bare_elevation_def resolve_target_def remember_command_for_def Let_def)
  have "remember_command_for (strip_elevation_prefix cmdline) = Some c"
    using assms ne by (auto simp: resolve_target_def Let_def split: if_splits)
  then show ?thesis
    using remember_command_for_eligible by (simp add: remember_command_for_Some_iff)
qed

lemma for_pid_sel:
  "resolve_target w p (unwrap_or (read_exe w p) (lit ''unknown'')) (unwrap_or (read_cmdline w p) [])
     = (exe, cmd, rc, pe) \<Longrightarrow>
   pi_exe (for_pid w p) = exe \<and> pi_cmdline (for_pid w p) = cmd \<and>
   pi_remember_command (for_pid w p) = rc \<and> pi_policy_exe (for_pid w p) = pe"
  by (simp add: for_pid_def)

lemma for_pid_remember:
  assumes "pi_remember_command (for_pid w p) = Some c"
  shows "remember_eligible_command c \<and> c \<noteq> [] \<and>
     (\<exists>cmdline. read_cmdline w p = Some cmdline \<and> c = trim (strip_elevation_prefix cmdline))"
proof -
  obtain exe cmd rc pe where r: "resolve_target w p (unwrap_or (read_exe w p) (lit ''unknown''))
      (unwrap_or (read_cmdline w p) []) = (exe, cmd, rc, pe)"
    by (metis prod.collapse)
  with assms have "rc = Some c" using for_pid_sel by metis
  from resolve_target_remember [OF r [unfolded this]]
  have c: "c = trim (strip_elevation_prefix (unwrap_or (read_cmdline w p) []))"
    "remember_eligible_command c" "c \<noteq> []" by auto
  have "read_cmdline w p \<noteq> None"
  proof
    assume "read_cmdline w p = None"
    with c(1,3) show False by simp
  qed
  with c show ?thesis by (cases "read_cmdline w p") auto
qed

lemma for_pid_bare:
  assumes "read_cmdline w p = Some cmdline" "bare_elevation cmdline"
  shows "pi_remember_command (for_pid w p) = None" "pi_policy_exe (for_pid w p) = None"
proof -
  obtain exe cmd where "resolve_target w p (unwrap_or (read_exe w p) (lit ''unknown''))
      (unwrap_or (read_cmdline w p) []) = (exe, cmd, None, None)"
    using resolve_target_bare [OF assms(2)] assms(1) by (metis unwrap_or.simps(2))
  then show "pi_remember_command (for_pid w p) = None" "pi_policy_exe (for_pid w p) = None"
    using for_pid_sel by blast+
qed

lemma for_pid_bare_parent:
  assumes "read_cmdline w p = Some cmdline" "bare_elevation cmdline"
    and "read_ppid w p = Some pp" "read_exe w pp = Some pexe" "read_cmdline w pp = Some pcmd"
  shows "pi_cmdline (for_pid w p) = pcmd"
  using assms by (auto simp: for_pid_def resolve_target_def bare_elevation_def Let_def)

lemma safe_locale_chars:
  assumes "is_safe_locale_value v" "c \<in> set v"
  shows "c < 128 \<and> c \<noteq> 0 \<and> c \<noteq> 47 \<and> \<not> is_whitespace c"
  using assms by (fastforce simp: is_safe_locale_value_def list_all_iff is_ascii_alphanumeric_def
      is_whitespace_def)

lemma read_locale_vars_Some:
  "read_locale_vars w p vars var = Some v \<Longrightarrow>
     var \<in> set vars \<and> read_environ_var w p var = Some v \<and> is_safe_locale_value v"
  by (induction vars) (auto split: option.splits if_splits)

lemma detect_frame:
  "detect_for_user rd e uid = (ok, e') \<Longrightarrow>
     k \<noteq> lit ''WAYLAND_DISPLAY'' \<Longrightarrow> k \<noteq> lit ''XDG_RUNTIME_DIR'' \<Longrightarrow> e' k = e k"
  by (auto simp: detect_for_user_def Let_def split: if_splits option.splits)

lemma first_socket_SomeD:
  "first_socket es = Some s \<Longrightarrow> \<exists>entry\<in>set es. is_wayland_socket entry = Some s"
  by (induction es) (auto split: option.splits)

subsection \<open>Properties\<close>

text \<open>What reaches the dialog's environment from the requesting process is harmless: only the three
  locale variables are forwarded, each with a value of at most 32 characters, all of them
  ASCII, without NUL, slash or white space, and as set in that process's environment.\<close>

theorem forwarded_locale_safe:
  assumes "read_locale_env w p var = Some v"
  shows "var \<in> set FORWARDED_VARS \<and> read_environ_var w p var = Some v \<and> v \<noteq> [] \<and> str_len v \<le> 32 \<and>
     (\<forall>c\<in>set v. c < 128 \<and> c \<noteq> 0 \<and> c \<noteq> 47 \<and> \<not> is_whitespace c)"
proof -
  have r: "var \<in> set FORWARDED_VARS" "read_environ_var w p var = Some v" "is_safe_locale_value v"
    using assms read_locale_vars_Some by (auto simp: read_locale_env_def)
  then show ?thesis
    using safe_locale_chars [OF r(3)] by (auto simp: is_safe_locale_value_def)
qed

theorem forwarded_locale_safe_witness:
  "\<exists>v. read_locale_env \<lparr>read_file = (\<lambda>_. Some (as_bytes (lit ''LANG=tr_TR.UTF-8''))), read_link = (\<lambda>_. None)\<rparr> 9 (lit ''LANG'') = Some v \<and>
     str_len v \<le> 32"
proof -
  let ?w = "\<lparr>read_file = (\<lambda>_. Some (as_bytes (lit ''LANG=tr_TR.UTF-8''))), read_link = (\<lambda>_. None)\<rparr> :: fs"
  have b: "split_on (\<lambda>b. b = 0) (as_bytes (lit ''LANG=tr_TR.UTF-8'')) = [as_bytes (lit ''LANG=tr_TR.UTF-8'')]"
    by (simp add: as_bytes_def encode_utf8_def encode_char_def)
  have "from_utf8 (as_bytes (lit ''LANG=tr_TR.UTF-8'')) = Some (lit ''LANG=tr_TR.UTF-8'')"
    by (rule from_utf8_as_bytes) (simp add: is_scalar_def)
  then have e: "read_environ_var ?w 9 k = (if k = lit ''LANG'' then Some (lit ''tr_TR.UTF-8'') else None)" for k
    using b by (simp add: read_environ_var_def find_var_map_of)
  have "is_safe_locale_value (lit ''tr_TR.UTF-8'')"
    by (simp add: is_safe_locale_value_def is_ascii_alphanumeric_def str_len_def len_utf8_def)
  then have "read_locale_env ?w 9 (lit ''LANG'') = Some (lit ''tr_TR.UTF-8'')"
    using e by (simp add: read_locale_env_def FORWARDED_VARS_def)
  with forwarded_locale_safe [OF this] show ?thesis by blast
qed

text \<open>What a remember grant binds to: only a command line whose stripped form is an eligible
  command, and then exactly that form; elevation without a command is neither remembered nor
  offered to the policy.\<close>

theorem process_remember_command:
  assumes "read_cmdline w p = Some cmdline"
  shows "(bare_elevation cmdline \<longrightarrow>
       pi_remember_command (for_pid w p) = None \<and> pi_policy_exe (for_pid w p) = None) \<and>
     (\<forall>c. pi_remember_command (for_pid w p) = Some c \<longrightarrow>
       c = trim (strip_elevation_prefix cmdline) \<and> remember_eligible_command c)"
  using assms for_pid_bare [OF assms] for_pid_remember [of w p] by auto

theorem process_remember_command_witness:
  "pi_policy_exe (for_pid \<lparr>read_file = (\<lambda>_. Some [115, 117, 100, 111, 0, 45, 118, 0]), read_link = (\<lambda>_. None)\<rparr> 5) = None"
proof -
  let ?w = "\<lparr>read_file = (\<lambda>_. Some [115, 117, 100, 111, 0, 45, 118, 0]), read_link = (\<lambda>_. None)\<rparr> :: fs"
  have "read_cmdline ?w 5 = Some (lit ''sudo -v'')"
    by (simp add: read_cmdline_def cmdline_parts_def from_utf8_lossy_def utf8_step_def)
  moreover have "bare_elevation (lit ''sudo -v'')" by (simp add: bare_elevation_def str_eval)
  ultimately show ?thesis using process_remember_command by blast
qed

end
