(* ===== verification/Config.thy ===== *)
theory Config
  imports Commands Logfmt
begin

text \<open>
  The configuration schema of \<open>sentinel-shared/src/lib.rs\<close>: the parsed document, the
  effective configuration of one PAM service, the static policy and the loading of the
  file. The TOML text parser is a parameter that yields a document tree; the schema that
  serde derives from the struct attributes (defaults, enumerations, integer ranges,
  rejected unknown keys) is modelled on that tree.
\<close>

subsection \<open>Data\<close>

datatype headless_action = HAllow | HDeny | HPassword

record general =
  g_enabled :: bool
  g_timeout :: u32
  g_randomize_buttons :: bool
  g_headless_action :: headless_action
  g_show_process_info :: bool
  g_log_attempts :: bool
  g_min_display_time_ms :: u32
  g_remember_seconds :: u32
  g_remember_scope :: remember_scope

record appearance =
  ap_title :: ustr
  ap_message :: ustr
  ap_secondary :: ustr

record audio =
  au_sound_name :: ustr

record service_override =
  o_enabled :: "bool option"
  o_timeout :: "u32 option"
  o_randomize :: "bool option"
  o_remember_seconds :: "u32 option"
  o_remember_scope :: "remember_scope option"

record policy =
  p_allow :: "ustr list"
  p_deny :: "ustr list"

record notifications =
  n_on_deny :: bool
  n_on_timeout :: bool

record document =
  d_general :: general
  d_appearance :: appearance
  d_audio :: audio
  d_services :: "ustr \<rightharpoonup> service_override"
  d_policy :: policy
  d_notifications :: notifications

record service_config =
  enabled :: bool
  timeout :: u32
  randomize_buttons :: bool
  headless_action :: headless_action
  show_process_info :: bool
  log_attempts :: bool
  min_display_time_ms :: u32
  title :: ustr
  message :: ustr
  secondary :: ustr
  sound_name :: ustr
  policy :: policy
  notify_on_deny :: bool
  notify_on_timeout :: bool
  remember_seconds :: u32
  remember_scope :: remember_scope

subsection \<open>Defaults\<close>

definition DEFAULT_TITLE :: ustr where
  "DEFAULT_TITLE = lit ''Authentication Required''"

definition DEFAULT_MESSAGE :: ustr where
  "DEFAULT_MESSAGE =
     lit ''The application '' @ [34] @ lit ''%p'' @ [34] @ lit '' is requesting elevated privileges.''"

definition DEFAULT_SECONDARY :: ustr where
  "DEFAULT_SECONDARY = []"

definition POLKIT_PAM_SERVICE :: ustr where
  "POLKIT_PAM_SERVICE = lit ''polkit-1''"

definition default_true :: bool where
  "default_true = True"

definition default_timeout :: u32 where
  "default_timeout = 30"

definition default_min_display_time :: u32 where
  "default_min_display_time = 500"

definition default_remember_seconds :: u32 where
  "default_remember_seconds = 300"

definition default_sound_name :: ustr where
  "default_sound_name = lit ''dialog-warning''"

definition general_default :: general where
  "general_default =
     \<lparr>g_enabled = True,
      g_timeout = default_timeout,
      g_randomize_buttons = True,
      g_headless_action = HPassword,
      g_show_process_info = True,
      g_log_attempts = True,
      g_min_display_time_ms = default_min_display_time,
      g_remember_seconds = default_remember_seconds,
      g_remember_scope = ScopeCommand\<rparr>"

definition appearance_default :: appearance where
  "appearance_default =
     \<lparr>ap_title = DEFAULT_TITLE, ap_message = DEFAULT_MESSAGE, ap_secondary = DEFAULT_SECONDARY\<rparr>"

definition audio_default :: audio where
  "audio_default = \<lparr>au_sound_name = default_sound_name\<rparr>"

definition policy_default :: policy where
  "policy_default = \<lparr>p_allow = [], p_deny = []\<rparr>"

definition notifications_default :: notifications where
  "notifications_default = \<lparr>n_on_deny = False, n_on_timeout = False\<rparr>"

definition document_defaults :: document where
  "document_defaults =
     \<lparr>d_general = general_default,
      d_appearance = appearance_default,
      d_audio = audio_default,
      d_services = Map.empty,
      d_policy = policy_default,
      d_notifications = notifications_default\<rparr>"

lemmas default_defs = general_default_def appearance_default_def audio_default_def
  policy_default_def notifications_default_def document_defaults_def
  default_true_def default_timeout_def default_min_display_time_def
  default_remember_seconds_def default_sound_name_def

subsection \<open>Static policy\<close>

datatype policy_decision = PAllow | PDeny | PAsk

definition entry_matches :: "ustr option \<Rightarrow> ustr option \<Rightarrow> ustr \<Rightarrow> bool" where
  "entry_matches exe action entry =
     (if action = Some entry then True
      else (case exe of
              Some path \<Rightarrow>
                if 47 \<in> set entry then entry = path
                else process_basename path = Some entry
            | None \<Rightarrow> False))"

definition list_matches :: "ustr list \<Rightarrow> ustr option \<Rightarrow> ustr option \<Rightarrow> bool" where
  "list_matches list exe action = list_ex (entry_matches exe action) list"

definition decide :: "policy \<Rightarrow> ustr option \<Rightarrow> ustr option \<Rightarrow> policy_decision" where
  "decide p exe action =
     (if list_matches (p_deny p) exe action then PDeny
      else if list_matches (p_allow p) exe action then PAllow
      else PAsk)"

subsection \<open>Effective configuration\<close>

definition base_config :: "document \<Rightarrow> ustr \<Rightarrow> service_config" where
  "base_config d service =
     \<lparr>enabled = g_enabled (d_general d),
      timeout = g_timeout (d_general d),
      randomize_buttons = g_randomize_buttons (d_general d),
      headless_action = g_headless_action (d_general d),
      show_process_info = g_show_process_info (d_general d),
      log_attempts = g_log_attempts (d_general d),
      min_display_time_ms = g_min_display_time_ms (d_general d),
      title = ap_title (d_appearance d),
      message = ap_message (d_appearance d),
      secondary = ap_secondary (d_appearance d),
      sound_name = au_sound_name (d_audio d),
      policy = d_policy d,
      notify_on_deny = n_on_deny (d_notifications d),
      notify_on_timeout = n_on_timeout (d_notifications d),
      remember_seconds =
        (if service = POLKIT_PAM_SERVICE then g_remember_seconds (d_general d) else 0),
      remember_scope = g_remember_scope (d_general d)\<rparr>"

definition apply_override :: "service_override \<Rightarrow> service_config \<Rightarrow> service_config" where
  "apply_override over cfg =
     (let cfg1 = (case o_enabled over of Some v \<Rightarrow> cfg\<lparr>enabled := v\<rparr> | None \<Rightarrow> cfg);
          cfg2 = (case o_timeout over of Some v \<Rightarrow> cfg1\<lparr>timeout := v\<rparr> | None \<Rightarrow> cfg1);
          cfg3 = (case o_randomize over of Some v \<Rightarrow> cfg2\<lparr>randomize_buttons := v\<rparr> | None \<Rightarrow> cfg2);
          cfg4 = (case o_remember_seconds over of
                    Some v \<Rightarrow> cfg3\<lparr>remember_seconds := v\<rparr> | None \<Rightarrow> cfg3)
      in (case o_remember_scope over of Some v \<Rightarrow> cfg4\<lparr>remember_scope := v\<rparr> | None \<Rightarrow> cfg4))"

definition for_service :: "document \<Rightarrow> ustr \<Rightarrow> service_config" where
  "for_service d service =
     (case d_services d service of
        Some over \<Rightarrow> apply_override over (base_config d service)
      | None \<Rightarrow> base_config d service)"

subsection \<open>Loading\<close>

datatype io_error = NotFound ustr | OtherIo ustr

text \<open>
  \<open>load_from\<close>: the file read and \<open>toml::from_str::<Document>\<close> are parameters; every
  failure ends in the defaults, and all but a missing file leave a warning. The dash of
  the messages is U+2014.
\<close>

definition load_from ::
  "(ustr \<Rightarrow> ustr + document) \<Rightarrow> (ustr \<Rightarrow> io_error + ustr) \<Rightarrow> ustr \<Rightarrow> document \<times> log_record list" where
  "load_from from_str read path =
     (case read path of
        Inr contents \<Rightarrow>
          (case from_str contents of
             Inr parsed \<Rightarrow> (parsed, [])
           | Inl e \<Rightarrow>
               (document_defaults,
                [(LWarn, lit ''sentinel-shared: failed to parse '' @ path @ lit '': '' @ e @
                   [32, 8212, 32] @ lit ''falling back to defaults'')]))
      | Inl (NotFound e) \<Rightarrow>
          (document_defaults,
           [(LDebug, lit ''sentinel-shared: '' @ path @ lit '' not present'' @ [32, 8212, 32] @
              lit ''using defaults'')])
      | Inl (OtherIo e) \<Rightarrow>
          (document_defaults,
           [(LWarn, lit ''sentinel-shared: cannot read '' @ path @ lit '': '' @ e @
              [32, 8212, 32] @ lit ''using defaults'')]))"

definition load_config ::
  "(ustr \<Rightarrow> ustr + document) \<Rightarrow> (ustr \<Rightarrow> io_error + ustr) \<Rightarrow> ustr \<Rightarrow> ustr \<Rightarrow> service_config" where
  "load_config from_str read config_path service =
     for_service (fst (load_from from_str read config_path)) service"

subsection \<open>The schema on document trees\<close>

text \<open>
  What the TOML parser returns: a tree whose tables are association lists with distinct
  keys. \<open>TOther\<close> stands for floats and dates, which no field of the schema takes.
\<close>

datatype toml =
  TString ustr | TInteger int | TBoolean bool | TArray "toml list"
| TTable "(ustr \<times> toml) list" | TOther

fun toml_bool :: "toml \<Rightarrow> bool option" where
  "toml_bool (TBoolean b) = Some b"
| "toml_bool _ = None"

fun toml_u32 :: "toml \<Rightarrow> u32 option" where
  "toml_u32 (TInteger i) = (if 0 \<le> i \<and> i < 2 ^ 32 then Some (of_int i) else None)"
| "toml_u32 _ = None"

fun toml_string :: "toml \<Rightarrow> ustr option" where
  "toml_string (TString s) = Some s"
| "toml_string _ = None"

fun toml_strings :: "toml list \<Rightarrow> ustr list option" where
  "toml_strings [] = Some []"
| "toml_strings (t # ts) =
     (case toml_string t of
        None \<Rightarrow> None
      | Some s \<Rightarrow> map_option (\<lambda>ss. s # ss) (toml_strings ts))"

fun toml_string_list :: "toml \<Rightarrow> ustr list option" where
  "toml_string_list (TArray ts) = toml_strings ts"
| "toml_string_list _ = None"

definition toml_headless_action :: "toml \<Rightarrow> headless_action option" where
  "toml_headless_action t =
     (case toml_string t of
        None \<Rightarrow> None
      | Some s \<Rightarrow>
          if s = lit ''allow'' then Some HAllow
          else if s = lit ''deny'' then Some HDeny
          else if s = lit ''password'' then Some HPassword
          else None)"

definition toml_remember_scope :: "toml \<Rightarrow> remember_scope option" where
  "toml_remember_scope t =
     (case toml_string t of
        None \<Rightarrow> None
      | Some s \<Rightarrow>
          if s = lit ''command'' then Some ScopeCommand
          else if s = lit ''program'' then Some ScopeProgram
          else None)"

text \<open>A field with a default: absent gives the default, present must decode.\<close>

definition field_or ::
  "(ustr \<times> toml) list \<Rightarrow> string \<Rightarrow> (toml \<Rightarrow> 'a option) \<Rightarrow> 'a \<Rightarrow> 'a option" where
  "field_or tab key decode d =
     (case map_of tab (lit key) of None \<Rightarrow> Some d | Some t \<Rightarrow> decode t)"

text \<open>A field of type \<open>Option\<close>.\<close>

definition field_opt ::
  "(ustr \<times> toml) list \<Rightarrow> string \<Rightarrow> (toml \<Rightarrow> 'a option) \<Rightarrow> 'a option option" where
  "field_opt tab key decode =
     (case map_of tab (lit key) of None \<Rightarrow> Some None | Some t \<Rightarrow> map_option Some (decode t))"

fun general_of_toml :: "toml \<Rightarrow> general option" where
  "general_of_toml (TTable tab) =
     Option.bind (field_or tab ''enabled'' toml_bool default_true) (\<lambda>en.
     Option.bind (field_or tab ''timeout'' toml_u32 default_timeout) (\<lambda>ti.
     Option.bind (field_or tab ''randomize_buttons'' toml_bool default_true) (\<lambda>ra.
     Option.bind (field_or tab ''headless_action'' toml_headless_action HPassword) (\<lambda>he.
     Option.bind (field_or tab ''show_process_info'' toml_bool default_true) (\<lambda>sh.
     Option.bind (field_or tab ''log_attempts'' toml_bool default_true) (\<lambda>lo.
     Option.bind (field_or tab ''min_display_time_ms'' toml_u32 default_min_display_time) (\<lambda>mi.
     Option.bind (field_or tab ''remember_seconds'' toml_u32 default_remember_seconds) (\<lambda>re.
     Option.bind (field_or tab ''remember_scope'' toml_remember_scope ScopeCommand) (\<lambda>sc.
     Some \<lparr>g_enabled = en, g_timeout = ti, g_randomize_buttons = ra, g_headless_action = he,
           g_show_process_info = sh, g_log_attempts = lo, g_min_display_time_ms = mi,
           g_remember_seconds = re, g_remember_scope = sc\<rparr>)))))))))"
| "general_of_toml _ = None"

fun appearance_of_toml :: "toml \<Rightarrow> appearance option" where
  "appearance_of_toml (TTable tab) =
     Option.bind (field_or tab ''title'' toml_string DEFAULT_TITLE) (\<lambda>ti.
     Option.bind (field_or tab ''message'' toml_string DEFAULT_MESSAGE) (\<lambda>me.
     Option.bind (field_or tab ''secondary'' toml_string DEFAULT_SECONDARY) (\<lambda>se.
     Some \<lparr>ap_title = ti, ap_message = me, ap_secondary = se\<rparr>)))"
| "appearance_of_toml _ = None"

fun audio_of_toml :: "toml \<Rightarrow> audio option" where
  "audio_of_toml (TTable tab) =
     map_option (\<lambda>so. \<lparr>au_sound_name = so\<rparr>)
       (field_or tab ''sound_name'' toml_string default_sound_name)"
| "audio_of_toml _ = None"

fun policy_of_toml :: "toml \<Rightarrow> policy option" where
  "policy_of_toml (TTable tab) =
     Option.bind (field_or tab ''allow'' toml_string_list []) (\<lambda>al.
     Option.bind (field_or tab ''deny'' toml_string_list []) (\<lambda>de.
     Some \<lparr>p_allow = al, p_deny = de\<rparr>))"
| "policy_of_toml _ = None"

fun notifications_of_toml :: "toml \<Rightarrow> notifications option" where
  "notifications_of_toml (TTable tab) =
     Option.bind (field_or tab ''on_deny'' toml_bool False) (\<lambda>de.
     Option.bind (field_or tab ''on_timeout'' toml_bool False) (\<lambda>ti.
     Some \<lparr>n_on_deny = de, n_on_timeout = ti\<rparr>))"
| "notifications_of_toml _ = None"

definition override_keys :: "ustr list" where
  "override_keys = map lit
     [''enabled'', ''timeout'', ''randomize'', ''remember_seconds'', ''remember_scope'']"

text \<open>\<open>deny_unknown_fields\<close>: a key outside the five known ones is an error.\<close>

fun override_of_toml :: "toml \<Rightarrow> service_override option" where
  "override_of_toml (TTable tab) =
     (if \<not> list_all (\<lambda>(k, _). k \<in> set override_keys) tab then None
      else
        Option.bind (field_opt tab ''enabled'' toml_bool) (\<lambda>en.
        Option.bind (field_opt tab ''timeout'' toml_u32) (\<lambda>ti.
        Option.bind (field_opt tab ''randomize'' toml_bool) (\<lambda>ra.
        Option.bind (field_opt tab ''remember_seconds'' toml_u32) (\<lambda>re.
        Option.bind (field_opt tab ''remember_scope'' toml_remember_scope) (\<lambda>sc.
        Some \<lparr>o_enabled = en, o_timeout = ti, o_randomize = ra, o_remember_seconds = re,
              o_remember_scope = sc\<rparr>))))))"
| "override_of_toml _ = None"

fun overrides_of_list :: "(ustr \<times> toml) list \<Rightarrow> (ustr \<rightharpoonup> service_override) option" where
  "overrides_of_list [] = Some Map.empty"
| "overrides_of_list ((k, t) # tab) =
     Option.bind (override_of_toml t) (\<lambda>v.
     Option.bind (overrides_of_list tab) (\<lambda>m. Some (m(k \<mapsto> v))))"

fun services_of_toml :: "toml \<Rightarrow> (ustr \<rightharpoonup> service_override) option" where
  "services_of_toml (TTable tab) = overrides_of_list tab"
| "services_of_toml _ = None"

fun document_of_toml :: "toml \<Rightarrow> document option" where
  "document_of_toml (TTable tab) =
     Option.bind (field_or tab ''general'' general_of_toml general_default) (\<lambda>ge.
     Option.bind (field_or tab ''appearance'' appearance_of_toml appearance_default) (\<lambda>ap.
     Option.bind (field_or tab ''audio'' audio_of_toml audio_default) (\<lambda>au.
     Option.bind (field_or tab ''services'' services_of_toml Map.empty) (\<lambda>se.
     Option.bind (field_or tab ''policy'' policy_of_toml policy_default) (\<lambda>po.
     Option.bind (field_or tab ''notifications'' notifications_of_toml notifications_default) (\<lambda>no.
     Some \<lparr>d_general = ge, d_appearance = ap, d_audio = au, d_services = se, d_policy = po,
           d_notifications = no\<rparr>))))))"
| "document_of_toml _ = None"

lemma field_or_empty [simp]: "field_or [] key decode d = Some d"
  by (simp add: field_or_def)

lemma field_opt_empty [simp]: "field_opt [] key decode = Some None"
  by (simp add: field_opt_def)

lemmas section_of_toml_simps = general_of_toml.simps appearance_of_toml.simps audio_of_toml.simps
  policy_of_toml.simps notifications_of_toml.simps

subsection \<open>The types of the schema\<close>

text \<open>
  The schema as types: the six structures of the file with the types of their fields, and when
  a tree has a type. A field may be absent, keys the structure does not know are skipped unless
  it is strict, and the variants of an enumeration are written as strings.
\<close>

datatype schema_type =
  TyBool | TyU32 | TyString | TyEnum "ustr list" | TyList schema_type | TyMap schema_type
| TyStruct bool "(ustr \<times> schema_type) list"

fun has_type :: "schema_type \<Rightarrow> toml \<Rightarrow> bool" where
  "has_type TyBool t = (case t of TBoolean b \<Rightarrow> True | _ \<Rightarrow> False)"
| "has_type TyU32 t = (case t of TInteger i \<Rightarrow> 0 \<le> i \<and> i < 2 ^ 32 | _ \<Rightarrow> False)"
| "has_type TyString t = (case t of TString s \<Rightarrow> True | _ \<Rightarrow> False)"
| "has_type (TyEnum vs) t = (case t of TString s \<Rightarrow> s \<in> set vs | _ \<Rightarrow> False)"
| "has_type (TyList ty) t = (case t of TArray ts \<Rightarrow> list_all (has_type ty) ts | _ \<Rightarrow> False)"
| "has_type (TyMap ty) t = (case t of TTable tab \<Rightarrow> list_all (\<lambda>(k, v). has_type ty v) tab | _ \<Rightarrow> False)"
| "has_type (TyStruct strict fs) t =
     (case t of
        TTable tab \<Rightarrow>
          list_all (\<lambda>(k, ty). case map_of tab k of None \<Rightarrow> True | Some v \<Rightarrow> has_type ty v) fs \<and>
          (strict \<longrightarrow> list_all (\<lambda>(k, v). k \<in> set (map fst fs)) tab)
      | _ \<Rightarrow> False)"

definition struct :: "(string \<times> schema_type) list \<Rightarrow> schema_type" where
  "struct fs = TyStruct False (map (\<lambda>(k, ty). (lit k, ty)) fs)"

definition scope_ty :: schema_type where
  "scope_ty = TyEnum [lit ''command'', lit ''program'']"

definition general_ty :: schema_type where
  "general_ty = struct
     [(''enabled'', TyBool), (''timeout'', TyU32), (''randomize_buttons'', TyBool),
      (''headless_action'', TyEnum [lit ''allow'', lit ''deny'', lit ''password'']),
      (''show_process_info'', TyBool), (''log_attempts'', TyBool), (''min_display_time_ms'', TyU32),
      (''remember_seconds'', TyU32), (''remember_scope'', scope_ty)]"

definition appearance_ty :: schema_type where
  "appearance_ty = struct [(''title'', TyString), (''message'', TyString), (''secondary'', TyString)]"

definition audio_ty :: schema_type where
  "audio_ty = struct [(''sound_name'', TyString)]"

definition policy_ty :: schema_type where
  "policy_ty = struct [(''allow'', TyList TyString), (''deny'', TyList TyString)]"

definition notifications_ty :: schema_type where
  "notifications_ty = struct [(''on_deny'', TyBool), (''on_timeout'', TyBool)]"

definition override_ty :: schema_type where
  "override_ty = TyStruct True
     [(lit ''enabled'', TyBool), (lit ''timeout'', TyU32), (lit ''randomize'', TyBool),
      (lit ''remember_seconds'', TyU32), (lit ''remember_scope'', scope_ty)]"

definition document_ty :: schema_type where
  "document_ty = struct
     [(''general'', general_ty), (''appearance'', appearance_ty), (''audio'', audio_ty),
      (''services'', TyMap override_ty), (''policy'', policy_ty), (''notifications'', notifications_ty)]"

named_theorems decodes \<open>when a decoder accepts a tree\<close>

lemma decodes_leaf [decodes]:
  "toml_bool t = None \<longleftrightarrow> \<not> has_type TyBool t"
  "toml_u32 t = None \<longleftrightarrow> \<not> has_type TyU32 t"
  "toml_string t = None \<longleftrightarrow> \<not> has_type TyString t"
  by (cases t; simp)+

lemma decodes_scope [decodes]: "toml_remember_scope t = None \<longleftrightarrow> \<not> has_type scope_ty t"
  by (cases t) (simp_all add: toml_remember_scope_def scope_ty_def del: lit_simps)

lemma decodes_headless [decodes]:
  "toml_headless_action t = None \<longleftrightarrow>
     \<not> has_type (TyEnum [lit ''allow'', lit ''deny'', lit ''password'']) t"
  by (cases t) (simp_all add: toml_headless_action_def del: lit_simps)

lemma decodes_strings [decodes]: "toml_string_list t = None \<longleftrightarrow> \<not> has_type (TyList TyString) t"
proof (cases t)
  case (TArray ts)
  have "toml_strings ts = None \<longleftrightarrow> \<not> list_all (has_type TyString) ts"
  proof (induction ts)
    case (Cons a ts)
    then show ?case
      using decodes_leaf(3) [of a] by (cases "toml_string a") (simp_all del: has_type.simps)
  qed simp
  with TArray show ?thesis by simp
qed simp_all

lemma field_or_None:
  "field_or tab key decode d = None \<longleftrightarrow>
     (case map_of tab (lit key) of None \<Rightarrow> False | Some v \<Rightarrow> decode v = None)"
  by (simp add: field_or_def split: option.splits)

lemma field_opt_None:
  "field_opt tab key decode = None \<longleftrightarrow>
     (case map_of tab (lit key) of None \<Rightarrow> False | Some v \<Rightarrow> decode v = None)"
  by (simp add: field_opt_def split: option.splits)

lemmas field_None = field_or_None field_opt_None bind_eq_None_conv

text \<open>An absent field has every type.\<close>

lemma field_typed:
  "(case m of None \<Rightarrow> False | Some v \<Rightarrow> \<not> has_type ty v) \<longleftrightarrow>
     \<not> (case m of None \<Rightarrow> True | Some v \<Rightarrow> has_type ty v)"
  by (simp split: option.splits)

lemma decodes_general [decodes]: "general_of_toml t = None \<longleftrightarrow> \<not> has_type general_ty t"
  by (cases t) (auto simp: general_ty_def struct_def field_None field_typed decodes simp del: lit_simps has_type.simps(1-6)
      cong: option.case_cong)

lemma decodes_appearance [decodes]: "appearance_of_toml t = None \<longleftrightarrow> \<not> has_type appearance_ty t"
  by (cases t) (auto simp: appearance_ty_def struct_def field_None field_typed decodes simp del: lit_simps has_type.simps(1-6)
      cong: option.case_cong)

lemma decodes_audio [decodes]: "audio_of_toml t = None \<longleftrightarrow> \<not> has_type audio_ty t"
  by (cases t) (auto simp: audio_ty_def struct_def field_None field_typed decodes simp del: lit_simps has_type.simps(1-6)
      cong: option.case_cong)

lemma decodes_policy [decodes]: "policy_of_toml t = None \<longleftrightarrow> \<not> has_type policy_ty t"
  by (cases t) (auto simp: policy_ty_def struct_def field_None field_typed decodes simp del: lit_simps has_type.simps(1-6)
      cong: option.case_cong)

lemma decodes_notifications [decodes]: "notifications_of_toml t = None \<longleftrightarrow> \<not> has_type notifications_ty t"
  by (cases t) (auto simp: notifications_ty_def struct_def field_None field_typed decodes simp del: lit_simps has_type.simps(1-6)
      cong: option.case_cong)

lemma decodes_override [decodes]: "override_of_toml t = None \<longleftrightarrow> \<not> has_type override_ty t"
  by (cases t) (auto simp: override_ty_def override_keys_def field_None field_typed decodes simp del: lit_simps has_type.simps(1-6)
      cong: option.case_cong)

lemma decodes_services [decodes]: "services_of_toml t = None \<longleftrightarrow> \<not> has_type (TyMap override_ty) t"
proof (cases t)
  case (TTable tab)
  have "overrides_of_list tab = None \<longleftrightarrow> \<not> list_all (\<lambda>(k, v). has_type override_ty v) tab"
  proof (induction tab rule: overrides_of_list.induct)
    case (2 k t tab)
    then show ?case
      using decodes_override [of t] by (cases "override_of_toml t"; cases "overrides_of_list tab") auto
  qed simp
  with TTable show ?thesis by simp
qed simp_all


subsection \<open>Lemmas on the policy\<close>

lemma list_matches_iff:
  "list_matches l exe action \<longleftrightarrow> (\<exists>e\<in>set l. entry_matches exe action e)"
  by (simp add: list_matches_def list_ex_iff)

lemma entry_matches_iff:
  "entry_matches exe action e \<longleftrightarrow>
     action = Some e \<or>
     (\<exists>path. exe = Some path \<and>
        (if 47 \<in> set e then e = path else process_basename path = Some e))"
  by (auto simp: entry_matches_def split: option.splits)

lemma decide_cases:
  "decide p exe action = PDeny \<longleftrightarrow> list_matches (p_deny p) exe action"
  "decide p exe action = PAllow \<longleftrightarrow>
     \<not> list_matches (p_deny p) exe action \<and> list_matches (p_allow p) exe action"
  "decide p exe action = PAsk \<longleftrightarrow>
     \<not> list_matches (p_deny p) exe action \<and> \<not> list_matches (p_allow p) exe action"
  by (auto simp: decide_def)

lemma entry_matches_None [simp]: "\<not> entry_matches None None e"
  by (simp add: entry_matches_def)

lemma decide_None_None [simp]: "decide p None None = PAsk"
  by (simp add: decide_def list_matches_iff)

subsection \<open>Lemmas on overrides\<close>

lemma apply_override_sel:
  "enabled (apply_override ov c) = unwrap_or (o_enabled ov) (enabled c)"
  "timeout (apply_override ov c) = unwrap_or (o_timeout ov) (timeout c)"
  "randomize_buttons (apply_override ov c) = unwrap_or (o_randomize ov) (randomize_buttons c)"
  "remember_seconds (apply_override ov c) = unwrap_or (o_remember_seconds ov) (remember_seconds c)"
  "remember_scope (apply_override ov c) = unwrap_or (o_remember_scope ov) (remember_scope c)"
  by (simp_all add: apply_override_def Let_def unwrap_or_eq split: option.splits)

lemma apply_override_frame:
  "headless_action (apply_override ov c) = headless_action c"
  "show_process_info (apply_override ov c) = show_process_info c"
  "log_attempts (apply_override ov c) = log_attempts c"
  "min_display_time_ms (apply_override ov c) = min_display_time_ms c"
  "title (apply_override ov c) = title c"
  "message (apply_override ov c) = message c"
  "secondary (apply_override ov c) = secondary c"
  "sound_name (apply_override ov c) = sound_name c"
  "policy (apply_override ov c) = policy c"
  "notify_on_deny (apply_override ov c) = notify_on_deny c"
  "notify_on_timeout (apply_override ov c) = notify_on_timeout c"
  by (simp_all add: apply_override_def Let_def split: option.splits)

lemmas apply_override_simps = apply_override_sel apply_override_frame

subsection \<open>Properties\<close>

text \<open>The static policy: deny wins. A request is denied exactly when an entry of the deny
  list matches, allowed exactly when none does and one of the allow list matches. An entry
  matches the action id, or the executable: by its whole path when the entry has a slash,
  by its base name otherwise.\<close>

theorem policy_decide_deny_wins:
  "(decide p exe action = PDeny \<longleftrightarrow> (\<exists>e\<in>set (p_deny p). entry_matches exe action e)) \<and>
   (decide p exe action = PAllow \<longleftrightarrow>
      \<not> (\<exists>e\<in>set (p_deny p). entry_matches exe action e) \<and> (\<exists>e\<in>set (p_allow p). entry_matches exe action e)) \<and>
   (entry_matches exe action e \<longleftrightarrow>
      action = Some e \<or> (\<exists>path. exe = Some path \<and> (if 47 \<in> set e then e = path else process_basename path = Some e)))"
  by (simp add: decide_cases list_matches_iff entry_matches_iff)

theorem policy_decide_deny_wins_witness:
  "decide \<lparr>p_allow = [lit ''pacman''], p_deny = [lit ''/usr/bin/pacman'']\<rparr> (Some (lit ''/usr/bin/pacman'')) None = PDeny"
proof -
  have "entry_matches (Some (lit ''/usr/bin/pacman'')) None (lit ''/usr/bin/pacman'')" by (simp add: entry_matches_def str_eval)
  then show ?thesis
    using policy_decide_deny_wins [of "\<lparr>p_allow = [lit ''pacman''], p_deny = [lit ''/usr/bin/pacman'']\<rparr>"
        "Some (lit ''/usr/bin/pacman'')" None]
    by (simp del: lit_simps)
qed

text \<open>The effective configuration of a service: each of the five fields a service section may
  override is the section's value when present and the general one otherwise; the remember
  window without an override is the general one for polkit only and zero for every other
  service; all other fields are the document's, whatever the section says.\<close>

theorem for_service_fields:
  "enabled (for_service d s) = unwrap_or (Option.bind (d_services d s) o_enabled) (g_enabled (d_general d)) \<and>
   timeout (for_service d s) = unwrap_or (Option.bind (d_services d s) o_timeout) (g_timeout (d_general d)) \<and>
   randomize_buttons (for_service d s) =
     unwrap_or (Option.bind (d_services d s) o_randomize) (g_randomize_buttons (d_general d)) \<and>
   remember_seconds (for_service d s) =
     unwrap_or (Option.bind (d_services d s) o_remember_seconds)
       (if s = POLKIT_PAM_SERVICE then g_remember_seconds (d_general d) else 0) \<and>
   remember_scope (for_service d s) =
     unwrap_or (Option.bind (d_services d s) o_remember_scope) (g_remember_scope (d_general d)) \<and>
   policy (for_service d s) = d_policy d \<and> headless_action (for_service d s) = g_headless_action (d_general d) \<and>
   log_attempts (for_service d s) = g_log_attempts (d_general d) \<and>
   min_display_time_ms (for_service d s) = g_min_display_time_ms (d_general d)"
  by (cases "d_services d s") (simp_all add: for_service_def base_config_def apply_override_simps)

text \<open>The two ways a setting gets its default agree: a document without sections, and one in
  which every section is present but empty, are both the built-in default document.\<close>

theorem schema_defaults_agree:
  "document_of_toml (TTable []) = Some document_defaults \<and>
   document_of_toml (TTable (map (\<lambda>k. (lit k, TTable []))
     [''general'', ''appearance'', ''audio'', ''services'', ''policy'', ''notifications''])) = Some document_defaults"
  by (simp add: field_or_def section_of_toml_simps default_defs)

text \<open>
  \<open>toml::from_str::<Document>\<close> as the text parser followed by the schema; the text of a
  schema error is the parser library's and a parameter.
\<close>

definition schema_from_str :: "ustr \<Rightarrow> (ustr \<Rightarrow> ustr + toml) \<Rightarrow> ustr \<Rightarrow> ustr + document" where
  "schema_from_str schema_error parse text =
     (case parse text of
        Inl e \<Rightarrow> Inl e
      | Inr t \<Rightarrow> (case document_of_toml t of None \<Rightarrow> Inl schema_error | Some d \<Rightarrow> Inr d))"

lemma override_unknown_key:
  "(k, v) \<in> set tab \<Longrightarrow> k \<notin> set override_keys \<Longrightarrow> override_of_toml (TTable tab) = None"
  by (auto simp: list_all_iff)

lemma overrides_of_list_None:
  "(s, t) \<in> set svcs \<Longrightarrow> override_of_toml t = None \<Longrightarrow> overrides_of_list svcs = None"
proof (induction svcs)
  case (Cons x svcs)
  then show ?case
    by (cases x; cases "override_of_toml (snd x)"; cases "overrides_of_list svcs") auto
qed simp

lemma document_of_toml_services_None:
  "map_of tab (lit ''services'') = Some t \<Longrightarrow> services_of_toml t = None \<Longrightarrow> document_of_toml (TTable tab) = None"
  by (simp add: field_or_def bind_eq_None_conv del: lit_simps)

lemma load_from_parse_error:
  "read path = Inr text \<Longrightarrow> from_str text = Inl e \<Longrightarrow>
     fst (load_from from_str read path) = document_defaults \<and>
     (\<exists>m. (LWarn, m) \<in> set (snd (load_from from_str read path)))"
  by (simp add: load_from_def)

text \<open>Loading is all or nothing: one unknown key in one service section makes the schema
  refuse the document, and then every setting of the file, the policy lists included, is
  replaced by its default and a warning is logged.\<close>

theorem load_from_unknown_key:
  assumes "read path = Inr text" "parse text = Inr (TTable tab)"
    "map_of tab (lit ''services'') = Some (TTable svcs)" "(s, TTable ov) \<in> set svcs"
    "(k, v) \<in> set ov" "k \<notin> set override_keys"
  shows "fst (load_from (schema_from_str err parse) read path) = document_defaults \<and>
     policy (load_config (schema_from_str err parse) read path service) = policy_default \<and>
     (\<exists>m. (LWarn, m) \<in> set (snd (load_from (schema_from_str err parse) read path)))"
proof -
  have "services_of_toml (TTable svcs) = None"
    using overrides_of_list_None [OF assms(4) override_unknown_key [OF assms(5,6)]] by simp
  with assms(2,3) have "schema_from_str err parse text = Inl err"
    using document_of_toml_services_None [of tab "TTable svcs"] by (simp add: schema_from_str_def del: lit_simps)
  from load_from_parse_error [where read = read and path = path and from_str = "schema_from_str err parse", OF assms(1) this] show ?thesis
    by (simp add: load_config_def for_service_def base_config_def document_defaults_def)
qed

theorem load_from_unknown_key_witness:
  "policy (load_config (schema_from_str [] (\<lambda>_. Inr (TTable
      [(lit ''policy'', TTable [(lit ''deny'', TArray [TString (lit ''bash'')])]),
       (lit ''services'', TTable [(lit ''sudo'', TTable [(lit ''timeot'', TInteger 5)])])])))
      (\<lambda>_. Inr []) (lit ''/etc/security/sentinel.conf'') (lit ''sudo'')) = policy_default"
proof -
  let ?ov = "[(lit ''timeot'', TInteger 5)]" and ?svcs = "[(lit ''sudo'', TTable [(lit ''timeot'', TInteger 5)])]"
  let ?tab = "[(lit ''policy'', TTable [(lit ''deny'', TArray [TString (lit ''bash'')])]), (lit ''services'', TTable ?svcs)]"
  have k: "lit ''timeot'' \<notin> set override_keys" by (simp add: override_keys_def)
  have m: "map_of ?tab (lit ''services'') = Some (TTable ?svcs)" by simp
  show ?thesis
    using load_from_unknown_key [of "\<lambda>_. Inr []" "lit ''/etc/security/sentinel.conf''" "[]" "\<lambda>_. Inr (TTable ?tab)",
        OF refl refl m, of "lit ''sudo''" ?ov "lit ''timeot''" "TInteger 5" "[]" "lit ''sudo''"] k
    by (simp del: lit_simps)
qed

end
