(* ===== verification/Wire_Verdict.thy ===== *)
theory Wire_Verdict
  imports Rust_Str
begin

text \<open>
  The verdict line the dialog helper writes and both back ends parse
  (\<open>sentinel-shared/src/lib.rs\<close>, \<open>Outcome\<close> and \<open>Verdict\<close>). The line is the outcome
  token, followed by \<open>REMEMBER\<close> when the user opted in. Parsing is total over all
  strings: an error is \<open>None\<close>. The lemmas give the round trip of the canonical form,
  stability of printing under reparsing, and exactly which lines are read as an Allow.
\<close>

datatype outcome = Allow | Deny | Timeout

fun outcome_display :: "outcome \<Rightarrow> ustr" where
  "outcome_display Allow = lit ''ALLOW''"
| "outcome_display Deny = lit ''DENY''"
| "outcome_display Timeout = lit ''TIMEOUT''"

definition outcome_from_str :: "ustr \<Rightarrow> outcome option" where
  "outcome_from_str s =
     (let t = trim s
      in if t = lit ''ALLOW'' then Some Allow
         else if t = lit ''DENY'' then Some Deny
         else if t = lit ''TIMEOUT'' then Some Timeout
         else None)"

fun exit_code :: "outcome \<Rightarrow> int" where
  "exit_code Allow = 0"
| "exit_code Deny = 1"
| "exit_code Timeout = 1"

definition is_allow :: "outcome \<Rightarrow> bool" where
  "is_allow v \<longleftrightarrow> v = Allow"

record verdict =
  v_outcome :: outcome
  v_remember :: bool

definition REMEMBER_TOKEN :: ustr where
  "REMEMBER_TOKEN = lit ''REMEMBER''"

definition verdict_display :: "verdict \<Rightarrow> ustr" where
  "verdict_display v =
     outcome_display (v_outcome v) @
     (if v_remember v \<and> is_allow (v_outcome v) then 32 # REMEMBER_TOKEN else [])"

definition verdict_from_str :: "ustr \<Rightarrow> verdict option" where
  "verdict_from_str s =
     (let tokens = split_whitespace s;
          first = (case tokens of [] \<Rightarrow> [] | t # _ \<Rightarrow> t);
          rest = (case tokens of [] \<Rightarrow> [] | _ # ts \<Rightarrow> ts)
      in case outcome_from_str first of
           None \<Rightarrow> None
         | Some oc \<Rightarrow>
             Some \<lparr>v_outcome = oc, v_remember = (\<exists>t\<in>set rest. t = REMEMBER_TOKEN)\<rparr>)"

lemmas verdict_defs = verdict_display_def verdict_from_str_def REMEMBER_TOKEN_def is_allow_def

lemma outcome_display_token [simp]: "is_token (outcome_display v)"
  by (cases v) auto

lemma REMEMBER_TOKEN_token [simp]: "is_token REMEMBER_TOKEN"
  by (simp add: REMEMBER_TOKEN_def)

lemma outcome_from_display [simp]: "outcome_from_str (outcome_display v) = Some v"
proof -
  have "trim (outcome_display v) = outcome_display v" by simp
  then show ?thesis by (cases v) (simp_all add: outcome_from_str_def)
qed

lemma outcome_display_inj [simp]: "outcome_display a = outcome_display b \<longleftrightarrow> a = b"
  by (metis option.inject outcome_from_display)

lemma outcome_from_str_Some_iff: "outcome_from_str s = Some v \<longleftrightarrow> trim s = outcome_display v"
  by (cases v) (auto simp: outcome_from_str_def Let_def)

text \<open>Which lines parse, and to what.\<close>

lemma verdict_from_str_Some_iff:
  "verdict_from_str s = Some v \<longleftrightarrow>
     (\<exists>ts. split_whitespace s = outcome_display (v_outcome v) # ts \<and>
           v_remember v = (REMEMBER_TOKEN \<in> set ts))"
proof (cases "split_whitespace s")
  case Nil
  have "outcome_from_str [] = None" by (simp add: outcome_from_str_def)
  with Nil show ?thesis by (simp add: verdict_from_str_def)
next
  case (Cons t ts)
  then have "is_token t" using split_whitespace_tokens [of t s] by simp
  then have "trim t = t" by simp
  then show ?thesis using Cons
    by (cases v)
      (auto simp: verdict_from_str_def outcome_from_str_Some_iff split: option.splits
        dest: sym [of _ "outcome_display _"])
qed

lemma split_verdict_display:
  "split_whitespace (verdict_display v) =
     outcome_display (v_outcome v) #
       (if v_remember v \<and> is_allow (v_outcome v) then [REMEMBER_TOKEN] else [])"
  by (simp add: verdict_display_def split_whitespace_append_ws)

text \<open>The normal form of a verdict: the opt-in only counts with an Allow.\<close>

definition verdict_norm :: "verdict \<Rightarrow> verdict" where
  "verdict_norm v = v\<lparr>v_remember := v_remember v \<and> is_allow (v_outcome v)\<rparr>"

lemma verdict_from_display: "verdict_from_str (verdict_display v) = Some (verdict_norm v)"
  by (cases v) (simp add: verdict_from_str_Some_iff split_verdict_display verdict_norm_def)

lemma verdict_display_norm [simp]: "verdict_display (verdict_norm v) = verdict_display v"
  by (cases v) (simp add: verdict_display_def verdict_norm_def)

text \<open>Parsing is stable: reprinting a parsed verdict gives a line that parses to its normal form.\<close>

lemma verdict_norm_Allow [simp]: "v_outcome v = Allow \<Longrightarrow> verdict_norm v = v"
  by (cases v) (simp add: verdict_norm_def is_allow_def)

lemma verdict_norm_outcome [simp]: "v_outcome (verdict_norm v) = v_outcome v"
  by (simp add: verdict_norm_def)

subsection \<open>Properties\<close>



text \<open>Exactly which lines are an Allow, and with the opt-in: those whose first word is
  ALLOW, the opt-in when REMEMBER is among the other words. Every other line, of any
  characters, is not an Allow.\<close>

theorem verdict_allow_lines:
  "verdict_from_str s = Some \<lparr>v_outcome = Allow, v_remember = r\<rparr> \<longleftrightarrow>
     (\<exists>ts. split_whitespace s = lit ''ALLOW'' # ts \<and> r = (lit ''REMEMBER'' \<in> set ts))"
  unfolding verdict_from_str_Some_iff by (simp add: REMEMBER_TOKEN_def del: lit_simps)

end
