(* ===== verification/Pam_Helper.thy ===== *)
theory Pam_Helper
  imports Pam_Process Config Wire_Verdict
begin

text \<open>
  Running the dialog from the PAM module (\<open>pam-sentinel/src/helper.rs\<close>). The child's
  path to \<open>execv\<close> is the list of system calls it makes, in order, each with the answer the
  kernel gives; the parent's path is a function of what \<open>poll\<close>, \<open>read\<close> and the earlier
  calls return. \<open>i32\<close> arithmetic is on words, as in the release build (no overflow
  checks); \<open>nix\<close>'s \<open>PollTimeout\<close> is a parameter. The path of the helper binary is fixed
  when the module is built and is a parameter here.
\<close>

definition HELPER_GRACE_SECS :: u32 where
  "HELPER_GRACE_SECS = 5"

record helper_request =
  hr_cfg :: service_config
  hr_user :: ustr
  hr_service :: ustr
  hr_process :: process_info
  hr_formatted_title :: ustr
  hr_formatted_message :: ustr
  hr_formatted_secondary :: ustr
  hr_sound_name :: ustr
  hr_target_uid :: u32
  hr_requesting_pid :: pid
  hr_remember_secs :: u32

subsection \<open>The child\<close>

record passwd =
  pw_name :: ustr
  pw_uid :: u32
  pw_gid :: u32
  pw_dir :: ustr

text \<open>\<open>CString::new\<close> refuses a string with a NUL; \<open>push\<close> then drops the argument.\<close>

definition push_arg :: "ustr list \<Rightarrow> ustr \<Rightarrow> ustr list" where
  "push_arg argv s = (if 0 \<in> set s then argv else argv @ [s])"

definition helper_argv :: "ustr \<Rightarrow> helper_request \<Rightarrow> ustr list" where
  "helper_argv helper_path req =
     (let p = hr_process req; cfg = hr_cfg req
      in foldl push_arg []
           ([helper_path,
             lit ''--title'', hr_formatted_title req,
             lit ''--message'', hr_formatted_message req,
             lit ''--secondary'', hr_formatted_secondary req,
             lit ''--timeout'', show_u32 (timeout cfg),
             lit ''--min-time'', show_u32 (min_display_time_ms cfg),
             lit ''--remember-secs'', show_u32 (hr_remember_secs req)] @
            (if hr_sound_name req \<noteq> [] then [lit ''--sound-name'', hr_sound_name req] else []) @
            (if randomize_buttons cfg then [lit ''--randomize''] else []) @
            (if show_process_info cfg then
               [lit ''--process-exe'', pi_exe p] @
               (if pi_cmdline p \<noteq> [] then [lit ''--process-cmdline'', pi_cmdline p] else []) @
               [lit ''--process-pid'', show_int (hr_requesting_pid req)] @
               (if pi_cwd p \<noteq> [] then [lit ''--process-cwd'', pi_cwd p] else []) @
               [lit ''--requesting-user'', hr_user req, lit ''--action'', hr_service req]
             else [])))"

text \<open>The kernel's answers to the child, and what the child does.\<close>

record child_kernel =
  ck_from_uid :: "u32 \<Rightarrow> passwd option"
  ck_initgroups :: "ustr \<Rightarrow> u32 \<Rightarrow> bool"
  ck_setgid :: "u32 \<Rightarrow> bool"
  ck_setuid :: "u32 \<Rightarrow> bool"
  ck_dup2_stdout :: bool
  ck_execv :: "ustr \<Rightarrow> ustr list \<Rightarrow> bool"

datatype child_action =
  AInitGroups ustr u32 | ASetGid u32 | ASetUid u32 | ASetVar ustr ustr | ADup2Stdout
| AExec ustr "ustr list" | AWrite ustr | AExit int

definition cstring_or_empty :: "ustr \<Rightarrow> ustr" where
  "cstring_or_empty s = (if 0 \<in> set s then [] else s)"

text \<open>The locale variables are set in some order of the \<open>HashMap\<close>; it does not matter.\<close>

definition locale_actions :: "fs \<Rightarrow> pid \<Rightarrow> child_action list" where
  "locale_actions w p =
     List.map_filter (\<lambda>var. map_option (ASetVar var) (read_locale_env w p var)) FORWARDED_VARS"

definition child_exec ::
  "ustr \<Rightarrow> child_kernel \<Rightarrow> fs \<Rightarrow> helper_request \<Rightarrow> child_action list" where
  "child_exec helper_path k w req =
     (case ck_from_uid k (hr_target_uid req) of
        None \<Rightarrow> [AExit 1]
      | Some u \<Rightarrow>
          (let a1 = [AInitGroups (cstring_or_empty (pw_name u)) (pw_gid u)]
           in if \<not> ck_initgroups k (cstring_or_empty (pw_name u)) (pw_gid u) then a1 @ [AExit 1]
              else
                (let a2 = a1 @ [ASetGid (pw_gid u)]
                 in if \<not> ck_setgid k (pw_gid u) then a2 @ [AExit 1]
                    else
                      (let a3 = a2 @ [ASetUid (pw_uid u)]
                       in if \<not> ck_setuid k (pw_uid u) then a3 @ [AExit 1]
                          else
                            (let a4 = a3 @
                               [ASetVar (lit ''HOME'') (pw_dir u), ASetVar (lit ''USER'') (pw_name u),
                                ASetVar (lit ''LOGNAME'') (pw_name u)] @
                               locale_actions w (hr_requesting_pid req) @ [ADup2Stdout]
                             in if \<not> ck_dup2_stdout k then a4 @ [AExit 1]
                                else if 0 \<in> set helper_path then a4 @ [AExit 1]
                                else
                                  (let argv = helper_argv helper_path req;
                                       a5 = a4 @ [AExec helper_path argv]
                                   in if ck_execv k helper_path argv then a5
                                      else a5 @ [AWrite (lit ''DENY'' @ [10]), AExit 1]))))))"

subsection \<open>The parent\<close>

text \<open>\<open>i32::try_from\<close> of a \<open>u32\<close>.\<close>

definition i32_try_from :: "u32 \<Rightarrow> 32 word option" where
  "i32_try_from w = (if unat w < 2 ^ 31 then Some w else None)"

text \<open>The milliseconds before the conversion: \<open>i32\<close> addition and multiplication wrap.\<close>

definition timeout_ms :: "u32 \<Rightarrow> 32 word" where
  "timeout_ms timeout_secs =
     (unwrap_or (i32_try_from timeout_secs) 30 + unwrap_or (i32_try_from HELPER_GRACE_SECS) 5) * 1000"

record 'p poll_timeout =
  pt_NONE :: 'p
  pt_MAX :: 'p
  pt_try_from :: "int \<Rightarrow> 'p option"

definition parent_poll_timeout :: "'p poll_timeout \<Rightarrow> u32 \<Rightarrow> 'p" where
  "parent_poll_timeout pt timeout_secs =
     (if timeout_secs = 0 then pt_NONE pt
      else unwrap_or (pt_try_from pt (sint (timeout_ms timeout_secs))) (pt_MAX pt))"

datatype read_result = ReadOk "byte list" | ReadEintr | ReadErr ustr

text \<open>Killing and reaping the child are recorded; the kernel's answer to them is ignored.\<close>

datatype parent_action = Kill | Wait

record 'p parent_kernel =
  pk_poll :: "'p \<Rightarrow> ustr + int"
  pk_read :: "nat \<Rightarrow> read_result"

text \<open>\<open>split(['\n', '\r']).next()\<close>: the text before the first line break.\<close>

definition first_line :: "ustr \<Rightarrow> ustr" where
  "first_line s = hd (split_on (\<lambda>c. c = 10 \<or> c = 13) s)"

definition verdict_of_bytes :: "byte list \<Rightarrow> verdict" where
  "verdict_of_bytes bytes =
     unwrap_or (verdict_from_str (first_line (unwrap_or (from_utf8 bytes) [])))
       \<lparr>v_outcome = Deny, v_remember = False\<rparr>"

definition parent_wait ::
  "'p poll_timeout \<Rightarrow> 'p parent_kernel \<Rightarrow> helper_request \<Rightarrow> (ustr + verdict) \<times> parent_action list" where
  "parent_wait pt k req =
     (case pk_poll k (parent_poll_timeout pt (timeout (hr_cfg req))) of
        Inl e \<Rightarrow> (Inl (lit ''poll: '' @ e), [Kill, Wait])
      | Inr n \<Rightarrow>
          if n = 0 then (Inl (lit ''helper timeout''), [Kill, Wait])
          else
            (case pk_read k 16 of
               ReadErr e \<Rightarrow> (Inl (lit ''read: '' @ e), [Wait])
             | ReadEintr \<Rightarrow> (Inl (lit ''helper produced no output''), [Wait])
             | ReadOk bytes \<Rightarrow>
                 if bytes = [] then (Inl (lit ''helper produced no output''), [Wait])
                 else (Inr (verdict_of_bytes bytes), [Wait])))"

text \<open>\<open>run\<close> in the parent: \<open>pipe\<close> and \<open>fork\<close> fail with a message or let it go on.\<close>

definition run_helper ::
  "ustr option \<Rightarrow> ustr option \<Rightarrow> 'p poll_timeout \<Rightarrow> 'p parent_kernel \<Rightarrow> helper_request \<Rightarrow> ustr + verdict"
  where
  "run_helper pipe_error fork_error pt k req =
     (case pipe_error of
        Some e \<Rightarrow> Inl (lit ''pipe: '' @ e)
      | None \<Rightarrow>
          (case fork_error of
             Some e \<Rightarrow> Inl (lit ''fork: '' @ e)
           | None \<Rightarrow> fst (parent_wait pt k req)))"

subsection \<open>Lemmas\<close>

lemma foldl_push_arg:
  "foldl push_arg acc xs = acc @ filter (\<lambda>s. 0 \<notin> set s) xs"
  by (induction xs arbitrary: acc) (auto simp: push_arg_def)

lemma timeout_ms_small:
  assumes "unat t < 2147479"
  shows "sint (timeout_ms t) = (int (unat t) + 5) * 1000"
proof -
  have g: "unwrap_or (i32_try_from HELPER_GRACE_SECS) 5 = 5"
    by (simp add: i32_try_from_def HELPER_GRACE_SECS_def)
  have "i32_try_from t = Some t" using assms by (simp add: i32_try_from_def)
  then have m: "timeout_ms t = (t + 5) * 1000" by (simp add: timeout_ms_def g)
  have w: "(t + 5) * 1000 = (word_of_int ((int (unat t) + 5) * 1000) :: 32 word)" by simp
  have "sint (timeout_ms t) = signed_take_bit 31 ((int (unat t) + 5) * 1000)"
    unfolding m w by (subst signed_of_int) simp
  also have "\<dots> = (int (unat t) + 5) * 1000"
  proof (rule signed_take_bit_int_eq_self)
    have bound: "- (2 ^ 31) \<le> (n + 5) * 1000 \<and> (n + 5) * 1000 < 2 ^ 31"
      if "0 \<le> n" "n < 2147479" for n :: int
      using that by simp
    have "0 \<le> int (unat t)" "int (unat t) < 2147479" using assms by linarith+
    from bound [OF this]
    show "- (2 ^ 31) \<le> (int (unat t) + 5) * 1000" "(int (unat t) + 5) * 1000 < 2 ^ 31"
      by blast+
  qed
  finally show ?thesis .
qed

lemma timeout_ms_huge:
  assumes "2 ^ 31 \<le> unat t"
  shows "timeout_ms t = 35000"
proof -
  have "i32_try_from t = None" using assms by (simp add: i32_try_from_def)
  then show ?thesis by (simp add: timeout_ms_def i32_try_from_def HELPER_GRACE_SECS_def)
qed

lemma first_line_takeWhile: "first_line s = takeWhile (\<lambda>c. \<not> (c = 10 \<or> c = 13)) s"
  by (simp add: first_line_def hd_split_on)

text \<open>A verdict line of the helper comes back as the verdict it prints.\<close>

lemma verdict_of_bytes_display:
  "verdict_of_bytes (as_bytes (verdict_display v @ [10])) = verdict_norm v"
proof -
  have sc: "\<forall>c\<in>set (verdict_display v @ [10]). is_scalar c"
    by (cases "v_outcome v") (auto simp: verdict_display_def REMEMBER_TOKEN_def is_scalar_def)
  have "\<forall>c\<in>set (verdict_display v). \<not> (c = 10 \<or> c = 13)"
    by (cases "v_outcome v") (auto simp: verdict_display_def REMEMBER_TOKEN_def)
  then have "first_line (verdict_display v @ [10]) = verdict_display v"
    by (simp add: first_line_takeWhile takeWhile_append2)
  then show ?thesis
    by (simp add: verdict_of_bytes_def from_utf8_as_bytes [OF sc] verdict_from_display)
qed

text \<open>Only bytes whose first line starts with the word ALLOW are an Allow.\<close>

lemma verdict_of_bytes_Allow:
  assumes "is_allow (v_outcome (verdict_of_bytes bytes))"
  shows "\<exists>s ts. from_utf8 bytes = Some s \<and> split_whitespace (first_line s) = lit ''ALLOW'' # ts"
proof -
  let ?l = "first_line (unwrap_or (from_utf8 bytes) [])"
  from assms obtain v where v: "verdict_from_str ?l = Some v" "v_outcome v = Allow"
    by (cases "verdict_from_str ?l") (auto simp: verdict_of_bytes_def is_allow_def)
  then obtain ts where ts: "split_whitespace ?l = lit ''ALLOW'' # ts"
    by (auto simp: verdict_from_str_Some_iff)
  show ?thesis
  proof (cases "from_utf8 bytes")
    case None
    with ts show ?thesis by (simp add: first_line_takeWhile)
  next
    case (Some s)
    with ts show ?thesis by auto
  qed
qed

lemma parent_wait_reaps:
  "Wait \<in> set (snd (parent_wait pt k req))"
  by (auto simp: parent_wait_def split: sum.splits read_result.splits)

lemma locale_actions_vars:
  "AExec a b \<notin> set (locale_actions w p)" "ASetUid u \<notin> set (locale_actions w p)"
  "ASetVar k v \<in> set (locale_actions w p) \<Longrightarrow> k \<in> set FORWARDED_VARS \<and> is_safe_locale_value v"
  by (auto simp: locale_actions_def List.map_filter_def read_locale_env_def
      dest: read_locale_vars_Some)

lemma locale_actions_setvar:
  "a \<in> set (locale_actions w p) \<Longrightarrow> \<exists>n v. a = ASetVar n v"
  by (auto simp: locale_actions_def List.map_filter_def)

subsection \<open>Properties\<close>


definition example_passwd :: passwd where
  "example_passwd = \<lparr>pw_name = lit ''ada'', pw_uid = 1000, pw_gid = 1000, pw_dir = lit ''/home/ada''\<rparr>"

definition example_child :: child_kernel where
  "example_child =
     \<lparr>ck_from_uid = (\<lambda>_. Some example_passwd), ck_initgroups = (\<lambda>_ _. True), ck_setgid = (\<lambda>_. True),
      ck_setuid = (\<lambda>_. True), ck_dup2_stdout = True, ck_execv = (\<lambda>_ _. True)\<rparr>"

definition example_process :: process_info where
  "example_process =
     \<lparr>pi_name = lit ''pacman'', pi_exe = lit ''pacman'', pi_cmdline = lit ''pacman -Syu'', pi_cwd = [],
      pi_remember_command = Some (lit ''pacman -Syu''), pi_policy_exe = Some (lit ''pacman'')\<rparr>"

definition example_request :: helper_request where
  "example_request =
     \<lparr>hr_cfg = for_service document_defaults (lit ''sudo''), hr_user = lit ''ada'', hr_service = lit ''sudo'',
      hr_process = example_process, hr_formatted_title = lit ''T'', hr_formatted_message = lit ''M'',
      hr_formatted_secondary = [], hr_sound_name = [], hr_target_uid = 1000, hr_requesting_pid = 42,
      hr_remember_secs = 0\<rparr>"


text \<open>The parent trusts only a complete, timely answer: it reports an Allow exactly when the poll
  returned an event in time and the read gave bytes whose text has ALLOW as the first word of
  its first line. A timeout, an error, no output, bytes that are not UTF-8 or any other line
  is never an Allow, and the child is always reaped.\<close>

theorem parent_wait_allow_iff:
  "(\<exists>r. fst (parent_wait pt k req) = Inr \<lparr>v_outcome = Allow, v_remember = r\<rparr>) \<longleftrightarrow>
     (\<exists>n bytes s ts. pk_poll k (parent_poll_timeout pt (timeout (hr_cfg req))) = Inr n \<and> n \<noteq> 0 \<and>
        pk_read k 16 = ReadOk bytes \<and> from_utf8 bytes = Some s \<and>
        split_whitespace (first_line s) = lit ''ALLOW'' # ts)"
  (is "?l \<longleftrightarrow> ?r")
proof
  assume ?l
  then obtain n bytes where "pk_poll k (parent_poll_timeout pt (timeout (hr_cfg req))) = Inr n" "n \<noteq> 0"
    "pk_read k 16 = ReadOk bytes" "is_allow (v_outcome (verdict_of_bytes bytes))"
    by (auto simp: parent_wait_def is_allow_def split: sum.splits if_splits read_result.splits)
  then show ?r using verdict_of_bytes_Allow by blast
next
  assume ?r
  then obtain n bytes s ts where b: "pk_poll k (parent_poll_timeout pt (timeout (hr_cfg req))) = Inr n" "n \<noteq> 0"
    "pk_read k 16 = ReadOk bytes" "from_utf8 bytes = Some s" "split_whitespace (first_line s) = lit ''ALLOW'' # ts"
    by blast
  have "bytes \<noteq> []" using b(4,5) by (auto simp: first_line_takeWhile)
  moreover have "verdict_of_bytes bytes = \<lparr>v_outcome = Allow, v_remember = (REMEMBER_TOKEN \<in> set ts)\<rparr>"
  proof -
    have "verdict_from_str (first_line s) = Some \<lparr>v_outcome = Allow, v_remember = (REMEMBER_TOKEN \<in> set ts)\<rparr>"
      using b(5) by (simp add: verdict_from_str_Some_iff)
    then show ?thesis by (simp add: verdict_of_bytes_def b(4))
  qed
  ultimately show ?l using b by (simp add: parent_wait_def)
qed


definition example_poll_timeout :: "int poll_timeout" where
  "example_poll_timeout = \<lparr>pt_NONE = -1, pt_MAX = 2147483647, pt_try_from = (\<lambda>ms. if -1 \<le> ms then Some ms else None)\<rparr>"


text \<open>Between the two bounds the sum wraps: a timeout of some fifty days waits less than a second.\<close>

theorem parent_poll_timeout_wraps:
  "parent_poll_timeout example_poll_timeout 4294963 = 704"
  by (simp add: parent_poll_timeout_def timeout_ms_def i32_try_from_def HELPER_GRACE_SECS_def example_poll_timeout_def)

text \<open>A reply cut at sixteen bytes can still be an Allow with the opt-in.\<close>

theorem truncated_reply_is_allow:
  "verdict_of_bytes (take 16 (as_bytes (lit ''ALLOW REMEMBER and more''))) = \<lparr>v_outcome = Allow, v_remember = True\<rparr>"
  by (simp add: verdict_of_bytes_def as_bytes_def encode_utf8_def encode_char_def from_utf8_def utf8_step_def
      first_line_def verdict_from_str_def outcome_from_str_def REMEMBER_TOKEN_def str_eval)

end
