(* ===== verification/Broker_Proto.thy ===== *)
theory Broker_Proto
  imports Rust_Str
begin

unbundle bit_operations_syntax

text \<open>
  The wire contract between the PAM shim and the remember broker
  (\<open>sentinel-broker-proto/src/lib.rs\<close>): keys and the bindability boundary, requests and
  responses, and length-prefixed frames. The postcard codec is a parameter: \<open>to_allocvec\<close>
  and \<open>from_bytes\<close> are arguments of the framing functions, and so are the stream
  operations \<open>read_exact\<close>, \<open>write_all\<close> and \<open>flush\<close> of the reader or writer the frame
  travels over. The two streams of the standard library the tests use, a growing vector
  and a cursor, are defined here. A stream that keeps its bytes is a locale, which the
  streams of the development interpret. The lemmas give the round trip of a frame over any
  stream that keeps the bytes, the bound on what is allocated, and every error branch.
\<close>

subsection \<open>Keys\<close>

definition PROTOCOL_VERSION :: u16 where
  "PROTOCOL_VERSION = 1"

definition MAX_FRAME_LEN :: nat where
  "MAX_FRAME_LEN = 64 * 1024"

record remember_key =
  loginuid :: u32
  sessionid :: u32
  service :: ustr
  command :: ustr

definition is_bindable :: "remember_key \<Rightarrow> bool" where
  "is_bindable k \<longleftrightarrow> loginuid k \<noteq> u32_max \<and> sessionid k \<noteq> u32_max \<and> command k \<noteq> []"

datatype bound_key = BoundKey (bk_key: remember_key)

definition bind_key :: "remember_key \<Rightarrow> bound_key option" where
  "bind_key k = (if is_bindable k then Some (BoundKey k) else None)"

record remember_query =
  q_key :: remember_key
  q_ttl_secs :: u32

subsection \<open>Messages\<close>

datatype request = CheckRemember remember_query | RecordRemember remember_key | Ping

datatype response = Remember bool | Recorded | Pong u16 | Error ustr

text \<open>The errors of postcard and of the operating system are carried as their text.\<close>

datatype proto_error = TooLarge nat | EncodeError ustr | DecodeError ustr | IoError ustr

type_synonym 'a encoder = "'a \<Rightarrow> ustr + byte list"
type_synonym 'a decoder = "byte list \<Rightarrow> ustr + 'a"

definition encode :: "'a encoder \<Rightarrow> 'a \<Rightarrow> proto_error + byte list" where
  "encode to_allocvec msg = map_sum EncodeError id (to_allocvec msg)"

definition decode :: "'a decoder \<Rightarrow> byte list \<Rightarrow> proto_error + 'a" where
  "decode from_bytes bytes = map_sum DecodeError id (from_bytes bytes)"

subsection \<open>Frames\<close>

definition to_le_bytes :: "u32 \<Rightarrow> byte list" where
  "to_le_bytes w = [ucast w, ucast (drop_bit 8 w), ucast (drop_bit 16 w), ucast (drop_bit 24 w)]"

fun from_le_bytes :: "byte list \<Rightarrow> u32" where
  "from_le_bytes [a, b, c, d] =
     ucast a OR push_bit 8 (ucast b) OR push_bit 16 (ucast c) OR push_bit 24 (ucast d)"
| "from_le_bytes _ = 0"

text \<open>The operations of a stream; each returns the stream it leaves behind.\<close>

record 's stream_ops =
  so_read_exact :: "'s \<Rightarrow> nat \<Rightarrow> ustr + byte list \<times> 's"
  so_write_all :: "'s \<Rightarrow> byte list \<Rightarrow> ustr + 's"
  so_flush :: "'s \<Rightarrow> ustr + 's"

definition write_frame ::
  "'s stream_ops \<Rightarrow> 'a encoder \<Rightarrow> 's \<Rightarrow> 'a \<Rightarrow> proto_error + 's" where
  "write_frame ops to_allocvec w msg =
     (case encode to_allocvec msg of
        Inl e \<Rightarrow> Inl e
      | Inr body \<Rightarrow>
          if length body > MAX_FRAME_LEN then Inl (TooLarge (length body))
          else
            (case so_write_all ops w (to_le_bytes (of_nat (length body))) of
               Inl e \<Rightarrow> Inl (IoError e)
             | Inr w1 \<Rightarrow>
                 (case so_write_all ops w1 body of
                    Inl e \<Rightarrow> Inl (IoError e)
                  | Inr w2 \<Rightarrow>
                      (case so_flush ops w2 of
                         Inl e \<Rightarrow> Inl (IoError e)
                       | Inr w3 \<Rightarrow> Inr w3))))"

definition read_frame ::
  "'s stream_ops \<Rightarrow> 'a decoder \<Rightarrow> 's \<Rightarrow> proto_error + 'a \<times> 's" where
  "read_frame ops from_bytes r =
     (case so_read_exact ops r 4 of
        Inl e \<Rightarrow> Inl (IoError e)
      | Inr (len_buf, r1) \<Rightarrow>
          (let len = unat (from_le_bytes len_buf)
           in if len > MAX_FRAME_LEN then Inl (TooLarge len)
              else
                (case so_read_exact ops r1 len of
                   Inl e \<Rightarrow> Inl (IoError e)
                 | Inr (body, r2) \<Rightarrow> map_sum id (\<lambda>m. (m, r2)) (decode from_bytes body))))"

text \<open>
  A byte stream of the standard library: reading takes bytes off the front or fails
  without enough of them, writing appends, flushing does nothing.
\<close>

definition buffer_ops :: "byte list stream_ops" where
  "buffer_ops =
     \<lparr>so_read_exact =
        (\<lambda>s n. if n \<le> length s then Inr (take n s, drop n s)
               else Inl (lit ''failed to fill whole buffer'')),
      so_write_all = (\<lambda>s bytes. Inr (s @ bytes)),
      so_flush = (\<lambda>s. Inr s)\<rparr>"

subsection \<open>Lemmas\<close>

lemma bind_key_Some_iff [simp]: "bind_key k = Some b \<longleftrightarrow> is_bindable k \<and> b = BoundKey k"
  by (auto simp: bind_key_def)

lemma bind_key_None_iff [simp]: "bind_key k = None \<longleftrightarrow> \<not> is_bindable k"
  by (simp add: bind_key_def)

lemma length_to_le_bytes [simp]: "length (to_le_bytes w) = 4"
  by (simp add: to_le_bytes_def)

lemma from_to_le_bytes [simp]: "from_le_bytes (to_le_bytes w) = w"
  unfolding to_le_bytes_def from_le_bytes.simps
proof (rule bit_word_eqI, goal_cases)
  case (1 n)
  then show ?case by (cases "n < 16"; cases "n < 24") (auto simp: bit_simps)
qed

lemma frame_length_roundtrip:
  assumes "length body \<le> MAX_FRAME_LEN"
  shows "unat (from_le_bytes (to_le_bytes (of_nat (length body)))) = length body"
  using assms by (simp add: MAX_FRAME_LEN_def u32_of_nat_unat)

text \<open>A frame of a body, as the bytes on the wire.\<close>

definition frame :: "byte list \<Rightarrow> byte list" where
  "frame body = to_le_bytes (of_nat (length body)) @ body"

lemma write_frame_buffer:
  "write_frame buffer_ops enc w msg =
     (case enc msg of
        Inl e \<Rightarrow> Inl (EncodeError e)
      | Inr body \<Rightarrow> if length body > MAX_FRAME_LEN then Inl (TooLarge (length body)) else Inr (w @ frame body))"
  by (simp add: write_frame_def encode_def buffer_ops_def frame_def split: sum.splits)

lemma read_frame_buffer:
  assumes "length body \<le> MAX_FRAME_LEN"
  shows "read_frame buffer_ops dec (frame body @ rest) =
     map_sum DecodeError (\<lambda>m. (m, rest)) (dec body)"
proof -
  have "take 4 (frame body @ rest) = to_le_bytes (of_nat (length body))"
    "drop 4 (frame body @ rest) = body @ rest"
    by (simp_all add: frame_def)
  moreover have "4 \<le> length (frame body @ rest)" by (simp add: frame_def)
  ultimately show ?thesis
    using assms frame_length_roundtrip [OF assms]
    by (simp add: read_frame_def buffer_ops_def decode_def Let_def sum.map_comp o_def id_def)
qed

text \<open>
  The contract of a stream that keeps its bytes, which the framing code relies on: reading takes
  bytes off what is pending or fails without enough of them, writing appends to what was sent,
  flushing does nothing. Over such a stream a frame is read and written as over a buffer.
\<close>

locale stream_reader =
  fixes ops :: "'s stream_ops"
    and pending :: "'s \<Rightarrow> byte list"
    and consume :: "byte list \<Rightarrow> 's \<Rightarrow> 's"
  assumes read_exact: "so_read_exact ops s n =
      (if n \<le> length (pending s) then Inr (take n (pending s), consume (drop n (pending s)) s)
       else Inl (lit ''failed to fill whole buffer''))"
    and pending_consume: "pending (consume r s) = r"
    and consume_consume: "consume r (consume r' s) = consume r s"
begin

lemma read_frame_stream:
  "read_frame ops dec s = map_sum id (\<lambda>(m, rest). (m, consume rest s)) (read_frame buffer_ops dec (pending s))"
  by (auto simp: read_frame_def read_exact pending_consume consume_consume buffer_ops_def decode_def Let_def
      sum.map_comp o_def split: sum.splits)

end

locale stream_writer =
  fixes ops :: "'s stream_ops"
    and sent :: "'s \<Rightarrow> byte list"
    and set_sent :: "byte list \<Rightarrow> 's \<Rightarrow> 's"
  assumes write_all: "so_write_all ops s bytes = Inr (set_sent (sent s @ bytes) s)"
    and flush: "so_flush ops s = Inr s"
    and sent_set_sent: "sent (set_sent b s) = b"
    and set_sent_set_sent: "set_sent b (set_sent b' s) = set_sent b s"
begin

lemma write_frame_stream:
  "write_frame ops enc s msg = map_sum id (\<lambda>b. set_sent b s) (write_frame buffer_ops enc (sent s) msg)"
  by (simp add: write_frame_def write_all flush sent_set_sent set_sent_set_sent buffer_ops_def split: sum.splits)

end

locale byte_stream = stream_reader + stream_writer
begin

text \<open>
  One exchange: a request that fits a frame is sent, and when the peer's bytes are a frame of a
  response that decodes, that response is read and what follows it stays pending.
\<close>

lemma exchange_frames:
  assumes "enc msg = Inr b" "length b \<le> MAX_FRAME_LEN"
    and "pending (set_sent (sent s @ frame b) s) = frame c @ rest" "length c \<le> MAX_FRAME_LEN" "dec c = Inr reply"
  shows "write_frame ops enc s msg = Inr (set_sent (sent s @ frame b) s)"
    and "read_frame ops dec (set_sent (sent s @ frame b) s) = Inr (reply, consume rest (set_sent (sent s @ frame b) s))"
  using assms(1,2) read_frame_buffer [OF assms(4), of dec rest] assms(5)
  by (simp_all add: write_frame_stream read_frame_stream write_frame_buffer assms(3))

end

interpretation buffer: byte_stream buffer_ops "\<lambda>s. s" "\<lambda>r s. r" "\<lambda>s. s" "\<lambda>b s. b"
  by unfold_locales (simp_all add: buffer_ops_def)

text \<open>What a codec has to do for a message: a body within the limit that decodes to it.\<close>

definition carries :: "'a encoder \<Rightarrow> 'a decoder \<Rightarrow> 'a \<Rightarrow> bool" where
  "carries enc dec m =
     (case enc m of Inr b \<Rightarrow> dec b = Inr m \<and> length b \<le> MAX_FRAME_LEN | Inl e \<Rightarrow> False)"

lemma carriesE:
  assumes "carries enc dec m"
  obtains b where "enc m = Inr b" "dec b = Inr m" "length b \<le> MAX_FRAME_LEN"
  using assms by (auto simp: carries_def split: sum.splits)

text \<open>
  What a reader asks its stream for: first four bytes, then at most \<open>MAX_FRAME_LEN\<close>. A
  reader that fails on every larger request behaves the same.
\<close>

definition capped :: "'s stream_ops \<Rightarrow> 's stream_ops" where
  "capped ops =
     ops\<lparr>so_read_exact :=
       (\<lambda>s n. if n > MAX_FRAME_LEN then Inl (lit ''out of memory'') else so_read_exact ops s n)\<rparr>"

lemma read_frame_capped: "read_frame (capped ops) dec s = read_frame ops dec s"
  by (simp add: read_frame_def capped_def MAX_FRAME_LEN_def Let_def
      split: sum.splits prod.splits)

lemma read_frame_short:
  "length s < 4 \<Longrightarrow> \<exists>e. read_frame buffer_ops dec s = Inl (IoError e)"
  by (simp add: read_frame_def buffer_ops_def)

subsection \<open>Properties\<close>

text \<open>Frames round trip: when the codec encodes a message to a body that decodes to it, and the
  body is within the limit, writing the message and reading it back gives the message and
  leaves exactly what followed it on the stream; a body over the limit is never written.\<close>

theorem frame_roundtrip:
  assumes "enc msg = Inr body" "dec body = Inr msg"
  shows "(case write_frame buffer_ops enc pre msg of
       Inr out \<Rightarrow> length body \<le> MAX_FRAME_LEN \<and>
         read_frame buffer_ops dec (drop (length pre) out @ rest) = Inr (msg, rest)
     | Inl e \<Rightarrow> e = TooLarge (length body) \<and> MAX_FRAME_LEN < length body)"
  using assms read_frame_buffer [of body dec rest] by (simp add: write_frame_buffer)

theorem frame_roundtrip_witness:
  "read_frame buffer_ops (\<lambda>b. if b = [2] then Inr Ping else Inl []) (frame [2] @ [9]) = Inr (Ping, [9])"
proof -
  let ?enc = "(\<lambda>_. Inr [2]) :: request encoder" and ?dec = "(\<lambda>b. if b = [2] then Inr Ping else Inl []) :: request decoder"
  show ?thesis
    using frame_roundtrip [of ?enc Ping "[2]" ?dec "[]" "[9]"]
    by (simp add: write_frame_buffer MAX_FRAME_LEN_def)
qed

text \<open>C32. A hostile length cannot make the reader allocate: over any stream, a reader that can never
  obtain more than \<open>MAX_FRAME_LEN\<close> bytes at once behaves exactly the same, and a length
  prefix above the limit is the error \<open>TooLarge\<close> whatever follows it.\<close>

theorem read_frame_bounded:
  assumes "MAX_FRAME_LEN < unat n"
  shows "read_frame buffer_ops dec (to_le_bytes n @ rest) = Inl (TooLarge (unat n)) \<and>
     read_frame (capped ops) dec s = read_frame ops dec s"
proof
  show "read_frame buffer_ops dec (to_le_bytes n @ rest) = Inl (TooLarge (unat n))"
    using assms by (simp add: read_frame_def buffer_ops_def Let_def)
qed (rule read_frame_capped)

theorem read_frame_bounded_witness:
  "read_frame buffer_ops (\<lambda>_. Inr Ping) (to_le_bytes 4294967295 @ [106, 117, 110, 107]) = Inl (TooLarge 4294967295)"
  using read_frame_bounded [of 4294967295 "\<lambda>_. Inr Ping" "[106, 117, 110, 107]" buffer_ops "[]"]
  by (simp add: MAX_FRAME_LEN_def)

end
