(* ===== verification/Grant_Store.thy ===== *)
theory Grant_Store
  imports Sentinel_Prelude
begin

text \<open>
  The contract of a remember store, shared by the broker's store and the agent's cache:
  a grant is recorded for a key at an instant, and a query asks whether the key has a
  grant younger than the requested time to live, capped. The locale states the laws of
  the three operations; its lemmas derive what a client may rely on after any sequence
  of grants. Both stores interpret it.
\<close>

subsection \<open>\<open>HashMap::retain\<close>\<close>

definition retain :: "('k \<Rightarrow> 'v \<Rightarrow> bool) \<Rightarrow> ('k \<rightharpoonup> 'v) \<Rightarrow> ('k \<rightharpoonup> 'v)" where
  "retain P m = (\<lambda>k. case m k of None \<Rightarrow> None | Some v \<Rightarrow> if P k v then Some v else None)"

lemma retain_Some_iff [simp]: "retain P m k = Some v \<longleftrightarrow> m k = Some v \<and> P k v"
  by (auto simp: retain_def split: option.splits)

lemma retain_None_iff: "retain P m k = None \<longleftrightarrow> (\<forall>v. m k = Some v \<longrightarrow> \<not> P k v)"
  by (auto simp: retain_def split: option.splits)

lemma dom_retain: "dom (retain P m) = {k. \<exists>v. m k = Some v \<and> P k v}"
  by (auto simp: dom_def)

lemma finite_dom_retain [simp]: "finite (dom m) \<Longrightarrow> finite (dom (retain P m))"
  by (rule finite_subset [of _ "dom m"]) (auto simp: dom_retain)

subsection \<open>Freshness\<close>

text \<open>The window of a query: the requested seconds, capped; zero disables.\<close>

definition window :: "duration \<Rightarrow> u32 \<Rightarrow> duration" where
  "window cap ttl_secs = (if ttl_secs = 0 then 0 else min (from_secs (unat ttl_secs)) cap)"

lemma window_0 [simp]: "window cap 0 = 0"
  by (simp add: window_def)

lemma window_le_cap: "window cap ttl \<le> cap"
  by (simp add: window_def)

lemma window_le_ttl: "window cap ttl \<le> from_secs (unat ttl)"
  by (simp add: window_def)

subsection \<open>The interface\<close>

locale grant_store =
  fixes empty :: 's
    and grant :: "'s \<Rightarrow> 'k \<Rightarrow> instant \<Rightarrow> 's"
    and fresh :: "'s \<Rightarrow> 'k \<Rightarrow> u32 \<Rightarrow> instant \<Rightarrow> bool"
    and valid :: "'k \<Rightarrow> bool"
    and cap :: duration
  assumes fresh_empty: "\<not> fresh empty k ttl now"
    and fresh_grant_same: "t \<le> now \<Longrightarrow> fresh (grant s k t) k ttl now \<longleftrightarrow> elapsed now t < window cap ttl"
    and fresh_grant_other:
      "\<lbrakk>valid k; valid k'; k \<noteq> k'; t \<le> now\<rbrakk> \<Longrightarrow> fresh (grant s k t) k' ttl now \<longleftrightarrow> fresh s k' ttl now"
begin

text \<open>A history is a sequence of grants, each an instant and a key, oldest first.\<close>

fun run :: "(instant \<times> 'k) list \<Rightarrow> 's \<Rightarrow> 's" where
  "run [] s = s"
| "run ((t, k) # h) s = run h (grant s k t)"

lemma run_append: "run (h @ h') s = run h' (run h s)"
  by (induction h arbitrary: s) auto

text \<open>
  The refinement: after any history, in the order of the clock, a key is fresh exactly
  when one of its own grants is younger than the window. What was pruned on the way can
  never be seen.
\<close>

lemma fresh_run:
  assumes "sorted (map fst h)" "\<forall>(t, k)\<in>set h. t \<le> now \<and> valid k" "valid k"
  shows "fresh (run h empty) k ttl now \<longleftrightarrow> (\<exists>t. (t, k) \<in> set h \<and> elapsed now t < window cap ttl)"
  using assms(1,2)
proof (induction h rule: rev_induct)
  case Nil
  then show ?case by (simp add: fresh_empty)
next
  case (snoc e h)
  obtain t' k' where e: "e = (t', k')" by force
  have t': "t' \<le> now" and k': "valid k'" using snoc.prems e by auto
  have older: "t \<le> t'" if "(t, k'') \<in> set h" for t k''
    using snoc.prems(1) e that by (force simp: sorted_append)
  have ih: "fresh (run h empty) k ttl now \<longleftrightarrow> (\<exists>t. (t, k) \<in> set h \<and> elapsed now t < window cap ttl)"
    using snoc by (auto simp: sorted_append)
  show ?case
  proof (cases "k' = k")
    case True
    have "elapsed now t' \<le> elapsed now t" if "(t, k) \<in> set h" for t
      using older [OF that] by (rule elapsed_antimono)
    with True t' show ?thesis
      by (auto simp: e run_append fresh_grant_same intro: le_less_trans)
  next
    case False
    with ih t' k' assms(3) show ?thesis
      by (auto simp: e run_append fresh_grant_other)
  qed
qed

lemma never_fresh_zero:
  assumes "sorted (map fst h)" "\<forall>(t, k)\<in>set h. t \<le> now \<and> valid k" "valid k"
  shows "\<not> fresh (run h empty) k 0 now"
  using fresh_run [OF assms] by simp

lemma stale_after_cap:
  assumes "sorted (map fst h)" "\<forall>(t, k)\<in>set h. t + cap \<le> now \<and> valid k" "valid k"
  shows "\<not> fresh (run h empty) k ttl now"
proof -
  have "\<not> elapsed now t < window cap ttl" if "(t, k') \<in> set h" for t k'
    using assms(2) that window_le_cap [of cap ttl] by (auto simp: elapsed_def)
  moreover have "\<forall>(t, k)\<in>set h. t \<le> now \<and> valid k" using assms(2) by auto
  ultimately show ?thesis using fresh_run [of h now k ttl] assms(1,3) by blast
qed

end

text \<open>
  A store that also exposes the keys it holds: pruning bounds them by the grants of the
  last \<open>cap\<close>.
\<close>

locale bounded_grant_store = grant_store +
  fixes held :: "'a \<Rightarrow> 'c set"
    and slot :: "'b \<Rightarrow> 'c"
    and stamped :: "'a \<Rightarrow> 'c \<Rightarrow> instant option"
  assumes held_stamped: "c \<in> held s \<longleftrightarrow> stamped s c \<noteq> None"
    and stamped_empty: "stamped empty c = None"
    and stamped_grant:
      "stamped (grant s k t) c =
         (if c = slot k then Some t
          else (case stamped s c of None \<Rightarrow> None | Some u \<Rightarrow> if elapsed t u < cap then Some u else None))"
begin

lemma stamped_run:
  assumes "stamped (run h empty) c = Some u"
  shows "\<exists>k. (u, k) \<in> set h \<and> c = slot k \<and> (\<forall>t k'. h \<noteq> [] \<and> last h = (t, k') \<longrightarrow> u = t \<or> elapsed t u < cap)"
  using assms
proof (induction h rule: rev_induct)
  case Nil
  then show ?case by (simp add: stamped_empty)
next
  case (snoc e h)
  obtain t k where e: "e = (t, k)" by force
  show ?case
  proof (cases "c = slot k")
    case True
    with snoc.prems show ?thesis by (auto simp: e run_append stamped_grant)
  next
    case False
    with snoc.prems have "stamped (run h empty) c = Some u" "elapsed t u < cap"
      by (auto simp: e run_append stamped_grant split: option.splits if_splits)
    with snoc.IH show ?thesis by (auto simp: e)
  qed
qed

lemma held_run_recent:
  assumes "h \<noteq> []" "0 < cap"
  shows "held (run h empty) \<subseteq> (slot \<circ> snd) ` {(u, k) \<in> set h. elapsed (fst (last h)) u < cap}"
proof
  fix c
  assume "c \<in> held (run h empty)"
  then obtain u where "stamped (run h empty) c = Some u"
    by (auto simp: held_stamped)
  from stamped_run [OF this] assms obtain k where
    "(u, k) \<in> set h" "c = slot k" "u = fst (last h) \<or> elapsed (fst (last h)) u < cap"
    by (metis prod.collapse)
  with assms(2) show "c \<in> (slot \<circ> snd) ` {(u, k) \<in> set h. elapsed (fst (last h)) u < cap}"
    by (force simp: image_iff)
qed

end

end
