(* ===== verification/Broker.thy ===== *)
theory Broker
  imports Broker_Proto Grant_Store
begin

text \<open>
  The remember broker (\<open>sentinel-broker/src/store.rs\<close>, \<open>server.rs\<close> and the accept loop
  of \<open>main.rs\<close>) and its client in the PAM shim (\<open>pam-sentinel/src/broker_client.rs\<close>).

  The store is a map from key strings to the instant of the grant. Every operation holds
  the store's mutex from its first to its last access, so the threads of the daemon
  interleave at whole operations and a run is the sequence of them; the monotonic clock
  is an argument. The kernel's peer credentials, the codec and the stream are parameters.
\<close>

subsection \<open>The store\<close>

definition MAX_REMEMBER :: duration where
  "MAX_REMEMBER = from_secs 900"

record remember_store =
  rs_inner :: "ustr \<rightharpoonup> instant"

definition store_new :: remember_store where
  "store_new = \<lparr>rs_inner = Map.empty\<rparr>"

definition keystr :: "remember_key \<Rightarrow> ustr" where
  "keystr k = show_u32 (loginuid k) @ [0] @ show_u32 (sessionid k) @ [0] @ service k @ [0] @ command k"

definition store_is_fresh :: "remember_store \<Rightarrow> bound_key \<Rightarrow> u32 \<Rightarrow> instant \<Rightarrow> bool" where
  "store_is_fresh s key ttl_secs now =
     (if ttl_secs = 0 then False
      else
        (let ttl = min (from_secs (unat ttl_secs)) MAX_REMEMBER
         in case rs_inner s (keystr (bk_key key)) of
              None \<Rightarrow> False
            | Some t \<Rightarrow> elapsed now t < ttl))"

definition store_record :: "remember_store \<Rightarrow> bound_key \<Rightarrow> instant \<Rightarrow> remember_store" where
  "store_record s key now =
     (let pruned = retain (\<lambda>_ t. elapsed now t < MAX_REMEMBER) (rs_inner s)
      in s\<lparr>rs_inner := pruned(keystr (bk_key key) \<mapsto> now)\<rparr>)"

subsection \<open>The server\<close>

definition dispatch :: "request \<Rightarrow> remember_store \<Rightarrow> instant \<Rightarrow> response \<times> remember_store" where
  "dispatch req store now =
     (case req of
        Ping \<Rightarrow> (Pong PROTOCOL_VERSION, store)
      | CheckRemember q \<Rightarrow>
          (Remember (case bind_key (q_key q) of
                       None \<Rightarrow> False
                     | Some k \<Rightarrow> store_is_fresh store k (q_ttl_secs q) now), store)
      | RecordRemember key \<Rightarrow>
          (case bind_key key of
             Some k \<Rightarrow> (Recorded, store_record store k now)
           | None \<Rightarrow> (Error (lit ''unbindable key''), store)))"

text \<open>What the daemon prints on its error stream.\<close>

datatype broker_log =
  LogRead proto_error | LogWrite proto_error | LogNonRootPeer u32 | LogPeerCred ustr | LogAccept ustr

text \<open>\<open>SO_PEERCRED\<close>: the kernel's answer for the connection, an error or the peer's uid.\<close>

fun peer_is_root :: "ustr + u32 \<Rightarrow> bool \<times> broker_log list" where
  "peer_is_root (Inr uid) = (if uid = 0 then (True, []) else (False, [LogNonRootPeer uid]))"
| "peer_is_root (Inl e) = (False, [LogPeerCred e])"

text \<open>
  \<open>handle\<close>: one connection. The result is the stream after the exchange, the store and
  the log; \<open>now\<close> is the clock when the request is dispatched. The socket timeouts are
  part of the stream's behaviour: a read that times out is an error of \<open>so_read_exact\<close>.
\<close>

definition handle ::
  "'s stream_ops \<Rightarrow> request decoder \<Rightarrow> response encoder \<Rightarrow> ustr + u32 \<Rightarrow> bool \<Rightarrow> instant \<Rightarrow>
     's \<Rightarrow> remember_store \<Rightarrow> 's \<times> remember_store \<times> broker_log list" where
  "handle ops dec enc peer enforce_peer_root now stream store =
     (let (is_root, plog) = (if enforce_peer_root then peer_is_root peer else (True, []))
      in if enforce_peer_root \<and> \<not> is_root then (stream, store, plog)
         else
           (case read_frame ops dec stream of
              Inl e \<Rightarrow> (stream, store, [LogRead e])
            | Inr (req, stream1) \<Rightarrow>
                (let (resp, store1) = dispatch req store now
                 in case write_frame ops enc stream1 resp of
                      Inl e \<Rightarrow> (stream1, store1, [LogWrite e])
                    | Inr stream2 \<Rightarrow> (stream2, store1, []))))"

text \<open>
  The accept loop of \<open>main\<close>: every accepted connection is handled with the root check on.
  A connection carries the peer's credentials, the clock when it is served and its
  stream; a failed accept is reported and the loop goes on.
\<close>

fun serve ::
  "'s stream_ops \<Rightarrow> request decoder \<Rightarrow> response encoder \<Rightarrow>
     (ustr + (ustr + u32) \<times> instant \<times> 's) list \<Rightarrow> remember_store \<Rightarrow>
     's list \<times> remember_store \<times> broker_log list" where
  "serve ops dec enc [] store = ([], store, [])"
| "serve ops dec enc (Inl e # conns) store =
     (let (out, store1, log) = serve ops dec enc conns store in (out, store1, LogAccept e # log))"
| "serve ops dec enc (Inr (peer, now, stream) # conns) store =
     (let (stream1, store1, log1) = handle ops dec enc peer True now stream store;
          (out, store2, log2) = serve ops dec enc conns store1
      in (stream1 # out, store2, log1 @ log2))"

subsection \<open>The client\<close>

text \<open>
  \<open>roundtrip_at\<close>: connecting (with the two timeouts set) is a parameter that fails or
  yields a stream.
\<close>

definition roundtrip_at ::
  "(ustr \<Rightarrow> 's option) \<Rightarrow> 's stream_ops \<Rightarrow> request encoder \<Rightarrow> response decoder \<Rightarrow>
     ustr \<Rightarrow> request \<Rightarrow> (response \<times> 's) option" where
  "roundtrip_at connect ops enc dec sock req =
     (case connect sock of
        None \<Rightarrow> None
      | Some s \<Rightarrow>
          (case write_frame ops enc s req of
             Inl _ \<Rightarrow> None
           | Inr s1 \<Rightarrow>
               (case read_frame ops dec s1 of
                  Inl _ \<Rightarrow> None
                | Inr r \<Rightarrow> Some r)))"

definition DEFAULT_SOCK :: ustr where
  "DEFAULT_SOCK = lit ''/run/sentinel-broker/broker.sock''"

definition sock_path :: "(ustr \<rightharpoonup> ustr) \<Rightarrow> ustr" where
  "sock_path env = unwrap_or (env (lit ''SENTINEL_BROKER_SOCK'')) DEFAULT_SOCK"

text \<open>The two calls of the shim, over the round trip they make.\<close>

definition check_remember :: "(request \<Rightarrow> response option) \<Rightarrow> remember_key \<Rightarrow> u32 \<Rightarrow> bool" where
  "check_remember roundtrip key ttl_secs \<longleftrightarrow>
     roundtrip (CheckRemember \<lparr>q_key = key, q_ttl_secs = ttl_secs\<rparr>) = Some (Remember True)"

definition record_remember :: "(request \<Rightarrow> response option) \<Rightarrow> remember_key \<Rightarrow> ustr list" where
  "record_remember roundtrip key =
     (case roundtrip (RecordRemember key) of
        Some (Error e) \<Rightarrow> [lit ''sentinel: broker rejected remember record: '' @ e]
      | _ \<Rightarrow> [])"

subsection \<open>Key strings\<close>

lemma keystr_inj:
  assumes "keystr a = keystr b" "0 \<notin> set (service a)" "0 \<notin> set (service b)"
  shows "a = b"
proof -
  have "show_u32 (loginuid a) @ 0 # show_u32 (sessionid a) @ 0 # service a @ 0 # command a =
      show_u32 (loginuid b) @ 0 # show_u32 (sessionid b) @ 0 # service b @ 0 # command b"
    using assms(1) by (simp add: keystr_def)
  then have "loginuid a = loginuid b \<and> sessionid a = sessionid b \<and>
      service a = service b \<and> command a = command b"
    using assms(2,3) by (simp only: append_sep_inj show_u32_no_nul show_u32_inj not_False_eq_True simp_thms)
  then show ?thesis by simp
qed

subsection \<open>The store implements the contract\<close>

definition nul_free_service :: "bound_key \<Rightarrow> bool" where
  "nul_free_service k \<longleftrightarrow> 0 \<notin> set (service (bk_key k))"

lemma store_is_fresh_iff [fresh_simps]:
  "store_is_fresh s k ttl now \<longleftrightarrow>
     (\<exists>t. rs_inner s (keystr (bk_key k)) = Some t \<and> elapsed now t < window MAX_REMEMBER ttl)"
  by (auto simp: store_is_fresh_def window_def split: option.splits)

lemma rs_inner_record [fresh_simps]:
  "rs_inner (store_record s k now) =
     (retain (\<lambda>_ t. elapsed now t < MAX_REMEMBER) (rs_inner s))(keystr (bk_key k) \<mapsto> now)"
  by (simp add: store_record_def Let_def)

lemma not_pruned:
  assumes "t \<le> now" "elapsed now u < window MAX_REMEMBER ttl"
  shows "elapsed t u < MAX_REMEMBER"
  using assms window_le_cap [of MAX_REMEMBER ttl] elapsed_mono [of t now u] by linarith

interpretation broker: bounded_grant_store store_new store_record store_is_fresh nul_free_service
  MAX_REMEMBER "\<lambda>s. dom (rs_inner s)" "\<lambda>k. keystr (bk_key k)" rs_inner
proof unfold_locales
  fix s k k' ttl and t now :: instant
  assume a: "nul_free_service k" "nul_free_service k'" "k \<noteq> k'" "t \<le> now"
  then have "keystr (bk_key k) \<noteq> keystr (bk_key k')"
    using keystr_inj by (auto simp: nul_free_service_def bound_key.expand)
  with a(4) show "store_is_fresh (store_record s k t) k' ttl now = store_is_fresh s k' ttl now"
    using not_pruned by (auto simp: fresh_simps)
next
  fix s k c and t :: instant
  show "rs_inner (store_record s k t) c =
      (if c = keystr (bk_key k) then Some t
       else case rs_inner s c of None \<Rightarrow> None
            | Some u \<Rightarrow> if elapsed t u < MAX_REMEMBER then Some u else None)"
    by (simp add: fresh_simps retain_def)
qed (auto simp: store_new_def fresh_simps)

subsection \<open>Requests as histories\<close>

text \<open>
  The abstract broker remembers every accepted grant for ever, and answers a query by
  looking for a young one. A sequence of dispatched requests, each with its clock.
\<close>

fun dispatch_all :: "(instant \<times> request) list \<Rightarrow> remember_store \<Rightarrow> remember_store" where
  "dispatch_all [] s = s"
| "dispatch_all ((now, req) # rs) s = dispatch_all rs (snd (dispatch req s now))"

fun accepted_grants :: "(instant \<times> request) list \<Rightarrow> (instant \<times> remember_key) list" where
  "accepted_grants [] = []"
| "accepted_grants ((now, RecordRemember k) # rs) =
     (if is_bindable k then (now, k) # accepted_grants rs else accepted_grants rs)"
| "accepted_grants (_ # rs) = accepted_grants rs"

lemma dispatch_all_run:
  "dispatch_all rs s = broker.run (map (\<lambda>(t, k). (t, BoundKey k)) (accepted_grants rs)) s"
  by (induction rs arbitrary: s rule: accepted_grants.induct)
    (auto simp: dispatch_def split: option.splits)

lemma set_accepted_grants:
  "(t, k) \<in> set (accepted_grants rs) \<longleftrightarrow> (t, RecordRemember k) \<in> set rs \<and> is_bindable k"
  by (induction rs rule: accepted_grants.induct) auto

lemma sorted_accepted_grants:
  "sorted (map fst rs) \<Longrightarrow> sorted (map fst (accepted_grants rs))"
  by (induction rs rule: accepted_grants.induct) (fastforce simp: set_accepted_grants)+

lemma check_after_requests:
  assumes "sorted (map fst rs)" "\<forall>(t, r)\<in>set rs. t \<le> now"
    and "\<forall>(t, r)\<in>set rs. \<forall>k. r = RecordRemember k \<longrightarrow> 0 \<notin> set (service k)"
    and "0 \<notin> set (service key)" "is_bindable key"
  shows "store_is_fresh (dispatch_all rs store_new) (BoundKey key) ttl now \<longleftrightarrow>
     (\<exists>t. (t, RecordRemember key) \<in> set rs \<and> elapsed now t < window MAX_REMEMBER ttl)"
proof -
  let ?h = "map (\<lambda>(t, k). (t, BoundKey k)) (accepted_grants rs)"
  have "map fst ?h = map fst (accepted_grants rs)" by (simp add: case_prod_beta)
  then have "sorted (map fst ?h)"
    using sorted_accepted_grants [OF assms(1)] by (simp only:)
  moreover have "\<forall>(t, k)\<in>set ?h. t \<le> now \<and> nul_free_service k"
    using assms(2,3) by (force simp: set_accepted_grants nul_free_service_def)
  moreover have "nul_free_service (BoundKey key)" using assms(4) by (simp add: nul_free_service_def)
  ultimately have "store_is_fresh (broker.run ?h store_new) (BoundKey key) ttl now \<longleftrightarrow>
      (\<exists>t. (t, BoundKey key) \<in> set ?h \<and> elapsed now t < window MAX_REMEMBER ttl)"
    by (rule broker.fresh_run)
  moreover have "(t, BoundKey key) \<in> set ?h \<longleftrightarrow> (t, RecordRemember key) \<in> set rs" for t
    using assms(5) set_accepted_grants [of t key rs] by force
  ultimately show ?thesis by (simp add: dispatch_all_run)
qed

subsection \<open>The shim and the daemon on one socket\<close>

text \<open>
  A connected socket as one end sees it: what is left to read and what it wrote.
\<close>

definition socket_ops :: "(byte list \<times> byte list) stream_ops" where
  "socket_ops =
     \<lparr>so_read_exact =
        (\<lambda>(inp, out) n. map_sum id (\<lambda>(b, rest). (b, (rest, out))) (so_read_exact buffer_ops inp n)),
      so_write_all = (\<lambda>(inp, out) bytes. Inr (inp, out @ bytes)),
      so_flush = (\<lambda>s. Inr s)\<rparr>"

text \<open>
  The client's end when the daemon is at the other one: the first read lets the daemon
  serve the connection on what the client wrote; then the reply is read.
\<close>

record connection =
  cn_sent :: "byte list"
  cn_reply :: "byte list option"
  cn_store :: remember_store

definition broker_serves ::
  "request decoder \<Rightarrow> response encoder \<Rightarrow> ustr + u32 \<Rightarrow> instant \<Rightarrow> connection \<Rightarrow> byte list \<times> remember_store" where
  "broker_serves dec enc peer now c =
     (case cn_reply c of
        Some r \<Rightarrow> (r, cn_store c)
      | None \<Rightarrow>
          (case handle socket_ops dec enc peer True now (cn_sent c, []) (cn_store c) of
             ((_, out), store, _) \<Rightarrow> (out, store)))"

definition connection_ops ::
  "request decoder \<Rightarrow> response encoder \<Rightarrow> ustr + u32 \<Rightarrow> instant \<Rightarrow> connection stream_ops" where
  "connection_ops dec enc peer now =
     \<lparr>so_read_exact =
        (\<lambda>c n. case broker_serves dec enc peer now c of
           (reply, store) \<Rightarrow>
             map_sum id (\<lambda>(b, rest). (b, c\<lparr>cn_reply := Some rest, cn_store := store\<rparr>)) (so_read_exact buffer_ops reply n)),
      so_write_all = (\<lambda>c bytes. Inr (c\<lparr>cn_sent := cn_sent c @ bytes\<rparr>)),
      so_flush = (\<lambda>c. Inr c)\<rparr>"

interpretation sock: byte_stream socket_ops fst "\<lambda>r s. (r, snd s)" snd "\<lambda>b s. (fst s, b)"
  by unfold_locales (auto simp: socket_ops_def buffer_ops_def split: prod.split)

lemma broker_serves_again:
  "broker_serves dec enc peer now (c\<lparr>cn_reply := Some r, cn_store := st\<rparr>) = (r, st)"
  by (simp add: broker_serves_def)

interpretation conn: byte_stream "connection_ops dec enc peer now" "\<lambda>c. fst (broker_serves dec enc peer now c)"
  "\<lambda>r c. c\<lparr>cn_reply := Some r, cn_store := snd (broker_serves dec enc peer now c)\<rparr>" cn_sent "\<lambda>b c. c\<lparr>cn_sent := b\<rparr>"
  for dec enc peer now
  by unfold_locales (simp_all add: connection_ops_def buffer_ops_def broker_serves_again case_prod_beta)

lemma handle_exchange:
  assumes "decq b = Inr req" "length b \<le> MAX_FRAME_LEN"
    and "encr (fst (dispatch req store now)) = Inr c" "length c \<le> MAX_FRAME_LEN"
  shows "handle socket_ops decq encr (Inr 0) True now (frame b, []) store =
     (([], frame c), snd (dispatch req store now), [])"
proof (cases "dispatch req store now")
  case (Pair resp store1)
  with assms read_frame_buffer [of b decq "[]"] show ?thesis
    by (simp add: handle_def sock.read_frame_stream sock.write_frame_stream write_frame_buffer)
qed

lemma roundtrip_served:
  assumes "encq req = Inr b" "decq b = Inr req" "length b \<le> MAX_FRAME_LEN"
    and "encr (fst (dispatch req store now)) = Inr c" "decr c = Inr (fst (dispatch req store now))"
    and "length c \<le> MAX_FRAME_LEN"
  shows "roundtrip_at (\<lambda>_. Some \<lparr>cn_sent = [], cn_reply = None, cn_store = store\<rparr>)
       (connection_ops decq encr (Inr 0) now) encq decr sock req =
     Some (fst (dispatch req store now), \<lparr>cn_sent = frame b, cn_reply = Some [], cn_store = snd (dispatch req store now)\<rparr>)"
proof -
  let ?c = "\<lparr>cn_sent = [], cn_reply = None, cn_store = store\<rparr>"
  have "broker_serves decq encr (Inr 0) now (?c\<lparr>cn_sent := frame b\<rparr>) = (frame c, snd (dispatch req store now))"
    using handle_exchange [of decq b req encr store now c] assms by (simp add: broker_serves_def)
  with conn.exchange_frames [of encq req b decq encr "Inr 0" now ?c c "[]" decr] assms show ?thesis
    by (simp add: roundtrip_at_def)
qed

lemma roundtrip_unserved:
  assumes "encq req = Inr b" "length b \<le> MAX_FRAME_LEN" "uid \<noteq> 0"
  shows "roundtrip_at (\<lambda>_. Some \<lparr>cn_sent = [], cn_reply = None, cn_store = store\<rparr>)
       (connection_ops decq encr (Inr uid) now) encq decr sock req = None"
proof -
  have "handle socket_ops decq encr (Inr uid) True now (frame b, []) store = ((frame b, []), store, [LogNonRootPeer uid])"
    using assms(3) by (simp add: handle_def)
  moreover obtain e where "read_frame buffer_ops decr [] = Inl (IoError e)" using read_frame_short [of "[]"] by auto
  ultimately show ?thesis
    using assms
    by (simp add: roundtrip_at_def conn.read_frame_stream conn.write_frame_stream write_frame_buffer broker_serves_def)
qed

subsection \<open>Properties\<close>

text \<open>C6. The broker answers like a log: after any sequence of requests in the order of the clock, a
  check says fresh exactly when the key is bindable and was recorded by some request younger
  than the requested seconds and than fifteen minutes. Pruning is invisible, and a grant for
  one user, session, service or command never answers for another.\<close>

theorem broker_refines_history:
  assumes "sorted (map fst rs)" "\<forall>(t, r)\<in>set rs. t \<le> now"
    and "\<forall>(t, r)\<in>set rs. \<forall>k. r = RecordRemember k \<longrightarrow> 0 \<notin> set (service k)" "0 \<notin> set (service key)"
  shows "dispatch (CheckRemember \<lparr>q_key = key, q_ttl_secs = ttl\<rparr>) (dispatch_all rs store_new) now =
     (Remember (is_bindable key \<and>
        (\<exists>t. (t, RecordRemember key) \<in> set rs \<and> elapsed now t < window (from_secs 900) ttl)),
      dispatch_all rs store_new)"
  using check_after_requests [OF assms]
  by (cases "is_bindable key") (auto simp: dispatch_def MAX_REMEMBER_def split: option.splits)

definition example_key :: remember_key where
  "example_key = \<lparr>loginuid = 1000, sessionid = 3, service = lit ''sudo'', command = lit ''pacman -Syu''\<rparr>"

lemma example_key_ok: "is_bindable example_key" "0 \<notin> set (service example_key)"
  by (simp_all add: example_key_def is_bindable_def)

theorem broker_refines_history_witness:
  "fst (dispatch (CheckRemember \<lparr>q_key = example_key, q_ttl_secs = 60\<rparr>)
     (dispatch_all [(from_secs 5, RecordRemember example_key)] store_new) (from_secs 10)) = Remember True"
proof -
  have "elapsed (from_secs 10) (from_secs 5) < window (from_secs 900) 60"
    by (simp add: elapsed_def window_def from_secs_def)
  then show ?thesis
    using broker_refines_history [of "[(from_secs 5, RecordRemember example_key)]" "from_secs 10" example_key 60]
      example_key_ok by auto
qed

text \<open>The string a grant is stored under identifies its key: two keys whose service names hold no
  NUL have the same string only if they agree in user, session, service and command.\<close>

theorem keystr_injective:
  assumes "0 \<notin> set (service a)" "0 \<notin> set (service b)"
  shows "keystr a = keystr b \<longleftrightarrow> a = b"
  using keystr_inj [OF _ assms] by blast

theorem keystr_injective_witness:
  "keystr example_key \<noteq> keystr (example_key\<lparr>command := lit ''pacman -U /tmp/evil''\<rparr>)"
proof -
  have "0 \<notin> set (service example_key)" "0 \<notin> set (service (example_key\<lparr>command := lit ''pacman -U /tmp/evil''\<rparr>))"
    by (simp_all add: example_key_def)
  from keystr_injective [OF this] show ?thesis by (simp add: example_key_def)
qed

text \<open>A service name with a NUL would break this.\<close>

theorem keystr_collision:
  "keystr \<lparr>loginuid = 1, sessionid = 1, service = [97], command = [98, 0, 99]\<rparr> =
   keystr \<lparr>loginuid = 1, sessionid = 1, service = [97, 0, 98], command = [99]\<rparr>"
  by (simp add: keystr_def)

text \<open>The store stays small and clean: after any requests whose last one was a grant, it holds only
  keys of bindable grants recorded less than fifteen minutes before that last grant.\<close>

theorem broker_store_bounded:
  assumes "accepted_grants rs \<noteq> []"
  shows "dom (rs_inner (dispatch_all rs store_new)) \<subseteq>
     {keystr k |k t. (t, RecordRemember k) \<in> set rs \<and> is_bindable k \<and>
        elapsed (fst (last (accepted_grants rs))) t < from_secs 900}"
proof -
  let ?h = "map (\<lambda>(t, k). (t, BoundKey k)) (accepted_grants rs)"
  have l: "fst (last ?h) = fst (last (accepted_grants rs))"
    using assms by (simp add: last_map case_prod_beta)
  have "dom (rs_inner (broker.run ?h store_new)) \<subseteq>
      ((\<lambda>k. keystr (bk_key k)) \<circ> snd) ` {(u, k) \<in> set ?h. elapsed (fst (last ?h)) u < MAX_REMEMBER}"
    by (rule broker.held_run_recent) (use assms in \<open>simp_all add: MAX_REMEMBER_def\<close>)
  also have "\<dots> \<subseteq> {keystr k |k t. (t, RecordRemember k) \<in> set rs \<and> is_bindable k \<and>
      elapsed (fst (last (accepted_grants rs))) t < from_secs 900}"
    using set_accepted_grants [of _ _ rs] by (fastforce simp: l MAX_REMEMBER_def)
  finally show ?thesis by (simp add: dispatch_all_run)
qed

theorem broker_store_bounded_witness:
  "dom (rs_inner (dispatch_all [(0, RecordRemember example_key), (from_secs 1000, RecordRemember (example_key\<lparr>command := [98]\<rparr>))] store_new))
     \<subseteq> {keystr (example_key\<lparr>command := [98]\<rparr>)}"
proof -
  let ?rs = "[(0, RecordRemember example_key), (from_secs 1000, RecordRemember (example_key\<lparr>command := [98]\<rparr>))]"
  have "is_bindable (example_key\<lparr>command := [98]\<rparr>)" by (simp add: example_key_def is_bindable_def)
  then have a: "accepted_grants ?rs = [(0, example_key), (from_secs 1000, example_key\<lparr>command := [98]\<rparr>)]"
    using example_key_ok by simp
  have "\<not> elapsed (from_secs 1000) 0 < from_secs 900" by (simp add: elapsed_def)
  then show ?thesis using broker_store_bounded [of ?rs] a by (fastforce simp: subset_iff)
qed

text \<open>Only root is served: with the check on, a connection whose peer is not root, or whose
  credentials cannot be read, is dropped with the store and the stream untouched, whatever
  it sends.\<close>

theorem handle_rejects_non_root:
  assumes "peer \<noteq> Inr 0"
  shows "\<exists>log. handle ops dec enc peer True now stream store = (stream, store, log) \<and> log \<noteq> []"
  using assms by (cases peer) (auto simp: handle_def)

theorem handle_rejects_non_root_witness:
  "fst (snd (handle buffer_ops (\<lambda>_. Inr (RecordRemember example_key)) (\<lambda>_. Inr []) (Inr 1000) True 0 (frame []) store_new)) = store_new"
  using handle_rejects_non_root [of "Inr 1000" buffer_ops "\<lambda>_. Inr (RecordRemember example_key)" "\<lambda>_. Inr []" 0 "frame []" store_new]
  by auto

text \<open>C23. The shim and the daemon understand each other: for a request and a response that the codec
  encodes within the frame limit and decodes back, a round trip of the shim over a socket the
  daemon serves yields exactly the response \<open>dispatch\<close> computes on the daemon's store, which
  afterwards is the store \<open>dispatch\<close> leaves, when the peer is root, and nothing when it is not.\<close>

theorem shim_broker_exchange:
  assumes "encq req = Inr b" "decq b = Inr req" "length b \<le> MAX_FRAME_LEN"
    and "encr (fst (dispatch req store now)) = Inr c" "decr c = Inr (fst (dispatch req store now))"
    and "length c \<le> MAX_FRAME_LEN"
  shows "roundtrip_at (\<lambda>_. Some \<lparr>cn_sent = [], cn_reply = None, cn_store = store\<rparr>)
       (connection_ops decq encr (Inr uid) now) encq decr sock req =
     (if uid = 0
      then Some (fst (dispatch req store now),
             \<lparr>cn_sent = frame b, cn_reply = Some [], cn_store = snd (dispatch req store now)\<rparr>)
      else None)"
proof (cases "uid = 0")
  case True
  then show ?thesis using roundtrip_served [of encq req b decq encr store now c decr sock] assms by simp
next
  case False
  with roundtrip_unserved [of encq req b uid store decq encr now decr sock] assms show ?thesis by simp
qed

theorem shim_broker_exchange_witness:
  "\<exists>s. roundtrip_at (\<lambda>_. Some \<lparr>cn_sent = [], cn_reply = None, cn_store = store_new\<rparr>)
       (connection_ops (\<lambda>_. Inr (RecordRemember example_key)) (\<lambda>_. Inr [2]) (Inr 0) 7) (\<lambda>_. Inr [1]) (\<lambda>_. Inr Recorded)
       DEFAULT_SOCK (RecordRemember example_key) = Some (Recorded, s) \<and>
     cn_store s = store_record store_new (BoundKey example_key) 7"
proof -
  have d: "dispatch (RecordRemember example_key) store_new 7 = (Recorded, store_record store_new (BoundKey example_key) 7)"
    using example_key_ok(1) by (simp add: dispatch_def split: option.splits)
  show ?thesis
    using shim_broker_exchange [of "\<lambda>_. Inr [1]" "RecordRemember example_key" "[1]" "\<lambda>_. Inr (RecordRemember example_key)"
        "\<lambda>_. Inr [2]" store_new 7 "[2]" "\<lambda>_. Inr Recorded" 0 DEFAULT_SOCK]
    unfolding d by (simp add: MAX_FRAME_LEN_def)
qed

end
