(* ===== verification/Pam_Module.thy ===== *)
theory Pam_Module
  imports Pam_Helper Broker
begin

text \<open>
  The PAM module itself (\<open>pam-sentinel/src/lib.rs\<close> and \<open>agent_bypass.rs\<close>): every stage
  of \<open>sm_authenticate\<close> and their composition. What the module asks of other programs and
  of the kernel is a record of answers (\<open>pam_host\<close>): the PAM handle, \<open>/proc\<close>, the
  password database, the agent's answer over the system bus, the broker's answer to a
  request and the system calls of the dialog's parent. A run yields the result code, the
  audit records in order, the calls made to the agent, the broker and the dialog in
  order, and the environment handed to the dialog.
\<close>

datatype pam_code = PAM_SUCCESS | PAM_AUTH_ERR | PAM_IGNORE

datatype pam_call = CTakeApproval | CBroker request | CDialog helper_request

record 'p pam_host =
  h_fs :: fs
  h_read_dir :: "ustr \<Rightarrow> dir_entry list option"
  h_env :: env
  h_getpid :: pid
  h_getppid :: pid
  h_getuid :: u32
  h_get_user :: "ustr option"
  h_item_service :: "byte list option"
  h_item_user :: "byte list option"
  h_from_uid :: "u32 \<Rightarrow> passwd option"
  h_from_name :: "ustr \<Rightarrow> passwd option"
  h_toml :: "ustr \<Rightarrow> ustr + document"
  h_config_read :: "ustr \<Rightarrow> io_error + ustr"
  h_config_path :: ustr
  h_agent_owner :: "ustr + u32"
  h_agent_take :: "ustr + bool"
  h_broker :: "request \<Rightarrow> response option"
  h_pipe_error :: "ustr option"
  h_fork_error :: "ustr option"
  h_poll_timeout :: "'p poll_timeout"
  h_parent :: "helper_request \<Rightarrow> 'p parent_kernel"
  h_latency_ms :: nat

subsection \<open>The agent's approval\<close>

text \<open>\<open>resolve_user\<close> of \<open>agent_bypass.rs\<close>.\<close>

definition bypass_user :: "'p pam_host \<Rightarrow> ustr option" where
  "bypass_user h =
     (case h_get_user h of
        Some s \<Rightarrow> Some s
      | None \<Rightarrow> Option.bind (h_item_user h) from_utf8)"

definition AGENT_BUS_NAME :: ustr where
  "AGENT_BUS_NAME = lit ''org.sentinel.Agent''"

text \<open>
  \<open>query_agent\<close>: the lookup of the bus name's owner covers the connection and the name;
  \<open>TakeApproval\<close> is only called when the owner is the user being authenticated.
\<close>

definition query_agent ::
  "'p pam_host \<Rightarrow> u32 \<Rightarrow> (ustr + bool) \<times> log_record list \<times> pam_call list" where
  "query_agent h uid =
     (case h_agent_owner h of
        Inl e \<Rightarrow> (Inl e, [], [])
      | Inr owner_uid \<Rightarrow>
          if owner_uid \<noteq> uid then
            (Inr False,
             [(LWarn, lit ''agent_bypass: '' @ AGENT_BUS_NAME @ lit '' owned by uid '' @ show_u32 owner_uid @
                 lit '' != expected '' @ show_u32 uid @ lit ''; refusing (squat?)'')], [])
          else (h_agent_take h, [], [CTakeApproval]))"

definition check_agent_bypass ::
  "'p pam_host \<Rightarrow> pam_code option \<times> log_record list \<times> pam_call list" where
  "check_agent_bypass h =
     (case bypass_user h of
        None \<Rightarrow> (None, [], [])
      | Some user \<Rightarrow>
          (case h_from_name h user of
             None \<Rightarrow>
               (None, [(LDebug, lit ''agent_bypass: PAM_USER='' @ user @ lit '' has no passwd entry; falling through'')], [])
           | Some u \<Rightarrow>
               (let who = (LDebug, lit ''agent_bypass: PAM_USER='' @ user @ raw_field ''uid'' (show_u32 (pw_uid u)))
                in case query_agent h (pw_uid u) of
                     (Inr True, log, calls) \<Rightarrow>
                       (Some PAM_SUCCESS,
                        who # log @ [(LInfo, lit ''event=auth.allow source=bypass'' @
                                        raw_field ''uid'' (show_u32 (pw_uid u)))], calls)
                   | (Inr False, log, calls) \<Rightarrow> (None, who # log, calls)
                   | (Inl e, log, calls) \<Rightarrow>
                       (None, who # log @ [(LDebug, lit ''agent_bypass: query failed ('' @ e @ lit ''); falling through'')],
                        calls))))"

subsection \<open>Stages\<close>

definition pam_service :: "'p pam_host \<Rightarrow> ustr" where
  "pam_service h = unwrap_or (Option.bind (h_item_service h) from_utf8) (lit ''unknown'')"

definition resolve_user :: "'p pam_host \<Rightarrow> u32 \<Rightarrow> ustr" where
  "resolve_user h uid =
     (case option_filter (\<lambda>name. name \<noteq> []) (h_get_user h) of
        Some name \<Rightarrow> name
      | None \<Rightarrow>
          (case h_from_uid h uid of
             Some u \<Rightarrow> pw_name u
           | None \<Rightarrow> lit ''unknown''))"

definition session_fields :: "'p pam_host \<Rightarrow> ustr" where
  "session_fields h = logfmt_session_for_pid (h_fs h) (h_getppid h)"

definition handle_headless ::
  "'p pam_host \<Rightarrow> service_config \<Rightarrow> ustr \<Rightarrow> ustr \<Rightarrow> pam_code \<times> log_record list" where
  "handle_headless h cfg svc user =
     (let session = session_fields h;
          tail = field ''user'' user @ field ''service'' svc @ session;
          logged = (\<lambda>r. if log_attempts cfg then [r] else []);
          pre = logged (LInfo, lit ''event=auth.headless reason=no-wayland'' @ tail)
      in case headless_action cfg of
           HAllow \<Rightarrow>
             (PAM_SUCCESS, pre @ logged (LWarn, lit ''event=auth.allow source=headless'' @ tail))
         | HDeny \<Rightarrow>
             (PAM_AUTH_ERR, pre @ logged (LInfo, lit ''event=auth.deny source=headless'' @ tail))
         | HPassword \<Rightarrow>
             (PAM_IGNORE,
              pre @ [(LDebug, lit ''pam_sentinel: no display, falling through to password (service '' @ svc @ lit '')'')]))"

definition check_policy ::
  "'p pam_host \<Rightarrow> service_config \<Rightarrow> ustr \<Rightarrow> ustr \<Rightarrow> process_info \<Rightarrow> u32 \<Rightarrow>
     (pam_code \<times> log_record list) option" where
  "check_policy h cfg svc user process requesting_uid =
     (let answer = (\<lambda>event rc.
        Some (rc,
          if log_attempts cfg then
            [(LInfo, lit ''event='' @ event @ lit '' source=policy'' @ field ''user'' user @
                field ''service'' svc @ field ''process'' (pi_name process) @
                field ''exe'' (pi_exe process) @ raw_field ''uid'' (show_u32 requesting_uid) @
                session_fields h)]
          else []))
      in case decide (policy cfg) (pi_policy_exe process) None of
           PAllow \<Rightarrow> answer (lit ''auth.allow'') PAM_SUCCESS
         | PDeny \<Rightarrow> answer (lit ''auth.deny'') PAM_AUTH_ERR
         | PAsk \<Rightarrow> None)"

fun outcome_event :: "outcome \<Rightarrow> ustr" where
  "outcome_event Allow = lit ''auth.allow''"
| "outcome_event Deny = lit ''auth.deny''"
| "outcome_event Timeout = lit ''auth.timeout''"

definition dialog_request ::
  "service_config \<Rightarrow> ustr \<Rightarrow> ustr \<Rightarrow> process_info \<Rightarrow> pid \<Rightarrow> u32 \<Rightarrow> u32 \<Rightarrow> helper_request" where
  "dialog_request cfg svc user process requesting_pid requesting_uid remember_secs =
     \<lparr>hr_cfg = cfg,
      hr_user = user,
      hr_service = svc,
      hr_process = process,
      hr_formatted_title = format_message (title cfg) user svc (pi_name process),
      hr_formatted_message = format_message (message cfg) user svc (pi_name process),
      hr_formatted_secondary = format_message (secondary cfg) user svc (pi_name process),
      hr_sound_name = sound_name cfg,
      hr_target_uid = requesting_uid,
      hr_requesting_pid = requesting_pid,
      hr_remember_secs = remember_secs\<rparr>"

definition dialog_log ::
  "'p pam_host \<Rightarrow> helper_request \<Rightarrow> ustr + verdict \<Rightarrow> log_record list" where
  "dialog_log h req result =
     (if \<not> log_attempts (hr_cfg req) then []
      else
        (case result of
           Inr v \<Rightarrow>
             [(LInfo, lit ''event='' @ outcome_event (v_outcome v) @ lit '' source=dialog'' @
                 field ''user'' (hr_user req) @ field ''service'' (hr_service req) @
                 field ''process'' (pi_name (hr_process req)) @
                 raw_field ''uid'' (show_u32 (hr_target_uid req)) @
                 raw_field ''latency_ms'' (show_nat (h_latency_ms h)) @ session_fields h)]
         | Inl e \<Rightarrow>
             [(LWarn, lit ''event=auth.error source=dialog'' @
                 field ''user'' (hr_user req) @ field ''service'' (hr_service req) @
                 field ''error'' e @ raw_field ''latency_ms'' (show_nat (h_latency_ms h)) @
                 session_fields h)]))"

definition dialog_result :: "'p pam_host \<Rightarrow> helper_request \<Rightarrow> ustr + verdict" where
  "dialog_result h req =
     run_helper (h_pipe_error h) (h_fork_error h) (h_poll_timeout h) (h_parent h req) req"

definition spawn_dialog ::
  "'p pam_host \<Rightarrow> helper_request \<Rightarrow> (pam_code \<times> bool) \<times> log_record list" where
  "spawn_dialog h req =
     (let result = dialog_result h req
      in (case result of
            Inr v \<Rightarrow> if is_allow (v_outcome v) then (PAM_SUCCESS, v_remember v) else (PAM_AUTH_ERR, False)
          | Inl _ \<Rightarrow> (PAM_AUTH_ERR, False),
          dialog_log h req result))"

subsection \<open>\<open>sm_authenticate\<close>\<close>

record pam_result =
  pr_code :: pam_code
  pr_log :: "log_record list"
  pr_calls :: "pam_call list"
  pr_env :: env

definition remember_key_of ::
  "u32 \<Rightarrow> u32 \<Rightarrow> ustr \<Rightarrow> service_config \<Rightarrow> process_info \<Rightarrow> remember_key option" where
  "remember_key_of login session svc cfg process =
     (if login = u32_max \<or> session = u32_max then None
      else
        map_option
          (\<lambda>cmd. \<lparr>loginuid = login, sessionid = session, service = svc,
                  command = remember_key_command cmd (remember_scope cfg)\<rparr>)
          (pi_remember_command process))"

text \<open>From the remember window on: the broker's answer, the dialog, the record.\<close>

definition authenticate_interactive ::
  "'p pam_host \<Rightarrow> service_config \<Rightarrow> ustr \<Rightarrow> ustr \<Rightarrow> process_info \<Rightarrow> u32 \<Rightarrow>
     pam_code \<times> log_record list \<times> pam_call list" where
  "authenticate_interactive h cfg svc user process requesting_uid =
     (let key = remember_key_of (read_proc_u32 (h_fs h) (h_getppid h) ''loginuid'')
                  (read_proc_u32 (h_fs h) (h_getppid h) ''sessionid'') svc cfg process;
          asked = (case key of
                     Some k \<Rightarrow> if 0 < remember_seconds cfg
                               then [CBroker (CheckRemember \<lparr>q_key = k, q_ttl_secs = remember_seconds cfg\<rparr>)]
                               else []
                   | None \<Rightarrow> []);
          granted = (case key of
                       Some k \<Rightarrow> 0 < remember_seconds cfg \<and> check_remember (h_broker h) k (remember_seconds cfg)
                     | None \<Rightarrow> False)
      in if granted then
           (PAM_SUCCESS,
            if log_attempts cfg then
              [(LInfo, lit ''event=auth.allow source=remember'' @ field ''user'' user @
                  field ''service'' svc @ field ''process'' (pi_name process) @
                  field ''exe'' (pi_exe process) @ raw_field ''uid'' (show_u32 requesting_uid))]
            else [], asked)
         else
           (let remember_secs = (if key \<noteq> None then remember_seconds cfg else 0);
                req = dialog_request cfg svc user process (h_getpid h) requesting_uid remember_secs;
                ((rc, remember), dlog) = spawn_dialog h req
            in case key of
                 Some k \<Rightarrow>
                   if remember \<and> 0 < remember_secs then
                     (rc, dlog @ map (\<lambda>m. (LWarn, m)) (record_remember (h_broker h) k),
                      asked @ [CDialog req, CBroker (RecordRemember k)])
                   else (rc, dlog, asked @ [CDialog req])
               | None \<Rightarrow> (rc, dlog, asked @ [CDialog req])))"

definition sm_authenticate :: "'p pam_host \<Rightarrow> pam_result" where
  "sm_authenticate h =
     (case check_agent_bypass h of
        (Some rc, log, calls) \<Rightarrow> \<lparr>pr_code = rc, pr_log = log, pr_calls = calls, pr_env = h_env h\<rparr>
      | (None, log, calls) \<Rightarrow>
          (let svc = pam_service h;
               cfg = load_config (h_toml h) (h_config_read h) (h_config_path h) svc;
               log1 = log @ snd (load_from (h_toml h) (h_config_read h) (h_config_path h))
           in if \<not> enabled cfg then
                \<lparr>pr_code = PAM_IGNORE,
                 pr_log = log1 @ [(LDebug, lit ''pam_sentinel: disabled for service '' @ svc)], pr_calls = calls, pr_env = h_env h\<rparr>
              else
                (let requesting_uid = caller_uid (h_fs h) (h_getuid h) (h_getppid h);
                     user = resolve_user h requesting_uid;
                     (display, env1) = detect_for_user (h_read_dir h) (h_env h) requesting_uid
                 in if \<not> display then
                      (let (rc, log2) = handle_headless h cfg svc user
                       in \<lparr>pr_code = rc, pr_log = log1 @ log2, pr_calls = calls, pr_env = env1\<rparr>)
                    else
                      (let process = for_pid (h_fs h) (h_getpid h)
                       in case check_policy h cfg svc user process requesting_uid of
                            Some (rc, log2) \<Rightarrow>
                              \<lparr>pr_code = rc, pr_log = log1 @ log2, pr_calls = calls, pr_env = env1\<rparr>
                          | None \<Rightarrow>
                              (let (rc, log2, calls2) =
                                 authenticate_interactive h cfg svc user process requesting_uid
                               in \<lparr>pr_code = rc, pr_log = log1 @ log2, pr_calls = calls @ calls2,
                                   pr_env = env1\<rparr>)))))"

definition sm_setcred :: pam_code where
  "sm_setcred = PAM_IGNORE"

subsection \<open>The decision in terms of its inputs\<close>

text \<open>What each stage of a run looks at, as functions of the host alone.\<close>

definition pam_cfg :: "'p pam_host \<Rightarrow> service_config" where
  "pam_cfg h = load_config (h_toml h) (h_config_read h) (h_config_path h) (pam_service h)"

definition pam_uid :: "'p pam_host \<Rightarrow> u32" where
  "pam_uid h = caller_uid (h_fs h) (h_getuid h) (h_getppid h)"

definition pam_process :: "'p pam_host \<Rightarrow> process_info" where
  "pam_process h = for_pid (h_fs h) (h_getpid h)"

definition pam_display :: "'p pam_host \<Rightarrow> bool" where
  "pam_display h = fst (detect_for_user (h_read_dir h) (h_env h) (pam_uid h))"

definition pam_policy :: "'p pam_host \<Rightarrow> policy_decision" where
  "pam_policy h = decide (policy (pam_cfg h)) (pi_policy_exe (pam_process h)) None"

definition pam_key :: "'p pam_host \<Rightarrow> remember_key option" where
  "pam_key h =
     remember_key_of (read_proc_u32 (h_fs h) (h_getppid h) ''loginuid'')
       (read_proc_u32 (h_fs h) (h_getppid h) ''sessionid'') (pam_service h) (pam_cfg h) (pam_process h)"

definition pam_request :: "'p pam_host \<Rightarrow> helper_request" where
  "pam_request h =
     dialog_request (pam_cfg h) (pam_service h) (resolve_user h (pam_uid h)) (pam_process h)
       (h_getpid h) (pam_uid h) (if pam_key h \<noteq> None then remember_seconds (pam_cfg h) else 0)"

lemmas pam_view_defs = pam_cfg_def pam_uid_def pam_process_def pam_display_def pam_policy_def
  pam_key_def pam_request_def

definition agent_approved :: "'p pam_host \<Rightarrow> bool" where
  "agent_approved h \<longleftrightarrow>
     (case Option.bind (bypass_user h) (h_from_name h) of
        None \<Rightarrow> False
      | Some u \<Rightarrow> h_agent_owner h = Inr (pw_uid u) \<and> h_agent_take h = Inr True)"

definition remembered :: "'p pam_host \<Rightarrow> bool" where
  "remembered h \<longleftrightarrow>
     (case pam_key h of
        None \<Rightarrow> False
      | Some k \<Rightarrow> 0 < remember_seconds (pam_cfg h) \<and>
          check_remember (h_broker h) k (remember_seconds (pam_cfg h)))"

definition dialog_allows :: "'p pam_host \<Rightarrow> bool" where
  "dialog_allows h \<longleftrightarrow>
     (case dialog_result h (pam_request h) of Inr v \<Rightarrow> is_allow (v_outcome v) | Inl _ \<Rightarrow> False)"

text \<open>The whole decision, and the calls made on the way.\<close>

definition pam_decision :: "'p pam_host \<Rightarrow> pam_code" where
  "pam_decision h =
     (if agent_approved h then PAM_SUCCESS
      else if \<not> enabled (pam_cfg h) then PAM_IGNORE
      else if \<not> pam_display h then
        (case headless_action (pam_cfg h) of
           HAllow \<Rightarrow> PAM_SUCCESS | HDeny \<Rightarrow> PAM_AUTH_ERR | HPassword \<Rightarrow> PAM_IGNORE)
      else
        (case pam_policy h of
           PAllow \<Rightarrow> PAM_SUCCESS
         | PDeny \<Rightarrow> PAM_AUTH_ERR
         | PAsk \<Rightarrow> if remembered h \<or> dialog_allows h then PAM_SUCCESS else PAM_AUTH_ERR))"

definition pam_interactive :: "'p pam_host \<Rightarrow> bool" where
  "pam_interactive h \<longleftrightarrow>
     \<not> agent_approved h \<and> enabled (pam_cfg h) \<and> pam_display h \<and> pam_policy h = PAsk"

lemma check_agent_bypass_code:
  "fst (check_agent_bypass h) = (if agent_approved h then Some PAM_SUCCESS else None)"
  by (auto simp: check_agent_bypass_def Let_def agent_approved_def query_agent_def
      split: option.splits sum.splits if_splits bool.splits)

lemma check_agent_bypass_calls:
  "set (snd (snd (check_agent_bypass h))) \<subseteq> {CTakeApproval}"
  by (auto simp: check_agent_bypass_def Let_def query_agent_def
      split: option.splits sum.splits if_splits bool.splits)

lemma handle_headless_code:
  "fst (handle_headless h cfg svc user) =
     (case headless_action cfg of HAllow \<Rightarrow> PAM_SUCCESS | HDeny \<Rightarrow> PAM_AUTH_ERR | HPassword \<Rightarrow> PAM_IGNORE)"
  by (simp add: handle_headless_def Let_def split: headless_action.splits)

lemma check_policy_code:
  "map_option fst (check_policy h cfg svc user process uid) =
     (case decide (policy cfg) (pi_policy_exe process) None of
        PAllow \<Rightarrow> Some PAM_SUCCESS | PDeny \<Rightarrow> Some PAM_AUTH_ERR | PAsk \<Rightarrow> None)"
  by (simp add: check_policy_def Let_def split: policy_decision.splits)

lemma spawn_dialog_code:
  "fst (spawn_dialog h req) =
     (case dialog_result h req of
        Inr v \<Rightarrow> if is_allow (v_outcome v) then (PAM_SUCCESS, v_remember v) else (PAM_AUTH_ERR, False)
      | Inl _ \<Rightarrow> (PAM_AUTH_ERR, False))"
  by (simp add: spawn_dialog_def Let_def)

text \<open>The interactive part of a run, by whether a grant was found.\<close>

abbreviation pam_run_interactive :: "'p pam_host \<Rightarrow> pam_code \<times> log_record list \<times> pam_call list" where
  "pam_run_interactive h \<equiv>
     authenticate_interactive h (pam_cfg h) (pam_service h) (resolve_user h (pam_uid h)) (pam_process h) (pam_uid h)"

definition pam_asked :: "'p pam_host \<Rightarrow> pam_call list" where
  "pam_asked h =
     (case pam_key h of
        Some k \<Rightarrow> if 0 < remember_seconds (pam_cfg h)
                  then [CBroker (CheckRemember \<lparr>q_key = k, q_ttl_secs = remember_seconds (pam_cfg h)\<rparr>)]
                  else []
      | None \<Rightarrow> [])"

definition pam_ticked :: "'p pam_host \<Rightarrow> bool" where
  "pam_ticked h \<longleftrightarrow> snd (fst (spawn_dialog h (pam_request h))) \<and> 0 < remember_seconds (pam_cfg h)"

lemma pam_run_interactive_remembered:
  assumes "remembered h"
  shows "fst (pam_run_interactive h) = PAM_SUCCESS" "snd (snd (pam_run_interactive h)) = pam_asked h"
  using assms
  by (auto simp: authenticate_interactive_def remembered_def pam_asked_def Let_def
      simp flip: pam_key_def split: option.splits)

lemma pam_run_interactive_dialog:
  assumes "\<not> remembered h"
  shows "fst (pam_run_interactive h) = fst (fst (spawn_dialog h (pam_request h)))"
    and "snd (snd (pam_run_interactive h)) =
      pam_asked h @ [CDialog (pam_request h)] @
      (case pam_key h of Some k \<Rightarrow> if pam_ticked h then [CBroker (RecordRemember k)] else [] | None \<Rightarrow> [])"
  using assms
  by (auto simp: authenticate_interactive_def remembered_def pam_asked_def pam_ticked_def Let_def
      pam_request_def [of h] case_prod_beta simp flip: pam_key_def split: option.splits)

lemma pam_run_interactive_code:
  "fst (pam_run_interactive h) = (if remembered h \<or> dialog_allows h then PAM_SUCCESS else PAM_AUTH_ERR)"
  using pam_run_interactive_remembered(1) [of h] pam_run_interactive_dialog(1) [of h]
  by (cases "remembered h") (auto simp: spawn_dialog_code dialog_allows_def split: sum.splits)

lemma sm_authenticate_code: "pr_code (sm_authenticate h) = pam_decision h"
proof -
  obtain rc log calls where b: "check_agent_bypass h = (rc, log, calls)" by (metis prod.collapse)
  then have rc: "rc = (if agent_approved h then Some PAM_SUCCESS else None)"
    using check_agent_bypass_code [of h] by simp
  show ?thesis
    using check_policy_code [of h "pam_cfg h" "pam_service h" "resolve_user h (pam_uid h)" "pam_process h" "pam_uid h"]
      handle_headless_code [of h "pam_cfg h" "pam_service h" "resolve_user h (pam_uid h)"]
      pam_run_interactive_code [of h]
    by (auto simp: sm_authenticate_def b rc pam_decision_def Let_def pam_display_def pam_policy_def case_prod_beta
        simp flip: pam_cfg_def pam_uid_def pam_process_def split: option.splits policy_decision.splits)
qed

lemma sm_authenticate_calls:
  "pr_calls (sm_authenticate h) =
     snd (snd (check_agent_bypass h)) @ (if pam_interactive h then snd (snd (pam_run_interactive h)) else [])"
proof -
  obtain rc log calls where b: "check_agent_bypass h = (rc, log, calls)" by (metis prod.collapse)
  then have rc: "rc = (if agent_approved h then Some PAM_SUCCESS else None)"
    using check_agent_bypass_code [of h] by simp
  show ?thesis
    using check_policy_code [of h "pam_cfg h" "pam_service h" "resolve_user h (pam_uid h)" "pam_process h" "pam_uid h"]
    by (auto simp: sm_authenticate_def b rc pam_interactive_def Let_def pam_display_def pam_policy_def case_prod_beta
        simp flip: pam_cfg_def pam_uid_def pam_process_def split: option.splits policy_decision.splits)
qed

text \<open>The key of a request is always one the broker accepts.\<close>

lemma pam_key_bindable:
  assumes "pam_key h = Some k"
  shows "is_bindable k \<and> service k = pam_service h \<and> remember_eligible_command (command k)"
proof -
  from assms obtain c where c: "pi_remember_command (pam_process h) = Some c"
    and k: "loginuid k \<noteq> u32_max" "sessionid k \<noteq> u32_max" "service k = pam_service h"
      "command k = remember_key_command c (remember_scope (pam_cfg h))"
    by (auto simp: pam_key_def remember_key_of_def split: if_splits)
  from c have "remember_eligible_command c" using for_pid_remember by (auto simp: pam_process_def)
  with k show ?thesis
    by (simp add: is_bindable_def remember_key_not_Nil remember_key_eligible)
qed

lemma pam_broker_calls:
  assumes "CBroker req \<in> set (pr_calls (sm_authenticate h))"
  shows "pam_interactive h \<and>
     (\<exists>k. pam_key h = Some k \<and> 0 < remember_seconds (pam_cfg h) \<and>
        (req = CheckRemember \<lparr>q_key = k, q_ttl_secs = remember_seconds (pam_cfg h)\<rparr> \<or>
         (req = RecordRemember k \<and> \<not> remembered h \<and> pam_ticked h)))"
proof -
  have "pam_interactive h" and c: "CBroker req \<in> set (snd (snd (pam_run_interactive h)))"
    using assms check_agent_bypass_calls [of h]
    by (auto simp: sm_authenticate_calls split: if_splits)
  moreover have "CBroker req \<in> set (pam_asked h) \<or> (\<not> remembered h \<and> pam_ticked h \<and>
      (\<exists>k. pam_key h = Some k \<and> req = RecordRemember k))"
    using c pam_run_interactive_remembered(2) [of h] pam_run_interactive_dialog(2) [of h]
    by (cases "remembered h") (auto split: option.splits if_splits)
  ultimately show ?thesis
    by (auto simp: pam_asked_def pam_ticked_def split: option.splits if_splits)
qed

lemma pam_ticked_Allow:
  "pam_ticked h \<Longrightarrow> \<exists>v. dialog_result h (pam_request h) = Inr v \<and> v_outcome v = Allow \<and> v_remember v"
  by (auto simp: pam_ticked_def spawn_dialog_code is_allow_def split: sum.splits if_splits)

subsection \<open>A concrete host\<close>

text \<open>
  A host on which \<open>sudo pacman -Syu\<close> is asked for by user 1000 in session 3, with a
  remember window of 300 seconds, no agent, and a dialog that answers \<open>reply\<close>.
\<close>

definition example_fs :: "byte list \<Rightarrow> fs" where
  "example_fs cmdline =
     \<lparr>read_file = map_of
        [(proc_path 42 ''cmdline'', cmdline),
         (proc_path 41 ''loginuid'', [49, 48, 48, 48]),
         (proc_path 41 ''sessionid'', [51])],
      read_link = (\<lambda>_. None)\<rparr>"

definition example_document :: "ustr list \<Rightarrow> document" where
  "example_document denied =
     document_defaults
       \<lparr>d_services := [lit ''sudo'' \<mapsto>
          \<lparr>o_enabled = None, o_timeout = None, o_randomize = None, o_remember_seconds = Some 300,
           o_remember_scope = None\<rparr>],
        d_policy := \<lparr>p_allow = [], p_deny = denied\<rparr>\<rparr>"

definition example_host :: "byte list \<Rightarrow> ustr list \<Rightarrow> (request \<Rightarrow> response option) \<Rightarrow> byte list \<Rightarrow> int pam_host" where
  "example_host cmdline denied broker reply =
     \<lparr>h_fs = example_fs cmdline, h_read_dir = (\<lambda>_. None), h_env = [lit ''WAYLAND_DISPLAY'' \<mapsto> [119]],
      h_getpid = 42, h_getppid = 41, h_getuid = 0, h_get_user = Some (lit ''ada''),
      h_item_service = Some [115, 117, 100, 111], h_item_user = None,
      h_from_uid = (\<lambda>_. Some example_passwd), h_from_name = (\<lambda>_. Some example_passwd),
      h_toml = (\<lambda>_. Inr (example_document denied)), h_config_read = (\<lambda>_. Inr []), h_config_path = [],
      h_agent_owner = Inl [], h_agent_take = Inl [], h_broker = broker, h_pipe_error = None, h_fork_error = None,
      h_poll_timeout = example_poll_timeout,
      h_parent = (\<lambda>_. \<lparr>pk_poll = (\<lambda>_. Inr 1), pk_read = (\<lambda>_. ReadOk reply)\<rparr>), h_latency_ms = 0\<rparr>"

abbreviation sudo_pacman :: "byte list" where
  "sudo_pacman \<equiv> [115, 117, 100, 111, 0, 112, 97, 99, 109, 97, 110, 0, 45, 83, 121, 117, 0]"

abbreviation sudo_bare :: "byte list" where
  "sudo_bare \<equiv> [115, 117, 100, 111, 0, 45, 105, 0]"

lemma example_service [simp]: "pam_service (example_host c d b r) = lit ''sudo''"
  by (simp add: pam_service_def example_host_def from_utf8_def utf8_step_def)

lemma example_not_approved [simp]: "\<not> agent_approved (example_host c d b r)"
  by (simp add: agent_approved_def bypass_user_def example_host_def)

lemma example_cfg:
  "enabled (pam_cfg (example_host c d b r)) = True"
  "remember_seconds (pam_cfg (example_host c d b r)) = 300"
  "remember_scope (pam_cfg (example_host c d b r)) = ScopeCommand"
  "log_attempts (pam_cfg (example_host c d b r)) = True"
  "policy (pam_cfg (example_host c d b r)) = \<lparr>p_allow = [], p_deny = d\<rparr>"
proof -
  have "pam_cfg (example_host c d b r) = for_service (example_document d) (lit ''sudo'')"
    unfolding pam_cfg_def example_service
    by (simp add: example_host_def load_config_def load_from_def)
  then show "enabled (pam_cfg (example_host c d b r)) = True"
    "remember_seconds (pam_cfg (example_host c d b r)) = 300"
    "remember_scope (pam_cfg (example_host c d b r)) = ScopeCommand"
    "log_attempts (pam_cfg (example_host c d b r)) = True"
    "policy (pam_cfg (example_host c d b r)) = \<lparr>p_allow = [], p_deny = d\<rparr>"
    by (simp_all add: for_service_def example_document_def base_config_def apply_override_simps
        document_defaults_def general_default_def)
qed

lemma example_display [simp]: "pam_display (example_host c d b r)"
  by (simp add: pam_display_def detect_for_user_def env_var_def example_host_def from_utf8_def utf8_step_def)

lemma proc_path_eq:
  "proc_path 42 ''cmdline'' = lit ''/proc/42/cmdline''" "proc_path 41 ''loginuid'' = lit ''/proc/41/loginuid''"
  "proc_path 41 ''sessionid'' = lit ''/proc/41/sessionid''"
  by (simp_all add: proc_path_def show_int_def show_nat.simps)

lemma example_cmdline:
  "read_cmdline (example_fs sudo_pacman) 42 = Some (lit ''sudo pacman -Syu'')"
  "read_cmdline (example_fs sudo_bare) 42 = Some (lit ''sudo -i'')"
  by (simp_all add: read_cmdline_def example_fs_def cmdline_parts_def from_utf8_lossy_def utf8_step_def)

lemma example_process:
  "pi_remember_command (pam_process (example_host sudo_pacman d b r)) = Some (lit ''pacman -Syu'')"
  "pi_policy_exe (pam_process (example_host sudo_pacman d b r)) = Some (lit ''pacman'')"
proof -
  have s: "strip_elevation_prefix (lit ''sudo pacman -Syu'') = lit ''pacman -Syu''"
    "remember_command_for (lit ''pacman -Syu'') = Some (lit ''pacman -Syu'')"
    "split_whitespace (lit ''pacman -Syu'') = map lit [''pacman'', ''-Syu'']"
    by (simp_all add: str_eval remember_command_for_def)
  have "resolve_target w p raw (lit ''sudo pacman -Syu'') =
      (lit ''pacman'', lit ''pacman -Syu'', Some (lit ''pacman -Syu''), Some (lit ''pacman''))" for w p raw
    unfolding resolve_target_def Let_def s by simp
  then show "pi_remember_command (pam_process (example_host sudo_pacman d b r)) = Some (lit ''pacman -Syu'')"
    "pi_policy_exe (pam_process (example_host sudo_pacman d b r)) = Some (lit ''pacman'')"
    by (simp_all add: pam_process_def for_pid_def example_host_def example_cmdline del: lit_simps)
qed

lemma example_pam_key: "pam_key (example_host sudo_pacman d b r) = Some example_key"
proof -
  have "read_proc_u32 (h_fs (example_host sudo_pacman d b r)) (h_getppid (example_host sudo_pacman d b r)) ''loginuid'' = 1000"
    "read_proc_u32 (h_fs (example_host sudo_pacman d b r)) (h_getppid (example_host sudo_pacman d b r)) ''sessionid'' = 3"
    by (simp_all add: example_host_def example_fs_def read_proc_u32_def read_to_string_def proc_path_eq
        from_utf8_def utf8_step_def str_eval)
  then show ?thesis
    unfolding pam_key_def example_process example_service remember_key_of_def
    by (simp add: example_cfg example_key_def remember_key_command_def str_eval)
qed

lemma example_interactive: "pam_interactive (example_host sudo_pacman [] b r)"
  by (simp add: pam_interactive_def pam_policy_def example_cfg decide_def list_matches_def)

lemma example_dialog:
  "dialog_result (example_host c d b r) req =
     (if r = [] then Inl (lit ''helper produced no output'') else Inr (verdict_of_bytes r))"
  by (simp add: dialog_result_def example_host_def run_helper_def parent_wait_def)

subsection \<open>Audit\<close>

text \<open>A line whose text starts with a given event, whatever its level.\<close>

definition has_event :: "string \<Rightarrow> log_record list \<Rightarrow> bool" where
  "has_event ev log \<longleftrightarrow> (\<exists>(l, line)\<in>set log. starts_with (lit ev) line)"

lemma has_event_append [simp]: "has_event ev (xs @ ys) \<longleftrightarrow> has_event ev xs \<or> has_event ev ys"
  by (auto simp: has_event_def)

lemma has_event_Nil [simp]: "\<not> has_event ev []"
  by (simp add: has_event_def)

lemma has_event_Cons [simp]: "has_event ev ((l, line) # xs) \<longleftrightarrow> starts_with (lit ev) line \<or> has_event ev xs"
  by (auto simp: has_event_def)

lemma has_event_if [simp]: "has_event ev (if b then xs else ys) \<longleftrightarrow> (if b then has_event ev xs else has_event ev ys)"
  by simp

lemma load_from_no_event [simp]:
  "\<not> has_event ''event='' (snd (load_from f r p))"
  by (auto simp: load_from_def starts_with_def split: sum.splits io_error.splits)

lemma event_prefix: "starts_with (lit (''event='' @ e)) line \<Longrightarrow> starts_with (lit ''event='') line"
  by (auto simp: starts_with_iff lit_def)

lemma no_event_prefix: "\<not> has_event ''event='' log \<Longrightarrow> \<not> has_event (''event='' @ e) log"
  using event_prefix by (fastforce simp: has_event_def simp del: lit_simps)

abbreviation has_allow :: "log_record list \<Rightarrow> bool" where
  "has_allow \<equiv> has_event ''event=auth.allow''"

lemma load_from_no_allow [simp]: "\<not> has_allow (snd (load_from f r p))"
  using no_event_prefix [of "snd (load_from f r p)" "''auth.allow''"] by simp

lemma bypass_allow_log: "has_allow (fst (snd (check_agent_bypass h))) \<longleftrightarrow> agent_approved h"
  by (auto simp: check_agent_bypass_def Let_def query_agent_def agent_approved_def starts_with_def
      split: option.splits sum.splits bool.splits)

lemma headless_allow_log:
  "log_attempts cfg \<Longrightarrow>
     has_allow (snd (handle_headless h cfg svc user)) \<longleftrightarrow> fst (handle_headless h cfg svc user) = PAM_SUCCESS"
  by (auto simp: handle_headless_def Let_def starts_with_def split: headless_action.splits)

lemma policy_allow_log:
  "log_attempts cfg \<Longrightarrow> check_policy h cfg svc user process uid = Some (rc, log) \<Longrightarrow>
     has_allow log \<longleftrightarrow> rc = PAM_SUCCESS"
  by (auto simp: check_policy_def Let_def starts_with_def split: policy_decision.splits)

lemma record_remember_no_allow: "\<not> has_allow (map (\<lambda>m. (LWarn, m)) (record_remember b k))"
  by (auto simp: record_remember_def starts_with_def split: option.splits response.splits)

lemma dialog_allow_log:
  "log_attempts (hr_cfg req) \<Longrightarrow>
     has_allow (snd (spawn_dialog h req)) \<longleftrightarrow> fst (fst (spawn_dialog h req)) = PAM_SUCCESS"
proof -
  assume l: "log_attempts (hr_cfg req)"
  show ?thesis
  proof (cases "dialog_result h req")
    case (Inl e)
    then show ?thesis by (simp add: spawn_dialog_def dialog_log_def l starts_with_def)
  next
    case (Inr v)
    then show ?thesis
      by (cases "v_outcome v") (simp_all add: spawn_dialog_def dialog_log_def l starts_with_def is_allow_def)
  qed
qed

lemma interactive_allow_log:
  assumes "log_attempts cfg"
  shows "has_allow (fst (snd (authenticate_interactive h cfg svc user process uid))) \<longleftrightarrow>
     fst (authenticate_interactive h cfg svc user process uid) = PAM_SUCCESS"
proof -
  have d: "has_allow (snd (spawn_dialog h (dialog_request cfg svc user process p uid secs))) \<longleftrightarrow>
      fst (fst (spawn_dialog h (dialog_request cfg svc user process p uid secs))) = PAM_SUCCESS" for p secs
    using assms by (intro dialog_allow_log) (simp add: dialog_request_def)
  have r: "starts_with (lit ''event=auth.allow'') (lit ''event=auth.allow source=remember'' @ rest)" for rest
    by (simp add: starts_with_def)
  show ?thesis
    using assms
    by (simp add: authenticate_interactive_def Let_def case_prod_beta d r record_remember_no_allow
        del: lit_simps split: option.split)
qed

lemma disabled_no_allow:
  "\<not> starts_with (lit ''event=auth.allow'') (lit ''pam_sentinel: disabled for service '' @ rest)"
  by (simp add: starts_with_def)

lemma sm_authenticate_log:
  assumes "log_attempts (pam_cfg h)"
  shows "has_allow (pr_log (sm_authenticate h)) \<longleftrightarrow> pr_code (sm_authenticate h) = PAM_SUCCESS"
proof -
  obtain rc log calls where b: "check_agent_bypass h = (rc, log, calls)" by (metis prod.collapse)
  then have rc: "rc = (if agent_approved h then Some PAM_SUCCESS else None)" and l: "has_allow log \<longleftrightarrow> agent_approved h"
    using check_agent_bypass_code [of h] bypass_allow_log [of h] by simp_all
  note hl = headless_allow_log [OF assms] and il = interactive_allow_log [OF assms] and pl = policy_allow_log [OF assms]
  show ?thesis
  proof (cases "agent_approved h")
    case True
    then show ?thesis by (simp add: sm_authenticate_def b rc l)
  next
    case False
    then show ?thesis
      by (auto simp: sm_authenticate_def b rc l Let_def case_prod_beta hl il disabled_no_allow simp flip: pam_cfg_def
          split: option.splits dest: pl simp del: lit_simps)
  qed
qed

subsection \<open>Properties\<close>

text \<open>C1. Exactly when the module lets a request in. Either the user's own agent hands out an approval
  (whatever the service), or the service is enabled and: without a display the administrator
  chose to allow; with one, the policy allows the elevated program, or the policy asks and
  the broker reports a live grant for the request's key or the dialog answers Allow. Nothing
  else, and no error of any of them, yields success.\<close>

theorem authenticate_success_iff:
  "pr_code (sm_authenticate h) = PAM_SUCCESS \<longleftrightarrow>
     agent_approved h \<or>
     enabled (pam_cfg h) \<and>
       (if pam_display h
        then decide (policy (pam_cfg h)) (pi_policy_exe (pam_process h)) None = PAllow \<or>
             decide (policy (pam_cfg h)) (pi_policy_exe (pam_process h)) None = PAsk \<and> (remembered h \<or> dialog_allows h)
        else headless_action (pam_cfg h) = HAllow)"
  by (auto simp: sm_authenticate_code pam_decision_def pam_policy_def
      split: headless_action.splits policy_decision.splits)





text \<open>C15. Fail closed: when a request has to be asked for, and the broker does not explicitly report a
  live grant, and the dialog fails in any way, the request is refused and nothing is recorded.\<close>

theorem interactive_fail_closed:
  assumes "pam_interactive h" "\<forall>req. h_broker h req \<noteq> Some (Remember True)"
    "dialog_result h (pam_request h) = Inl e"
  shows "pr_code (sm_authenticate h) = PAM_AUTH_ERR \<and>
     (\<forall>k. CBroker (RecordRemember k) \<notin> set (pr_calls (sm_authenticate h)))"
proof -
  have "\<not> remembered h" "\<not> dialog_allows h"
    using assms(2,3) by (auto simp: remembered_def check_remember_def dialog_allows_def split: option.splits)
  moreover have "\<not> pam_ticked h" using pam_ticked_Allow assms(3) by fastforce
  ultimately show ?thesis
    using assms(1) pam_broker_calls [of "RecordRemember _" h]
    by (auto simp: sm_authenticate_code pam_decision_def pam_interactive_def)
qed

theorem interactive_fail_closed_witness:
  "pr_code (sm_authenticate (example_host sudo_pacman [] (\<lambda>_. Some (Error [])) [])) = PAM_AUTH_ERR"
proof -
  let ?h = "example_host sudo_pacman [] (\<lambda>_. Some (Error [])) []"
  have "dialog_result ?h (pam_request ?h) = Inl (lit ''helper produced no output'')"
    by (simp add: example_dialog)
  moreover have "\<forall>req. h_broker ?h req \<noteq> Some (Remember True)" by (simp add: example_host_def)
  ultimately show ?thesis using interactive_fail_closed [OF example_interactive] by blast
qed

text \<open>A denied program is denied: when the policy denies the elevated program, the run is refused
  without a dialog and without a word to the broker, even if a grant is live.\<close>

theorem policy_deny_is_final:
  assumes "decide (policy (pam_cfg h)) (pi_policy_exe (pam_process h)) None = PDeny"
    "\<not> agent_approved h" "enabled (pam_cfg h)" "pam_display h"
  shows "pr_code (sm_authenticate h) = PAM_AUTH_ERR \<and> set (pr_calls (sm_authenticate h)) \<subseteq> {CTakeApproval}"
  using assms check_agent_bypass_calls [of h]
  by (simp add: sm_authenticate_code pam_decision_def sm_authenticate_calls pam_interactive_def pam_policy_def)

theorem policy_deny_is_final_witness:
  "pr_code (sm_authenticate (example_host sudo_pacman [lit ''pacman''] (\<lambda>_. Some (Remember True)) [65])) = PAM_AUTH_ERR"
proof -
  let ?h = "example_host sudo_pacman [lit ''pacman''] (\<lambda>_. Some (Remember True)) [65]"
  have "decide (policy (pam_cfg ?h)) (pi_policy_exe (pam_process ?h)) None = PDeny"
    unfolding example_process example_cfg
    by (simp add: decide_def list_matches_def entry_matches_def str_eval)
  then show ?thesis using policy_deny_is_final [of ?h] by (simp add: example_cfg)
qed

text \<open>The audit trail tells the truth: with logging on, a run leaves a line that starts with
  \<open>event=auth.allow\<close> exactly when it ends in success, whatever the user, the service, the
  process and the other programs put into the fields.\<close>

theorem audit_allow_iff_success:
  assumes "log_attempts (pam_cfg h)"
  shows "(\<exists>(l, line)\<in>set (pr_log (sm_authenticate h)). starts_with (lit ''event=auth.allow'') line) \<longleftrightarrow>
     pr_code (sm_authenticate h) = PAM_SUCCESS"
  using sm_authenticate_log [OF assms] by (simp add: has_event_def)

theorem audit_allow_iff_success_witness:
  "\<not> (\<exists>(l, line)\<in>set (pr_log (sm_authenticate (example_host sudo_bare [] (\<lambda>_. None) []))).
        starts_with (lit ''event=auth.allow'') line)"
proof -
  let ?h = "example_host sudo_bare [] (\<lambda>_. None) []"
  have "\<not> dialog_allows ?h" by (simp add: dialog_allows_def example_dialog)
  moreover have "\<not> remembered ?h"
    by (simp add: remembered_def check_remember_def example_host_def split: option.splits)
  moreover have "pam_policy ?h \<noteq> PAllow"
    by (simp add: pam_policy_def example_cfg decide_cases list_matches_def)
  ultimately have "pr_code (sm_authenticate ?h) \<noteq> PAM_SUCCESS"
    by (auto simp: sm_authenticate_code pam_decision_def split: policy_decision.splits headless_action.splits)
  then show ?thesis using audit_allow_iff_success [of ?h] by (simp add: example_cfg del: lit_simps)
qed

end
