(* ===== verification/Approval.thy ===== *)
theory Approval
  imports Logfmt Grant_Store "HOL-Library.Multiset"
begin

text \<open>
  The polkit agent's two pieces of shared state and the service that hands approvals out:
  the queue of one-shot approvals (\<open>sentinel-polkit-agent/src/approval_queue.rs\<close>), the
  remember cache (\<open>remember.rs\<close>) and \<open>TakeApproval\<close> (\<open>bypass_service.rs\<close>). Each
  operation runs under its structure's mutex, so operations of concurrent tasks follow one
  another; the clock is an argument.

  The locale states the contract of an approval channel in terms of the approvals that
  are live at an instant; its lemmas say what any sequence of operations can hand out.
\<close>

subsection \<open>The approval queue\<close>

definition DEFAULT_TTL :: duration where
  "DEFAULT_TTL = from_secs 1"

record approval =
  action_id :: ustr
  expires_at :: instant

record approval_queue =
  q_inner :: "approval list"

definition queue_new :: approval_queue where
  "queue_new = \<lparr>q_inner = []\<rparr>"

definition push :: "approval_queue \<Rightarrow> ustr \<Rightarrow> instant \<Rightarrow> approval_queue" where
  "push q action now =
     q\<lparr>q_inner := q_inner q @ [\<lparr>action_id = action, expires_at = now + DEFAULT_TTL\<rparr>]\<rparr>"

text \<open>The \<open>while let\<close> loop of \<open>take_one\<close>: expired entries at the front are dropped.\<close>

fun take_loop :: "instant \<Rightarrow> approval list \<Rightarrow> approval option \<times> approval list" where
  "take_loop now [] = (None, [])"
| "take_loop now (front # rest) =
     (if expires_at front > now then (Some front, rest) else take_loop now rest)"

definition take_one :: "approval_queue \<Rightarrow> instant \<Rightarrow> approval option \<times> approval_queue" where
  "take_one q now = (let (r, rest) = take_loop now (q_inner q) in (r, q\<lparr>q_inner := rest\<rparr>))"

definition drain :: "approval_queue \<Rightarrow> approval_queue" where
  "drain q = q\<lparr>q_inner := []\<rparr>"

subsection \<open>\<open>TakeApproval\<close>\<close>

definition take_approval :: "approval_queue \<Rightarrow> instant \<Rightarrow> bool \<times> approval_queue \<times> log_record list" where
  "take_approval q now =
     (case take_one q now of
        (Some a, q1) \<Rightarrow>
          (True, q1,
           [(LInfo, lit ''event=auth.allow source=agent.bypass'' @ field ''action'' (action_id a))])
      | (None, q1) \<Rightarrow>
          (False, q1,
           [(LWarn, lit ''agent.bypass: TakeApproval with no pending approval; replying false'')]))"

subsection \<open>The remember cache\<close>

definition MAX_REMEMBER_CACHE :: duration where
  "MAX_REMEMBER_CACHE = from_secs 900"

record remember_cache =
  rc_inner :: "ustr \<rightharpoonup> instant"

definition cache_new :: remember_cache where
  "cache_new = \<lparr>rc_inner = Map.empty\<rparr>"

definition cache_key :: "ustr \<Rightarrow> ustr \<Rightarrow> ustr" where
  "cache_key action command = action @ [0] @ command"

definition cache_is_fresh :: "remember_cache \<Rightarrow> ustr \<Rightarrow> ustr \<Rightarrow> u32 \<Rightarrow> instant \<Rightarrow> bool" where
  "cache_is_fresh c action command ttl_secs now =
     (if ttl_secs = 0 then False
      else
        (let ttl = min (from_secs (unat ttl_secs)) MAX_REMEMBER_CACHE
         in case rc_inner c (cache_key action command) of
              None \<Rightarrow> False
            | Some t \<Rightarrow> elapsed now t < ttl))"

definition cache_remember :: "remember_cache \<Rightarrow> ustr \<Rightarrow> ustr \<Rightarrow> instant \<Rightarrow> remember_cache" where
  "cache_remember c action command now =
     (let pruned = retain (\<lambda>_ t. elapsed now t < MAX_REMEMBER_CACHE) (rc_inner c)
      in c\<lparr>rc_inner := pruned(cache_key action command \<mapsto> now)\<rparr>)"

subsection \<open>The contract of an approval channel\<close>

datatype 'a channel_op = QPush 'a | QTake | QDrain

locale approval_channel =
  fixes empty :: 's
    and put :: "'s \<Rightarrow> 'a \<Rightarrow> instant \<Rightarrow> 's"
    and get :: "'s \<Rightarrow> instant \<Rightarrow> 'a option \<times> 's"
    and clear :: "'s \<Rightarrow> 's"
    and live :: "'s \<Rightarrow> instant \<Rightarrow> 'a list"
    and ttl :: duration
  assumes live_empty: "live empty now = []"
    and live_put:
      "t \<le> now \<Longrightarrow> live (put q a t) now = live q now @ (if now < t + ttl then [a] else [])"
    and live_clear: "live (clear q) now = []"
    and live_mono: "t \<le> now \<Longrightarrow> mset (live q now) \<subseteq># mset (live q t)"
    and get_Some: "get q t = (Some a, q') \<Longrightarrow> live q t = a # live q' t"
    and get_None: "get q t = (None, q') \<Longrightarrow> live q t = []"
    and live_get: "\<lbrakk>get q t = (r, q'); t \<le> now\<rbrakk> \<Longrightarrow> mset (live q' now) \<subseteq># mset (live q now)"
begin

fun exec :: "(instant \<times> 'a channel_op) list \<Rightarrow> 's \<Rightarrow> 'a list \<times> 's" where
  "exec [] q = ([], q)"
| "exec ((t, QPush a) # ops) q = exec ops (put q a t)"
| "exec ((t, QDrain) # ops) q = exec ops (clear q)"
| "exec ((t, QTake) # ops) q =
     (case get q t of
        (None, q') \<Rightarrow> exec ops q'
      | (Some a, q') \<Rightarrow> (let (as, q'') = exec ops q' in (a # as, q'')))"

fun pushed :: "(instant \<times> 'a channel_op) list \<Rightarrow> 'a list" where
  "pushed [] = []"
| "pushed ((t, QPush a) # ops) = a # pushed ops"
| "pushed (_ # ops) = pushed ops"

text \<open>One-shot: nothing is handed out more often than it was pushed.\<close>

lemma exec_one_shot_from:
  assumes "sorted (map fst ops)" "\<forall>(t, x)\<in>set ops. t0 \<le> t"
  shows "mset (fst (exec ops q)) \<subseteq># mset (live q t0) + mset (pushed ops)"
  using assms
proof (induction ops arbitrary: q t0)
  case (Cons e ops)
  obtain t x where e: "e = (t, x)" by force
  have t0: "t0 \<le> t" and after: "\<forall>(u, y)\<in>set ops. t \<le> u" and s: "sorted (map fst ops)"
    using Cons.prems e by auto
  note ih = Cons.IH [OF s after]
  note mono = live_mono [OF t0, of q]
  show ?case
  proof (cases x)
    case (QPush a)
    have "mset (live q t) + (if t < t + ttl then {#a#} else {#}) \<subseteq># mset (live q t0) + {#a#}"
      by (rule subset_mset.add_mono [OF mono]) simp
    then have "mset (live (put q a t) t) \<subseteq># mset (live q t0) + {#a#}"
      by (simp add: live_put split: if_splits)
    then have "mset (live (put q a t) t) + mset (pushed ops) \<subseteq># (mset (live q t0) + {#a#}) + mset (pushed ops)"
      by (rule subset_mset.add_right_mono)
    with ih [of "put q a t"] have "mset (fst (exec ops (put q a t))) \<subseteq># (mset (live q t0) + {#a#}) + mset (pushed ops)"
      by (rule subset_mset.order_trans)
    then show ?thesis by (simp add: e QPush)
  next
    case QTake
    show ?thesis
    proof (cases "get q t")
      case (Pair r q')
      show ?thesis
      proof (cases r)
        case None
        with Pair QTake ih [of q'] live_get [of q t r q' t] mono show ?thesis
          by (auto simp: e intro: subset_mset.order_trans subset_mset.add_mono)
      next
        case (Some a)
        with Pair have "live q t = a # live q' t" using get_Some by simp
        with mono have "add_mset a (mset (live q' t)) \<subseteq># mset (live q t0)" by simp
        then have "add_mset a (mset (live q' t) + mset (pushed ops)) \<subseteq># mset (live q t0) + mset (pushed ops)"
          by (metis mset_subset_eq_mono_add_right_cancel union_mset_add_mset_left)
        moreover have "add_mset a (mset (fst (exec ops q'))) \<subseteq># add_mset a (mset (live q' t) + mset (pushed ops))"
          using ih [of q'] by simp
        ultimately have "add_mset a (mset (fst (exec ops q'))) \<subseteq># mset (live q t0) + mset (pushed ops)"
          by (rule subset_mset.order_trans [rotated])
        moreover have "fst (exec (e # ops) q) = a # fst (exec ops q')"
          using Pair QTake Some by (simp add: e case_prod_beta)
        ultimately show ?thesis by (simp add: e QTake)
      qed
    qed
  next
    case QDrain
    with ih [of "clear q"] show ?thesis
      by (auto simp: e live_clear subset_mset.add_increasing)
  qed
qed simp

lemma exec_one_shot:
  assumes "sorted (map fst ops)"
  shows "mset (fst (exec ops empty)) \<subseteq># mset (pushed ops)"
  using exec_one_shot_from [OF assms, of 0 empty] by (simp add: live_empty)

lemma exec_append: "exec (ops @ ops') q =
    (fst (exec ops q) @ fst (exec ops' (snd (exec ops q))), snd (exec ops' (snd (exec ops q))))"
  by (induction ops q rule: exec.induct) (auto split: prod.splits option.splits)

text \<open>What is live was pushed within the time to live, and no drain came after.\<close>

lemma live_exec_provenance:
  assumes "sorted (map fst ops)" "\<forall>(t, x)\<in>set ops. t \<le> now" "a \<in> set (live (snd (exec ops empty)) now)"
  shows "\<exists>pre t post. ops = pre @ (t, QPush a) # post \<and> now < t + ttl \<and> (\<forall>(u, x)\<in>set post. x \<noteq> QDrain)"
  using assms
proof (induction ops rule: rev_induct)
  case Nil
  then show ?case by (simp add: live_empty)
next
  case (snoc e ops)
  obtain t x where e: "e = (t, x)" by force
  let ?q = "snd (exec ops empty)"
  have tn: "t \<le> now" and s: "sorted (map fst ops)" and le: "\<forall>(t, x)\<in>set ops. t \<le> now"
    using snoc.prems e by (auto simp: sorted_append)
  have step: ?case if "a \<in> set (live ?q now)" "x \<noteq> QDrain"
  proof -
    from snoc.IH [OF s le that(1)] obtain pre u post where
      "ops = pre @ (u, QPush a) # post" "now < u + ttl" "\<forall>(v, y)\<in>set post. y \<noteq> QDrain" by blast
    with that(2) have "ops @ [e] = pre @ (u, QPush a) # (post @ [e])" "\<forall>(v, y)\<in>set (post @ [e]). y \<noteq> QDrain"
      by (auto simp: e)
    with \<open>now < u + ttl\<close> show ?thesis by blast
  qed
  show ?case
  proof (cases x)
    case (QPush b)
    then consider "a \<in> set (live ?q now)" | "a = b" "now < t + ttl"
      using snoc.prems(3) tn by (auto simp: e exec_append live_put split: if_splits)
    then show ?thesis
    proof cases
      case 2
      with QPush have "ops @ [e] = ops @ (t, QPush a) # []" by (simp add: e)
      with 2 show ?thesis by (metis empty_iff list.set(1))
    qed (use QPush step in simp)
  next
    case QTake
    obtain r q' where g: "get ?q t = (r, q')" by force
    then have "set (live q' now) \<subseteq> set (live ?q now)"
      using live_get [OF g tn] set_mset_mono by fastforce
    moreover have "snd (exec (ops @ [e]) empty) = q'"
      using QTake g by (auto simp: e exec_append split: option.splits)
    ultimately show ?thesis using step snoc.prems(3) QTake by auto
  next
    case QDrain
    then show ?thesis using snoc.prems(3) by (simp add: e exec_append live_clear)
  qed
qed

lemma get_provenance:
  assumes "sorted (map fst ops)" "\<forall>(t, x)\<in>set ops. t \<le> now"
    and "get (snd (exec ops empty)) now = (Some a, q')"
  shows "\<exists>pre t post. ops = pre @ (t, QPush a) # post \<and> now < t + ttl \<and> (\<forall>(u, x)\<in>set post. x \<noteq> QDrain)"
  using live_exec_provenance [OF assms(1,2)] get_Some [OF assms(3)] by simp

end

subsection \<open>The queue implements the contract\<close>

text \<open>The reference view of a queue: the action ids of the entries that have not expired.\<close>

definition live_ids :: "approval_queue \<Rightarrow> instant \<Rightarrow> ustr list" where
  "live_ids q now = map action_id (filter (\<lambda>a. expires_at a > now) (q_inner q))"

definition take_id :: "approval_queue \<Rightarrow> instant \<Rightarrow> ustr option \<times> approval_queue" where
  "take_id q now = (case take_one q now of (r, q') \<Rightarrow> (map_option action_id r, q'))"

lemma take_loop_live:
  "take_loop now as = (r, as') \<Longrightarrow>
     filter (\<lambda>a. expires_at a > now) as =
       (case r of None \<Rightarrow> [] | Some a \<Rightarrow> a # filter (\<lambda>a. expires_at a > now) as')"
  by (induction now as rule: take_loop.induct) (auto split: if_splits)

lemma take_loop_Some_live: "take_loop now as = (Some a, as') \<Longrightarrow> now < expires_at a"
  by (induction now as rule: take_loop.induct) (auto split: if_splits)

lemma take_loop_None: "take_loop now as = (None, as') \<Longrightarrow> as' = []"
  by (induction now as rule: take_loop.induct) (auto split: if_splits)

lemma take_loop_mset: "take_loop now as = (r, as') \<Longrightarrow> mset as' \<subseteq># mset as"
proof (induction now as rule: take_loop.induct)
  case (2 now front rest)
  then show ?case
    by (cases "expires_at front > now") (auto intro: subset_mset.order_trans)
qed simp

lemma live_ids_simps [queue_simps]:
  "live_ids queue_new now = []"
  "live_ids (drain q) now = []"
  "live_ids (push q a t) now = live_ids q now @ (if now < t + DEFAULT_TTL then [a] else [])"
  by (simp_all add: live_ids_def queue_new_def drain_def push_def)

lemma live_ids_take:
  assumes "take_id q now = (r, q')"
  shows "live_ids q now = (case r of None \<Rightarrow> [] | Some a \<Rightarrow> a # live_ids q' now)"
    and "mset (q_inner q') \<subseteq># mset (q_inner q)"
proof -
  obtain r' as' where l: "take_loop now (q_inner q) = (r', as')" by force
  with assms have "r = map_option action_id r'" "q_inner q' = as'"
    by (auto simp: take_id_def take_one_def)
  with take_loop_live [OF l] take_loop_mset [OF l]
  show "live_ids q now = (case r of None \<Rightarrow> [] | Some a \<Rightarrow> a # live_ids q' now)"
    and "mset (q_inner q') \<subseteq># mset (q_inner q)"
    by (auto simp: live_ids_def split: option.splits)
qed

lemma mset_live_ids:
  "mset (live_ids q now) = image_mset action_id (filter_mset (\<lambda>a. expires_at a > now) (mset (q_inner q)))"
  by (simp add: live_ids_def flip: mset_filter mset_map)

interpretation queue: approval_channel queue_new push take_id drain live_ids DEFAULT_TTL
proof unfold_locales
  fix q :: approval_queue and t now :: instant
  assume "t \<le> now"
  then have "filter_mset (\<lambda>a. expires_at a > now) (mset (q_inner q)) \<subseteq>#
      filter_mset (\<lambda>a. expires_at a > t) (mset (q_inner q))"
    by (intro filter_mset_mono_strong) auto
  then show "mset (live_ids q now) \<subseteq># mset (live_ids q t)"
    by (simp add: mset_live_ids image_mset_subseteq_mono)
next
  fix q r q' and t now :: instant
  assume "take_id q t = (r, q')"
  then have "mset (q_inner q') \<subseteq># mset (q_inner q)" by (rule live_ids_take)
  then show "mset (live_ids q' now) \<subseteq># mset (live_ids q now)"
    by (simp add: mset_live_ids image_mset_subseteq_mono multiset_filter_mono)
qed (auto simp: queue_simps dest: live_ids_take(1))

lemma take_approval_iff:
  "take_approval q now =
     (case take_id q now of
        (None, q') \<Rightarrow> (False, q', [(LWarn, lit ''agent.bypass: TakeApproval with no pending approval; replying false'')])
      | (Some a, q') \<Rightarrow> (True, q', [(LInfo, lit ''event=auth.allow source=agent.bypass'' @ field ''action'' a)]))"
  by (auto simp: take_approval_def take_id_def split: prod.splits option.splits)

subsection \<open>The cache implements the contract of a remember store\<close>

lemma cache_is_fresh_iff [fresh_simps]:
  "cache_is_fresh c a cmd ttl now \<longleftrightarrow>
     (\<exists>t. rc_inner c (cache_key a cmd) = Some t \<and> elapsed now t < window MAX_REMEMBER_CACHE ttl)"
  by (auto simp: cache_is_fresh_def window_def split: option.splits)

lemma rc_inner_remember [fresh_simps]:
  "rc_inner (cache_remember c a cmd now) =
     (retain (\<lambda>_ t. elapsed now t < MAX_REMEMBER_CACHE) (rc_inner c))(cache_key a cmd \<mapsto> now)"
  by (simp add: cache_remember_def Let_def)

lemma cache_key_inj:
  assumes "0 \<notin> set a" "0 \<notin> set b"
  shows "cache_key a c = cache_key b d \<longleftrightarrow> a = b \<and> c = d"
  using append_sep_inj [OF assms] by (simp add: cache_key_def)

interpretation cache: bounded_grant_store cache_new "\<lambda>c k. cache_remember c (fst k) (snd k)"
  "\<lambda>c k. cache_is_fresh c (fst k) (snd k)" "\<lambda>k. 0 \<notin> set (fst k)"
  MAX_REMEMBER_CACHE "\<lambda>c. dom (rc_inner c)" "\<lambda>k. cache_key (fst k) (snd k)" rc_inner
proof unfold_locales
  fix c ttl and k k' :: "ustr \<times> ustr" and t now :: instant
  assume a: "0 \<notin> set (fst k)" "0 \<notin> set (fst k')" "k \<noteq> k'" "t \<le> now"
  then have "cache_key (fst k) (snd k) \<noteq> cache_key (fst k') (snd k')"
    by (auto simp: cache_key_inj prod_eq_iff)
  moreover have "elapsed t u < MAX_REMEMBER_CACHE" if "elapsed now u < window MAX_REMEMBER_CACHE ttl" for u
    using that window_le_cap [of MAX_REMEMBER_CACHE ttl] elapsed_mono [OF a(4), of u] by linarith
  ultimately show "cache_is_fresh (cache_remember c (fst k) (snd k) t) (fst k') (snd k') ttl now =
      cache_is_fresh c (fst k') (snd k') ttl now"
    by (auto simp: fresh_simps)
next
  fix c s and k :: "ustr \<times> ustr" and t :: instant
  show "rc_inner (cache_remember s (fst k) (snd k) t) c =
      (if c = cache_key (fst k) (snd k) then Some t
       else case rc_inner s c of None \<Rightarrow> None
            | Some u \<Rightarrow> if elapsed t u < MAX_REMEMBER_CACHE then Some u else None)"
    by (simp add: fresh_simps retain_def)
qed (auto simp: cache_new_def fresh_simps)

subsection \<open>Properties\<close>

text \<open>C28. Approvals are one-shot: over any sequence of pushes, takes and drains in the order of the
  clock, what is handed out, counted with repetition, is part of what was pushed.\<close>

theorem approval_queue_one_shot:
  assumes "sorted (map fst ops)"
  shows "mset (fst (queue.exec ops queue_new)) \<subseteq># mset (queue.pushed ops)"
  using assms by (rule queue.exec_one_shot)

theorem approval_queue_one_shot_witness:
  "mset (fst (queue.exec [(0, QPush (lit ''a'')), (1, QTake), (2, QTake)] queue_new)) \<subseteq># {#lit ''a''#}"
  using approval_queue_one_shot [of "[(0, QPush (lit ''a'')), (1, QTake), (2, QTake)]"] by simp

text \<open>Approvals are fresh: an approval that is handed out was pushed less than one second before,
  and no drain came between.\<close>

theorem approval_queue_fresh:
  assumes "sorted (map fst ops)" "\<forall>(t, x)\<in>set ops. t \<le> now"
    and "take_id (snd (queue.exec ops queue_new)) now = (Some a, q')"
  shows "\<exists>pre t post. ops = pre @ (t, QPush a) # post \<and> now < t + from_secs 1 \<and>
     (\<forall>(u, x)\<in>set post. x \<noteq> QDrain)"
  using queue.get_provenance [OF assms] by (simp add: DEFAULT_TTL_def)

theorem approval_queue_fresh_witness:
  "\<exists>pre t post. [(0, QDrain), (5, QPush (lit ''b''))] = pre @ (t, QPush (lit ''b'')) # post \<and> 7 < t + from_secs 1 \<and>
     (\<forall>(u, x)\<in>set post. x \<noteq> QDrain)"
proof (rule approval_queue_fresh)
  show "take_id (snd (queue.exec [(0, QDrain), (5, QPush (lit ''b''))] queue_new)) 7 = (Some (lit ''b''), queue_new)"
    by (simp add: take_id_def take_one_def push_def drain_def queue_new_def DEFAULT_TTL_def from_secs_def)
qed simp_all

text \<open>\<open>TakeApproval\<close> answers yes exactly when an approval is live, hands out the oldest one, and
  the audit line names the action it was pushed for.\<close>

theorem take_approval_oldest:
  "take_approval q now =
     (case live_ids q now of
        [] \<Rightarrow> (False, drain q, [(LWarn, lit ''agent.bypass: TakeApproval with no pending approval; replying false'')])
      | a # as \<Rightarrow> (True, snd (take_id q now), [(LInfo, lit ''event=auth.allow source=agent.bypass'' @ field ''action'' a)])) \<and>
   live_ids (snd (take_id q now)) now = tl (live_ids q now)"
proof -
  obtain r q' where t: "take_id q now = (r, q')" by force
  have "q' = drain q" if "r = None"
    using t that by (auto simp: take_id_def take_one_def drain_def Let_def dest: take_loop_None split: prod.splits)
  moreover have "live_ids (drain q) now = []" by (simp add: live_ids_def drain_def)
  ultimately show ?thesis
    using live_ids_take(1) [OF t] by (cases r) (simp_all add: take_approval_iff t del: lit_simps)
qed

text \<open>C29. The agent's cache answers like a log of its own grants, per action and command, with the same
  fifteen minute cap as the broker.\<close>

theorem cache_refines_history:
  assumes "sorted (map fst h)" "\<forall>(t, k)\<in>set h. t \<le> now \<and> 0 \<notin> set (fst k)" "0 \<notin> set action"
  shows "cache_is_fresh (cache.run h cache_new) action cmd ttl now \<longleftrightarrow>
     (\<exists>t. (t, (action, cmd)) \<in> set h \<and> elapsed now t < window (from_secs 900) ttl)"
  using cache.fresh_run [of h now "(action, cmd)" ttl] assms by (simp add: MAX_REMEMBER_CACHE_def)

theorem cache_refines_history_witness:
  "cache_is_fresh (cache.run [(0, (lit ''exec'', lit ''true''))] cache_new) (lit ''exec'') (lit ''true'') 300 5 \<and>
   \<not> cache_is_fresh (cache.run [(0, (lit ''exec'', lit ''true''))] cache_new) (lit ''exec'') (lit ''rm -rf /'') 300 5"
proof -
  let ?h = "[(0 :: instant, (lit ''exec'', lit ''true''))]"
  have "sorted (map fst ?h)" "\<forall>(t, k)\<in>set ?h. t \<le> 5 \<and> 0 \<notin> set (fst k)" "0 \<notin> set (lit ''exec'')" by simp_all
  from cache_refines_history [OF this] show ?thesis
    by (auto simp: elapsed_def window_def from_secs_def)
qed

end
