(* ===== verification/Agent_Session.thy ===== *)
theory Agent_Session
  imports Procfs Config Wire_Verdict Approval
begin

text \<open>
  One authentication in the polkit agent (\<open>sentinel-polkit-agent/src\<close>): which identity it
  answers for (\<open>identity.rs\<close>), the session it registers for (\<open>subject.rs\<close>), the dialog
  (\<open>helper_ui.rs\<close>), the hand-off to polkit's helper (\<open>helper1.rs\<close>), the session flow
  (\<open>session.rs\<close>) and how \<open>BeginAuthentication\<close> builds its inputs (\<open>agent.rs\<close>). What
  other processes do is a parameter: the lines they write, whether they answer in time,
  and for the hand-off what happens to the approval queue meanwhile.
\<close>

subsection \<open>Identities\<close>

text \<open>A D-Bus value, as far as an identity's \<open>uid\<close> field can be one.\<close>

datatype dbus_value = VU32 u32 | VString ustr | VOther

type_synonym identity = "ustr \<times> (ustr \<rightharpoonup> dbus_value)"

fun value_u32 :: "dbus_value \<Rightarrow> u32 option" where
  "value_u32 (VU32 n) = Some n"
| "value_u32 _ = None"

fun pick :: "identity list \<Rightarrow> u32 \<Rightarrow> u32 option" where
  "pick [] own_uid = None"
| "pick ((kind, details) # ids) own_uid =
     (if kind \<noteq> lit ''unix-user'' then pick ids own_uid
      else
        (case details (lit ''uid'') of
           None \<Rightarrow> pick ids own_uid
         | Some uid_val \<Rightarrow>
             (case value_u32 uid_val of
                None \<Rightarrow> pick ids own_uid
              | Some uid \<Rightarrow> if uid = own_uid then Some uid else pick ids own_uid)))"

subsection \<open>The subject\<close>

definition resolve_session_id :: "(string \<Rightarrow> ustr option) \<Rightarrow> fs \<Rightarrow> ustr option \<Rightarrow> ustr + ustr" where
  "resolve_session_id env w override_value =
     (case override_value of
        Some s \<Rightarrow> Inr s
      | None \<Rightarrow>
          (case option_filter (\<lambda>s. s \<noteq> []) (env ''XDG_SESSION_ID'') of
             Some s \<Rightarrow> Inr s
           | None \<Rightarrow>
               (case option_filter (\<lambda>s. s \<noteq> [] \<and> s \<noteq> lit ''4294967295'')
                       (map_option trim (read_to_string w (lit ''/proc/self/sessionid''))) of
                  Some s \<Rightarrow> Inr s
                | None \<Rightarrow> Inl 
                    (lit ''could not resolve session id; set XDG_SESSION_ID or pass --session-id. '' @
                     lit ''(Hint: this agent must run inside a graphical session '' @ [8212] @
                     lit '' typically autostarted by your compositor via /etc/xdg/autostart/.)''))))"

record subject =
  sub_kind :: ustr
  sub_details :: "ustr \<rightharpoonup> dbus_value"

definition current_subject :: "(string \<Rightarrow> ustr option) \<Rightarrow> fs \<Rightarrow> ustr option \<Rightarrow> ustr + subject" where
  "current_subject env w session_id_override =
     (case resolve_session_id env w session_id_override of
        Inl e \<Rightarrow> Inl e
      | Inr session_id \<Rightarrow>
          Inr \<lparr>sub_kind = lit ''unix-session'', sub_details = [lit ''session-id'' \<mapsto> VString session_id]\<rparr>)"

subsection \<open>The dialog\<close>

datatype helper_error = HSpawn ustr | HNoOutput | HTimeout | HIo ustr

definition HELPER_GRACE_SECS_UI :: nat where
  "HELPER_GRACE_SECS_UI = 5"

record ui_request =
  ui_title :: ustr
  ui_message :: ustr
  ui_secondary :: ustr
  ui_timeout :: nat
  ui_min_time :: nat
  ui_randomize :: bool
  ui_sound_name :: ustr
  ui_remember_secs :: u32
  ui_process_exe :: "ustr option"
  ui_process_cmdline :: "ustr option"
  ui_process_pid :: "pid option"
  ui_process_cwd :: "ustr option"
  ui_requesting_user :: "ustr option"
  ui_action :: "ustr option"

record auth_inputs =
  in_action_id :: ustr
  in_cookie :: ustr
  in_username :: ustr
  in_cfg :: service_config
  in_process_exe :: "ustr option"
  in_process_cmdline :: "ustr option"
  in_process_pid :: "pid option"
  in_process_cwd :: "ustr option"
  in_requesting_user :: "ustr option"

definition process_name_of :: "ustr option \<Rightarrow> ustr" where
  "process_name_of exe = unwrap_or (Option.bind exe process_basename) (lit ''unknown'')"

definition for_action :: "auth_inputs \<Rightarrow> u32 \<Rightarrow> ui_request" where
  "for_action i remember_secs =
     (let cfg = in_cfg i; process_name = process_name_of (in_process_exe i);
          fmt = (\<lambda>t. format_message t (in_username i) POLKIT_PAM_SERVICE process_name)
      in \<lparr>ui_title = fmt (title cfg),
          ui_message = fmt (message cfg),
          ui_secondary = fmt (secondary cfg),
          ui_timeout = unat (timeout cfg),
          ui_min_time = unat (min_display_time_ms cfg),
          ui_randomize = randomize_buttons cfg,
          ui_sound_name = sound_name cfg,
          ui_remember_secs = remember_secs,
          ui_process_exe = in_process_exe i,
          ui_process_cmdline = in_process_cmdline i,
          ui_process_pid = in_process_pid i,
          ui_process_cwd = in_process_cwd i,
          ui_requesting_user = in_requesting_user i,
          ui_action = Some (in_action_id i)\<rparr>)"

definition opt_arg :: "string \<Rightarrow> ustr option \<Rightarrow> ustr list" where
  "opt_arg flag v = (case v of Some x \<Rightarrow> [lit flag, x] | None \<Rightarrow> [])"

definition ui_argv :: "ui_request \<Rightarrow> ustr list" where
  "ui_argv r =
     [lit ''--title'', ui_title r, lit ''--message'', ui_message r, lit ''--secondary'', ui_secondary r,
      lit ''--timeout'', show_nat (ui_timeout r), lit ''--min-time'', show_nat (ui_min_time r),
      lit ''--remember-secs'', show_u32 (ui_remember_secs r)] @
     (if ui_sound_name r \<noteq> [] then [lit ''--sound-name'', ui_sound_name r] else []) @
     (if ui_randomize r then [lit ''--randomize''] else []) @
     opt_arg ''--process-exe'' (ui_process_exe r) @
     opt_arg ''--process-cmdline'' (ui_process_cmdline r) @
     opt_arg ''--process-pid'' (map_option show_int (ui_process_pid r)) @
     opt_arg ''--process-cwd'' (ui_process_cwd r) @
     opt_arg ''--requesting-user'' (ui_requesting_user r) @
     opt_arg ''--action'' (ui_action r)"

text \<open>
  What the spawned dialog does: the lines it prints (an error ends the stream, otherwise
  it ends after the last), and how long it takes until the reader is done. Debug lines of
  the test seam are left out.
\<close>

record ui_process =
  up_spawn_error :: "ustr option"
  up_lines :: "(ustr + ustr) list"
  up_elapsed :: duration

fun read_verdict :: "(ustr + ustr) list \<Rightarrow> helper_error + verdict option" where
  "read_verdict [] = Inr None"
| "read_verdict (Inl e # ls) = Inl (HIo e)"
| "read_verdict (Inr line # ls) =
     (case verdict_from_str line of Some v \<Rightarrow> Inr (Some v) | None \<Rightarrow> read_verdict ls)"

definition helper_ui_run ::
  "(string \<Rightarrow> ustr option) \<Rightarrow> (ustr list \<Rightarrow> ui_process) \<Rightarrow> ui_request \<Rightarrow> helper_error + verdict" where
  "helper_ui_run env spawn req =
     (case Option.bind (env ''SENTINEL_TEST_HELPER_OUTCOME'') verdict_from_str of
        Some v \<Rightarrow> Inr v
      | None \<Rightarrow>
          (let child = spawn (ui_argv req)
           in case up_spawn_error child of
                Some e \<Rightarrow> Inl (HSpawn e)
              | None \<Rightarrow>
                  if ui_timeout req > 0 \<and> from_secs (ui_timeout req + HELPER_GRACE_SECS_UI) < up_elapsed child
                  then Inl HTimeout
                  else
                    (case read_verdict (up_lines child) of
                       Inl e \<Rightarrow> Inl e
                     | Inr None \<Rightarrow> Inl HNoOutput
                     | Inr (Some v) \<Rightarrow> Inr v)))"

subsection \<open>Polkit's helper\<close>

definition HELPER1_TIMEOUT :: duration where
  "HELPER1_TIMEOUT = from_secs 10"

text \<open>What polkit's helper answers, and how long it takes until the session has its verdict.\<close>

record helper1_world =
  hw_env :: "string \<Rightarrow> ustr option"
  hw_socket_exists :: bool
  hw_connect_error :: "ustr option"
  hw_write_error :: "ustr option"
  hw_flush_error :: "ustr option"
  hw_reads :: "(ustr + ustr) list"
  hw_elapsed :: duration

text \<open>
  The read loop: each element is what \<open>read_line\<close> returns, the end of the list is end of
  file. The second component is what is sent back, one line feed per prompt. Its debug lines
  and warnings are left out.
\<close>

fun helper1_loop :: "(ustr + ustr) list \<Rightarrow> (ustr + bool option) \<times> ustr list" where
  "helper1_loop [] = (Inr None, [])"
| "helper1_loop (Inl e # reads) = (Inl (lit ''read helper-1''), [])"
| "helper1_loop (Inr line # reads) =
     (let trimmed = trim line
      in if line = [] then (Inr None, [])
         else if trimmed = [] then helper1_loop reads
         else
           (case strip_prefix (lit ''PAM_'') trimmed of
              Some rest \<Rightarrow>
                if starts_with (lit ''PROMPT_ECHO_OFF'') rest \<or> starts_with (lit ''PROMPT_ECHO_ON'') rest
                then (let (r, sent) = helper1_loop reads in (r, [10] # sent))
                else helper1_loop reads
            | None \<Rightarrow>
                if trimmed = lit ''SUCCESS'' then (Inr (Some True), [])
                else if trimmed = lit ''FAILURE'' then (Inr (Some False), [])
                else helper1_loop reads))"

definition helper1_inner :: "helper1_world \<Rightarrow> ustr \<Rightarrow> ustr \<Rightarrow> (ustr + bool) \<times> ustr list" where
  "helper1_inner hw username cookie =
     (if \<not> hw_socket_exists hw then
        (Inl (lit ''polkit helper socket /run/polkit/agent-helper.socket not found '' @ [8212] @
           lit '' this build only supports systemd-socket-activated polkit''), [])
      else
        (case hw_connect_error hw of
           Some e \<Rightarrow> (Inl (lit ''connect /run/polkit/agent-helper.socket''), [])
         | None \<Rightarrow>
             (case hw_write_error hw of
                Some e \<Rightarrow> (Inl (lit ''write user/cookie''), [])
              | None \<Rightarrow>
                  (let hello = username @ [10] @ cookie @ [10]
                   in case hw_flush_error hw of
                        Some e \<Rightarrow> (Inl (lit ''flush''), [hello])
                      | None \<Rightarrow>
                          (let (r, sent) = helper1_loop (hw_reads hw)
                           in (map_sum id (\<lambda>v. unwrap_or v False) r, hello # sent))))))"

definition helper1_run :: "helper1_world \<Rightarrow> ustr \<Rightarrow> ustr \<Rightarrow> ustr + bool" where
  "helper1_run hw username cookie =
     (case hw_env hw ''SENTINEL_TEST_HELPER1_OUTCOME'' of
        Some canned \<Rightarrow> Inr (canned = lit ''SUCCESS'')
      | None \<Rightarrow> if HELPER1_TIMEOUT < hw_elapsed hw then Inr False else fst (helper1_inner hw username cookie))"

subsection \<open>The session\<close>

text \<open>
  \<open>se_helper1\<close> is the hand-off: from the queue after the push it yields the helper's
  result and the queue at its end, since \<open>TakeApproval\<close> runs while the session waits. The
  three clocks are those of the freshness check, of recording a grant and of the push.
\<close>

record session_env =
  se_fs :: fs
  se_dialog :: "ui_request \<Rightarrow> helper_error + verdict"
  se_helper1 :: "ustr \<Rightarrow> ustr \<Rightarrow> approval_queue \<Rightarrow> (ustr + bool) \<times> approval_queue"
  se_t_fresh :: instant
  se_t_remember :: instant
  se_t_push :: instant
  se_latency_ms :: nat

datatype session_effect =
  EDialog ui_request | ERemember ustr ustr | EPush ustr | EHelper1 ustr ustr | EDrain | ENotify ustr ustr

record session_out =
  so_result :: "ustr + bool"
  so_queue :: approval_queue
  so_cache :: remember_cache
  so_log :: "log_record list"
  so_effects :: "session_effect list"

definition session_of :: "session_env \<Rightarrow> auth_inputs \<Rightarrow> ustr" where
  "session_of e i = (case in_process_pid i of Some p \<Rightarrow> logfmt_session_for_pid (se_fs e) p | None \<Rightarrow> [])"

definition agent_line :: "session_env \<Rightarrow> auth_inputs \<Rightarrow> string \<Rightarrow> ustr \<Rightarrow> ustr" where
  "agent_line e i head extra =
     lit head @ field ''user'' (in_username i) @ field ''action'' (in_action_id i) @
     field ''process'' (process_name_of (in_process_exe i)) @ extra @ session_of e i"

text \<open>
  The tail the three allowing branches share: push the approval, run polkit's helper, and
  drop what is left when it reports failure. An error of the helper ends the session at
  once, before the drain. \<open>failure_log\<close> is what the branch logs on failure.
\<close>

definition hand_off ::
  "session_env \<Rightarrow> auth_inputs \<Rightarrow> log_record list \<Rightarrow> approval_queue \<Rightarrow>
     (ustr + bool) \<times> approval_queue \<times> log_record list \<times> session_effect list" where
  "hand_off e i failure_log q =
     (let q1 = push q (in_action_id i) (se_t_push e);
          (r, q2) = se_helper1 e (in_username i) (in_cookie i) q1;
          effs = [EPush (in_action_id i), EHelper1 (in_username i) (in_cookie i)]
      in case r of
           Inl _ \<Rightarrow> (Inl (lit ''run polkit-agent-helper-1''), q2, [], effs)
         | Inr True \<Rightarrow> (Inr True, q2, [], effs)
         | Inr False \<Rightarrow> (Inr False, drain q2, failure_log, effs @ [EDrain]))"

definition helper1_failure :: "auth_inputs \<Rightarrow> ustr \<Rightarrow> log_record list" where
  "helper1_failure i what =
     [(LWarn, lit ''event=auth.error source=agent.helper1'' @ field ''action'' (in_action_id i) @
         lit '' note='' @ [34] @ lit ''helper-1 reported FAILURE '' @ [8212] @ lit '' PAM stack rejected '' @
         what @ lit ''approval?'' @ [34])]"

definition session_window :: "auth_inputs \<Rightarrow> u32" where
  "session_window i =
     (if remember_eligible_command (unwrap_or (in_process_cmdline i) [])
      then remember_seconds (in_cfg i) else 0)"

definition session_command :: "auth_inputs \<Rightarrow> ustr" where
  "session_command i =
     remember_key_command (unwrap_or (in_process_cmdline i) []) (remember_scope (in_cfg i))"

definition session_finish ::
  "ustr + bool \<Rightarrow> approval_queue \<Rightarrow> remember_cache \<Rightarrow> log_record list \<Rightarrow> session_effect list \<Rightarrow> session_out"
  where
  "session_finish r q c log effs =
     \<lparr>so_result = r, so_queue = q, so_cache = c, so_log = log, so_effects = effs\<rparr>"

definition session_ask :: "session_env \<Rightarrow> approval_queue \<Rightarrow> remember_cache \<Rightarrow> auth_inputs \<Rightarrow> session_out" where
  "session_ask e q c i =
     (let secs = session_window i;
          req = for_action i secs;
          name = process_name_of (in_process_exe i);
          lat = raw_field ''latency_ms'' (show_nat (se_latency_ms e))
      in case se_dialog e req of
           Inl _ \<Rightarrow> session_finish (Inl (lit ''run sentinel-helper-kde'')) q c [] [EDialog req]
         | Inr v \<Rightarrow>
             (case v_outcome v of
                Deny \<Rightarrow>
                  session_finish (Inr False) q c
                    [(LInfo, agent_line e i ''event=auth.deny source=agent'' lat)]
                    (EDialog req #
                     (if notify_on_deny (in_cfg i) then
                        [ENotify (lit ''Authentication denied'')
                           (lit ''You denied an elevation request from '' @ name @ lit ''.'')]
                      else []))
              | Timeout \<Rightarrow>
                  session_finish (Inr False) q c
                    [(LInfo, agent_line e i ''event=auth.timeout source=agent'' lat)]
                    (EDialog req #
                     (if notify_on_timeout (in_cfg i) then
                        [ENotify (lit ''Authentication timed out'')
                           (lit ''An elevation request from '' @ name @ lit '' was auto-denied (no response).'')]
                      else []))
              | Allow \<Rightarrow>
                  (let tick = (v_remember v \<and> 0 < secs);
                       c1 = (if tick then cache_remember c (in_action_id i) (session_command i) (se_t_remember e)
                             else c);
                       (r, q1, log, effs) = hand_off e i (helper1_failure i []) q
                   in session_finish r q1 c1
                        ((LInfo, agent_line e i ''event=auth.allow source=agent'' lat) # log)
                        (EDialog req #
                         (if tick then [ERemember (in_action_id i) (session_command i)] else []) @ effs))))"

definition session_run :: "session_env \<Rightarrow> approval_queue \<Rightarrow> remember_cache \<Rightarrow> auth_inputs \<Rightarrow> session_out" where
  "session_run e q c i =
     (case decide (policy (in_cfg i)) (in_process_exe i) (Some (in_action_id i)) of
        PDeny \<Rightarrow>
          session_finish (Inr False) q c
            [(LInfo, agent_line e i ''event=auth.deny source=policy'' [])]
            (if notify_on_deny (in_cfg i) then
               [ENotify (lit ''Privilege request blocked'')
                  (lit ''Policy denied an elevation request from '' @
                   process_name_of (in_process_exe i) @ lit ''.'')]
             else [])
      | PAllow \<Rightarrow>
          (let (r, q1, log, effs) = hand_off e i (helper1_failure i (lit ''policy '')) q
           in session_finish r q1 c ((LInfo, agent_line e i ''event=auth.allow source=policy'' []) # log) effs)
      | PAsk \<Rightarrow>
          if 0 < session_window i \<and>
             cache_is_fresh c (in_action_id i) (session_command i) (session_window i) (se_t_fresh e)
          then
            (let (r, q1, log, effs) = hand_off e i [] q
             in session_finish r q1 c ((LInfo, agent_line e i ''event=auth.allow source=remember'' []) # log) effs)
          else session_ask e q c i)"

subsection \<open>\<open>BeginAuthentication\<close>\<close>

text \<open>
  The part of \<open>begin_authentication\<close> that runs under the serialising lock before the
  session is spawned: the identity, the user name and the process to show. \<open>from_uid\<close> is
  the password database, \<open>details\<close> polkit's dictionary.
\<close>

definition detail_pid :: "(ustr \<rightharpoonup> ustr) \<Rightarrow> string \<Rightarrow> pid option" where
  "detail_pid details key = Option.bind (details (lit key)) parse_i32"

definition recovered_from_caller :: "fs \<Rightarrow> (ustr \<rightharpoonup> ustr) \<Rightarrow> ustr option" where
  "recovered_from_caller w details =
     Option.bind (Option.bind (detail_pid details ''polkit.caller-pid'') (read_cmdline w)) (\<lambda>raw.
       let stripped = strip_elevation_prefix raw
       in if stripped \<noteq> raw \<and> stripped \<noteq> [] then Some stripped else None)"

definition begin_cmdline :: "fs \<Rightarrow> (ustr \<rightharpoonup> ustr) \<Rightarrow> ustr option" where
  "begin_cmdline w details =
     (let elevated_command_line = option_filter (\<lambda>s. s \<noteq> []) (details (lit ''command_line''))
      in option_or elevated_command_line
           (if elevated_command_line = None then recovered_from_caller w details else None))"

definition begin_exe :: "fs \<Rightarrow> (ustr \<rightharpoonup> ustr) \<Rightarrow> ustr option" where
  "begin_exe w details =
     option_or (option_filter (\<lambda>s. s \<noteq> []) (details (lit ''program'')))
       (option_or
          (Option.bind (begin_cmdline w details)
             (\<lambda>s. case split_whitespace s of [] \<Rightarrow> None | t # _ \<Rightarrow> Some t))
          (Option.bind (detail_pid details ''polkit.subject-pid'') (read_exe w)))"

definition begin_inputs ::
  "fs \<Rightarrow> (u32 \<Rightarrow> ustr option) \<Rightarrow> service_config \<Rightarrow> u32 \<Rightarrow> ustr \<Rightarrow> (ustr \<rightharpoonup> ustr) \<Rightarrow> ustr \<Rightarrow>
     identity list \<Rightarrow> ustr + auth_inputs" where
  "begin_inputs w from_uid cfg own_uid action details cookie identities =
     (case pick identities own_uid of
        None \<Rightarrow> Inl (lit ''no acceptable identities'')
      | Some uid \<Rightarrow>
          (case from_uid uid of
             None \<Rightarrow> Inl (lit ''uid '' @ show_u32 uid @ lit '' unknown'')
           | Some username \<Rightarrow>
               (let subject_pid = detail_pid details ''polkit.subject-pid''
                in Inr \<lparr>in_action_id = action,
                        in_cookie = cookie,
                        in_username = username,
                        in_cfg = cfg,
                        in_process_exe = begin_exe w details,
                        in_process_cmdline = begin_cmdline w details,
                        in_process_pid = subject_pid,
                        in_process_cwd = Option.bind subject_pid (read_cwd w),
                        in_requesting_user = Some username\<rparr>)))"

definition cookie_prefix :: "ustr \<Rightarrow> ustr" where
  "cookie_prefix cookie = take 8 cookie"

text \<open>
  \<open>begin_authentication\<close> without interference: what is logged (less the debug dump of \<open>details\<close>,
  which has no fixed order), the error polkit gets, or
  the session that runs. The call reports success to polkit however the session ends.
  What other calls and a cancellation can do meanwhile is the subject of \<open>Agent_System\<close>.
\<close>

record begin_out =
  bo_result :: "ustr + unit"
  bo_session :: "session_out option"
  bo_log :: "log_record list"

definition begin_failure :: "u32 \<Rightarrow> identity list \<Rightarrow> log_record list" where
  "begin_failure own_uid identities =
     (case pick identities own_uid of
        None \<Rightarrow> [(LWarn, lit ''no usable unix-user identity in BeginAuthentication'')]
      | Some uid \<Rightarrow> [(LError, lit ''uid '' @ show_u32 uid @ lit '' has no passwd entry'')])"

definition begin_authentication ::
  "session_env \<Rightarrow> (u32 \<Rightarrow> ustr option) \<Rightarrow> (ustr \<Rightarrow> ustr + document) \<Rightarrow> (ustr \<Rightarrow> io_error + ustr) \<Rightarrow> ustr \<Rightarrow>
     u32 \<Rightarrow> approval_queue \<Rightarrow> remember_cache \<Rightarrow> ustr \<Rightarrow> (ustr \<rightharpoonup> ustr) \<Rightarrow> ustr \<Rightarrow> identity list \<Rightarrow> begin_out" where
  "begin_authentication e from_uid toml read path own_uid q c action details cookie identities =
     (let start = (LInfo, lit ''BeginAuthentication action='' @ action @ lit '' cookie='' @ cookie_prefix cookie);
          cfg = load_config toml read path POLKIT_PAM_SERVICE
      in case begin_inputs (se_fs e) from_uid cfg own_uid action details cookie identities of
           Inl err \<Rightarrow>
             \<lparr>bo_result = Inl err, bo_session = None, bo_log = start # begin_failure own_uid identities\<rparr>
         | Inr i \<Rightarrow>
             (let out = session_run e q c i
              in \<lparr>bo_result = Inr (), bo_session = Some out,
                  bo_log = start # snd (load_from toml read path) @
                    (if enabled cfg then []
                     else [(LWarn, lit ''[services.polkit-1].enabled = false in config '' @ [8212] @
                              lit '' agent is registered, ignoring and rendering the dialog anyway'')]) @
                    so_log out @ [(LInfo, lit ''BeginAuthentication complete cookie='' @ cookie_prefix cookie)]\<rparr>))"

subsection \<open>Lemmas\<close>

lemma pick_own: "pick ids own = Some uid \<Longrightarrow> uid = own"
  by (induction ids own rule: pick.induct) (auto split: if_splits option.splits)

definition offers :: "u32 \<Rightarrow> identity \<Rightarrow> bool" where
  "offers uid ident \<longleftrightarrow> fst ident = lit ''unix-user'' \<and> snd ident (lit ''uid'') = Some (VU32 uid)"

lemma value_u32_Some_iff [simp]: "value_u32 v = Some n \<longleftrightarrow> v = VU32 n"
  by (cases v) auto

lemma pick_iff: "pick ids own = Some uid \<longleftrightarrow> uid = own \<and> (\<exists>ident\<in>set ids. offers own ident)"
  by (induction ids own rule: pick.induct)
    (auto simp: offers_def split: if_splits option.splits)

lemma read_verdict_Some:
  "read_verdict ls = Inr (Some v) \<Longrightarrow> \<exists>line. Inr line \<in> set ls \<and> verdict_from_str line = Some v"
  by (induction ls rule: read_verdict.induct) (auto split: option.splits)

lemma helper1_loop_True_step:
  assumes "fst (helper1_loop (Inr line # reads)) = Inr (Some True)"
  shows "trim line = lit ''SUCCESS'' \<or> (trim line \<noteq> lit ''FAILURE'' \<and> fst (helper1_loop reads) = Inr (Some True))"
proof -
  have "strip_prefix (lit ''PAM_'') (lit ''FAILURE'') = None" "lit ''FAILURE'' \<noteq> lit ''SUCCESS''" "lit ''FAILURE'' \<noteq> []"
    by (simp_all add: str_eval)
  with assms show ?thesis
    by (auto simp: Let_def case_prod_beta simp del: lit_simps split: if_splits option.splits)
qed

lemma helper1_loop_True:
  "fst (helper1_loop reads) = Inr (Some True) \<Longrightarrow>
     \<exists>pre line post. reads = pre @ Inr line # post \<and> trim line = lit ''SUCCESS'' \<and>
       (\<forall>x\<in>set pre. \<exists>l. x = Inr l \<and> trim l \<noteq> lit ''FAILURE'')"
proof (induction reads)
  case (Cons x reads)
  show ?case
  proof (cases x)
    case (Inl e)
    with Cons.prems show ?thesis by simp
  next
    case (Inr line)
    from Cons.prems consider "trim line = lit ''SUCCESS''"
      | "trim line \<noteq> lit ''FAILURE''" "fst (helper1_loop reads) = Inr (Some True)"
      using helper1_loop_True_step [of line reads] unfolding Inr by blast
    then show ?thesis
    proof cases
      case 1
      with Inr have "x # reads = [] @ Inr line # reads" by simp
      with 1 show ?thesis by (metis empty_iff list.set(1))
    next
      case 2
      from Cons.IH [OF 2(2)] obtain pre l post where "reads = pre @ Inr l # post" "trim l = lit ''SUCCESS''"
        "\<forall>x\<in>set pre. \<exists>l. x = Inr l \<and> trim l \<noteq> lit ''FAILURE''" by blast
      with Inr 2(1) show ?thesis
        by (intro exI [of _ "x # pre"] exI [of _ l] exI [of _ post]) (simp del: lit_simps)
    qed
  qed
qed simp

text \<open>The queue effects of a session: nothing, or one push, the helper, and perhaps the drain.\<close>

lemma hand_off_effects:
  "hand_off e i fl q = (r, q', log, effs) \<Longrightarrow>
     effs = [EPush (in_action_id i), EHelper1 (in_username i) (in_cookie i)] @
       (if r = Inr False then [EDrain] else [])"
  by (auto simp: hand_off_def Let_def split: prod.splits sum.splits bool.splits)

lemma hand_off_result:
  "hand_off e i fl q = (r, q', log, effs) \<Longrightarrow>
     \<exists>r' q2. se_helper1 e (in_username i) (in_cookie i) (push q (in_action_id i) (se_t_push e)) = (r', q2) \<and>
       r = (case r' of Inl _ \<Rightarrow> Inl (lit ''run polkit-agent-helper-1'') | Inr b \<Rightarrow> Inr b) \<and>
       q' = (if r' = Inr False then drain q2 else q2)"
  by (auto simp: hand_off_def Let_def split: prod.splits sum.splits bool.splits)

text \<open>When a session hands an approval out.\<close>

definition session_policy :: "auth_inputs \<Rightarrow> policy_decision" where
  "session_policy i = decide (policy (in_cfg i)) (in_process_exe i) (Some (in_action_id i))"

definition session_remembered :: "session_env \<Rightarrow> remember_cache \<Rightarrow> auth_inputs \<Rightarrow> bool" where
  "session_remembered e c i \<longleftrightarrow>
     0 < session_window i \<and>
     cache_is_fresh c (in_action_id i) (session_command i) (session_window i) (se_t_fresh e)"

definition session_dialog_allows :: "session_env \<Rightarrow> auth_inputs \<Rightarrow> bool" where
  "session_dialog_allows e i \<longleftrightarrow>
     (case se_dialog e (for_action i (session_window i)) of Inr v \<Rightarrow> is_allow (v_outcome v) | Inl _ \<Rightarrow> False)"

definition session_approves :: "session_env \<Rightarrow> remember_cache \<Rightarrow> auth_inputs \<Rightarrow> bool" where
  "session_approves e c i \<longleftrightarrow>
     session_policy i = PAllow \<or>
     (session_policy i = PAsk \<and> (session_remembered e c i \<or> session_dialog_allows e i))"

lemmas session_defs = session_run_def session_ask_def session_finish_def session_policy_def
  session_remembered_def session_dialog_allows_def session_approves_def is_allow_def

lemma session_run_push_iff:
  "EPush a \<in> set (so_effects (session_run e q c i)) \<longleftrightarrow> session_approves e c i \<and> a = in_action_id i"
  by (auto simp: session_defs Let_def dest: hand_off_effects
      split: policy_decision.splits prod.splits sum.splits outcome.splits if_splits)

lemma session_run_denied:
  assumes "\<not> session_approves e c i"
  shows "so_queue (session_run e q c i) = q" "so_cache (session_run e q c i) = c"
    "so_result (session_run e q c i) \<noteq> Inr True"
  using assms
  by (auto simp: session_defs Let_def
      split: policy_decision.splits prod.splits sum.splits outcome.splits if_splits)

lemma session_run_approved:
  assumes "session_approves e c i"
  shows "\<exists>fl r q' log effs. hand_off e i fl q = (r, q', log, effs) \<and>
     so_result (session_run e q c i) = r \<and> so_queue (session_run e q c i) = q' \<and>
     (\<exists>pre. so_effects (session_run e q c i) = pre @ effs \<and>
        (\<forall>x\<in>set pre. case x of EDialog _ \<Rightarrow> True | ERemember _ _ \<Rightarrow> True | _ \<Rightarrow> False))"
proof -
  consider "session_policy i = PAllow" | "session_policy i = PAsk" "session_remembered e c i"
    | "session_policy i = PAsk" "\<not> session_remembered e c i" "session_dialog_allows e i"
    using assms by (auto simp: session_approves_def)
  then show ?thesis
  proof cases
    case 1
    obtain r q' log effs where "hand_off e i (helper1_failure i (lit ''policy '')) q = (r, q', log, effs)"
      by (metis prod.collapse)
    moreover from this 1 have "so_effects (session_run e q c i) = [] @ effs"
      "so_result (session_run e q c i) = r" "so_queue (session_run e q c i) = q'"
      by (simp_all add: session_run_def session_policy_def session_finish_def)
    ultimately show ?thesis by (metis empty_iff list.set(1))
  next
    case 2
    obtain r q' log effs where "hand_off e i [] q = (r, q', log, effs)" by (metis prod.collapse)
    moreover from this 2 have "so_effects (session_run e q c i) = [] @ effs"
      "so_result (session_run e q c i) = r" "so_queue (session_run e q c i) = q'"
      by (simp_all add: session_run_def session_policy_def session_remembered_def session_finish_def)
    ultimately show ?thesis by (metis empty_iff list.set(1))
  next
    case 3
    then obtain v where v: "se_dialog e (for_action i (session_window i)) = Inr v" "v_outcome v = Allow"
      by (auto simp: session_dialog_allows_def is_allow_def split: sum.splits)
    obtain r q' log effs where h: "hand_off e i (helper1_failure i []) q = (r, q', log, effs)"
      by (metis prod.collapse)
    have run: "session_run e q c i = session_ask e q c i"
      using 3 by (auto simp: session_run_def session_policy_def session_remembered_def)
    have "so_effects (session_run e q c i) =
        (EDialog (for_action i (session_window i)) #
          (if v_remember v \<and> 0 < session_window i then [ERemember (in_action_id i) (session_command i)] else [])) @ effs"
      "so_result (session_run e q c i) = r" "so_queue (session_run e q c i) = q'"
      by (simp_all add: run session_ask_def session_finish_def Let_def v h)
    with h show ?thesis
      by (intro exI conjI) (assumption | simp)+
  qed
qed

subsection \<open>Examples\<close>

definition example_inputs :: "ustr list \<Rightarrow> ustr \<Rightarrow> auth_inputs" where
  "example_inputs allowed cmdline =
     \<lparr>in_action_id = lit ''org.example.act'', in_cookie = lit ''ck'', in_username = lit ''ada'',
      in_cfg = (for_service document_defaults POLKIT_PAM_SERVICE)\<lparr>policy := \<lparr>p_allow = allowed, p_deny = []\<rparr>\<rparr>,
      in_process_exe = Some (lit ''/usr/bin/true''), in_process_cmdline = Some cmdline,
      in_process_pid = None, in_process_cwd = None, in_requesting_user = None\<rparr>"

definition example_env :: "helper_error + verdict \<Rightarrow> ustr + bool \<Rightarrow> session_env" where
  "example_env answer h1 =
     \<lparr>se_fs = \<lparr>read_file = (\<lambda>_. None), read_link = (\<lambda>_. None)\<rparr>, se_dialog = (\<lambda>_. answer),
      se_helper1 = (\<lambda>_ _ q. (h1, q)), se_t_fresh = 0, se_t_remember = 0, se_t_push = 0, se_latency_ms = 0\<rparr>"

lemma example_cfg_window: "remember_seconds (in_cfg (example_inputs al cmd)) = 300"
  by (simp add: example_inputs_def for_service_def document_defaults_def base_config_def general_default_def
      default_remember_seconds_def)

lemma example_policy: "session_policy (example_inputs [] cmd) = PAsk"
  by (simp add: session_policy_def example_inputs_def decide_def list_matches_def)

lemma session_run_remember:
  assumes "ERemember a cmd \<in> set (so_effects (session_run e q c i))"
  shows "a = in_action_id i \<and> cmd = session_command i \<and> session_policy i = PAsk \<and> 0 < session_window i \<and>
     (\<exists>v. se_dialog e (for_action i (session_window i)) = Inr v \<and> v_outcome v = Allow \<and> v_remember v) \<and>
     so_cache (session_run e q c i) = cache_remember c a cmd (se_t_remember e)"
proof -
  have no: "ERemember a cmd \<notin> set effs" if "hand_off e i fl q = (r, q', log, effs)" for fl r q' log effs
    using hand_off_effects [OF that] by simp
  have "session_policy i = PAsk" and run: "session_run e q c i = session_ask e q c i"
    using assms no
    by (auto simp: session_run_def session_finish_def session_policy_def
        split: policy_decision.splits prod.splits if_splits)
  moreover obtain v where v: "se_dialog e (for_action i (session_window i)) = Inr v"
    using assms by (cases "se_dialog e (for_action i (session_window i))")
      (auto simp: run session_ask_def session_finish_def)
  moreover have "v_outcome v = Allow"
    using assms by (cases "v_outcome v") (auto simp: run session_ask_def session_finish_def v Let_def split: if_splits)
  ultimately show ?thesis
    using assms no
    by (auto simp: session_ask_def session_finish_def Let_def split: prod.splits if_splits)
qed

subsection \<open>Properties\<close>

text \<open>C26. The agent answers for its own user only: a call runs a session exactly when polkit offers the
  agent's own uid as a Unix user, wherever it stands in the list and whatever malformed entries
  precede it, and that uid has a password entry; the session is for that entry's name, with the
  call's own action and cookie. Otherwise polkit gets an error and nothing runs.\<close>

theorem begin_authentication_own_user:
  "bo_session (begin_authentication e from_uid toml read path own q c action details cookie ids) =
     (if \<exists>d. (lit ''unix-user'', d) \<in> set ids \<and> d (lit ''uid'') = Some (VU32 own)
      then map_option (\<lambda>name. session_run e q c
             \<lparr>in_action_id = action, in_cookie = cookie, in_username = name,
              in_cfg = load_config toml read path POLKIT_PAM_SERVICE,
              in_process_exe = begin_exe (se_fs e) details, in_process_cmdline = begin_cmdline (se_fs e) details,
              in_process_pid = detail_pid details ''polkit.subject-pid'',
              in_process_cwd = Option.bind (detail_pid details ''polkit.subject-pid'') (read_cwd (se_fs e)),
              in_requesting_user = Some name\<rparr>) (from_uid own)
      else None) \<and>
   (bo_result (begin_authentication e from_uid toml read path own q c action details cookie ids) = Inr () \<longleftrightarrow>
      bo_session (begin_authentication e from_uid toml read path own q c action details cookie ids) \<noteq> None)"
proof (cases "\<exists>d. (lit ''unix-user'', d) \<in> set ids \<and> d (lit ''uid'') = Some (VU32 own)")
  case True
  then have "pick ids own = Some own" by (force simp: pick_iff offers_def)
  with True show ?thesis
    by (cases "from_uid own") (simp_all add: begin_authentication_def begin_inputs_def Let_def)
next
  case False
  then have "pick ids own = None" using pick_iff [of ids own] by (cases "pick ids own") (force simp: offers_def)+
  then show ?thesis
    unfolding if_not_P [OF False] by (simp add: begin_authentication_def begin_inputs_def Let_def)
qed

text \<open>The identity picked is the agent's own.\<close>

theorem pick_own_identity:
  "pick ids own = Some uid \<longleftrightarrow>
     uid = own \<and> (\<exists>details. (lit ''unix-user'', details) \<in> set ids \<and> details (lit ''uid'') = Some (VU32 own))"
  unfolding pick_iff offers_def by (auto simp del: lit_simps) force

text \<open>C24. When the agent approves: a session pushes an approval exactly when the policy allows, or the
  policy asks and a live grant or the dialog's Allow is there; the approval is for the
  session's own action, and it is pushed before polkit's helper is started.\<close>

theorem session_pushes_iff_approved:
  "(EPush a \<in> set (so_effects (session_run e q c i)) \<longleftrightarrow>
      a = in_action_id i \<and>
      (session_policy i = PAllow \<or> session_policy i = PAsk \<and> (session_remembered e c i \<or> session_dialog_allows e i))) \<and>
   (EHelper1 u k \<in> set (so_effects (session_run e q c i)) \<longleftrightarrow>
      (\<exists>pre post. so_effects (session_run e q c i) = pre @ [EPush (in_action_id i), EHelper1 u k] @ post))"
proof
  show "EHelper1 u k \<in> set (so_effects (session_run e q c i)) \<longleftrightarrow>
      (\<exists>pre post. so_effects (session_run e q c i) = pre @ [EPush (in_action_id i), EHelper1 u k] @ post)"
  proof (cases "session_approves e c i")
    case True
    then obtain fl r q' log effs pre where h: "hand_off e i fl q = (r, q', log, effs)"
      "so_effects (session_run e q c i) = pre @ effs"
      "\<forall>x\<in>set pre. case x of EDialog _ \<Rightarrow> True | ERemember _ _ \<Rightarrow> True | _ \<Rightarrow> False"
      using session_run_approved [OF True, of q] by blast
    have pre: "EHelper1 u k \<notin> set pre" using h(3) by fastforce
    obtain tl where tl: "effs = [EPush (in_action_id i), EHelper1 (in_username i) (in_cookie i)] @ tl"
      "EHelper1 u k \<notin> set tl"
      using hand_off_effects [OF h(1)] by (cases "r = Inr False") auto
    show ?thesis
    proof
      assume "EHelper1 u k \<in> set (so_effects (session_run e q c i))"
      with pre tl have "u = in_username i" "k = in_cookie i" by (auto simp: h(2))
      with h(2) tl(1) show "\<exists>pre post. so_effects (session_run e q c i) = pre @ [EPush (in_action_id i), EHelper1 u k] @ post"
        by auto
    next
      assume "\<exists>pre post. so_effects (session_run e q c i) = pre @ [EPush (in_action_id i), EHelper1 u k] @ post"
      then obtain pre' post where "so_effects (session_run e q c i) = pre' @ [EPush (in_action_id i), EHelper1 u k] @ post"
        by blast
      then show "EHelper1 u k \<in> set (so_effects (session_run e q c i))" by (simp only: set_append) simp
    qed
  next
    case False
    have "EHelper1 u k \<notin> set (so_effects (session_run e q c i))"
      using False by (auto simp: session_defs Let_def
          split: policy_decision.splits prod.splits sum.splits outcome.splits if_splits)
    then show ?thesis by auto
  qed
qed (use session_run_push_iff [of a e q c i] in \<open>auto simp: session_approves_def\<close>)

text \<open>What a session leaves behind: one that does not approve changes neither the queue nor the
  cache and does not succeed; one that approves and is told by polkit's helper that it failed
  leaves the queue empty; it succeeds exactly when the helper reports success.\<close>

theorem session_leaves_queue:
  "(if session_approves e c i
    then (case se_helper1 e (in_username i) (in_cookie i) (push q (in_action_id i) (se_t_push e)) of
            (Inr True, q') \<Rightarrow> so_result (session_run e q c i) = Inr True \<and> so_queue (session_run e q c i) = q'
          | (Inr False, q') \<Rightarrow> so_result (session_run e q c i) = Inr False \<and> q_inner (so_queue (session_run e q c i)) = []
          | (Inl _, q') \<Rightarrow> so_result (session_run e q c i) = Inl (lit ''run polkit-agent-helper-1'') \<and>
              so_queue (session_run e q c i) = q')
    else so_queue (session_run e q c i) = q \<and> so_cache (session_run e q c i) = c \<and>
         so_result (session_run e q c i) \<noteq> Inr True)"
proof (cases "session_approves e c i")
  case True
  then obtain fl r q' log effs where h: "hand_off e i fl q = (r, q', log, effs)"
    "so_result (session_run e q c i) = r" "so_queue (session_run e q c i) = q'"
    using session_run_approved [OF True, of q] by blast
  obtain r' q2 where "se_helper1 e (in_username i) (in_cookie i) (push q (in_action_id i) (se_t_push e)) = (r', q2)"
    "r = (case r' of Inl _ \<Rightarrow> Inl (lit ''run polkit-agent-helper-1'') | Inr b \<Rightarrow> Inr b)"
    "q' = (if r' = Inr False then drain q2 else q2)"
    using hand_off_result [OF h(1)] by blast
  with True h(2,3) show ?thesis
    by (cases r') (auto simp: drain_def simp del: lit_simps split: bool.splits)
qed (use session_run_denied in auto)

text \<open>C25. The agent remembers only what the user asked it to: a grant is recorded only after a dialog
  that answered Allow with the box ticked, for a command that may be remembered, under the
  session's own action and key.\<close>

theorem session_remembers_only_ticked:
  assumes "ERemember a cmd \<in> set (so_effects (session_run e q c i))"
  shows "a = in_action_id i \<and> cmd = remember_key_command (unwrap_or (in_process_cmdline i) []) (remember_scope (in_cfg i)) \<and>
     remember_eligible_command cmd \<and> 0 < remember_seconds (in_cfg i) \<and>
     (\<exists>v. se_dialog e (for_action i (remember_seconds (in_cfg i))) = Inr v \<and> v_outcome v = Allow \<and> v_remember v) \<and>
     so_cache (session_run e q c i) = cache_remember c a cmd (se_t_remember e)"
proof -
  note r = session_run_remember [OF assms]
  then have el: "remember_eligible_command (unwrap_or (in_process_cmdline i) [])"
    and w: "session_window i = remember_seconds (in_cfg i)"
    by (auto simp: session_window_def split: if_splits)
  from el have "remember_eligible_command (session_command i)"
    by (simp add: session_command_def remember_key_eligible)
  with r w show ?thesis by (auto simp: session_command_def)
qed

theorem session_remembers_only_ticked_witness:
  "so_cache (session_run (example_env (Inr \<lparr>v_outcome = Allow, v_remember = True\<rparr>) (Inr True)) queue_new cache_new
       (example_inputs [] (lit ''true''))) =
     cache_remember cache_new (lit ''org.example.act'') (lit ''true'') 0"
proof -
  let ?e = "example_env (Inr \<lparr>v_outcome = Allow, v_remember = True\<rparr>) (Inr True)" and ?i = "example_inputs [] (lit ''true'')"
  have el: "remember_eligible_command (lit ''true'')" by (simp add: str_eval)
  then have w: "session_window ?i = 300"
    using example_cfg_window [of "[]" "lit ''true''"] by (simp add: session_window_def example_inputs_def del: lit_simps)
  have cmd: "session_command ?i = lit ''true''"
    by (simp add: session_command_def example_inputs_def for_service_def document_defaults_def base_config_def
        general_default_def remember_key_command_def str_eval)
  have nf: "\<not> cache_is_fresh cache_new a k t n" for a k t n by (simp add: cache_is_fresh_def cache_new_def)
  have "ERemember (lit ''org.example.act'') (lit ''true'') \<in> set (so_effects (session_run ?e queue_new cache_new ?i))"
    using example_policy [of "lit ''true''"] w cmd nf
    by (simp add: session_run_def session_policy_def session_ask_def session_finish_def example_env_def Let_def
        hand_off_def example_inputs_def del: lit_simps)
  from session_remembers_only_ticked [OF this] show ?thesis by (simp add: example_env_def)
qed

text \<open>C27. Success comes from polkit's helper alone: outside the test seam, the hand-off succeeds only if
  the socket was reached and some line the helper wrote within the time limit is SUCCESS, and
  no earlier line was FAILURE; end of file, an unknown protocol, a prompt, a timeout or an
  error is never success.\<close>

theorem helper1_success_means_success_line:
  assumes "helper1_run hw user cookie = Inr True" "hw_env hw ''SENTINEL_TEST_HELPER1_OUTCOME'' = None"
  shows "hw_socket_exists hw \<and> hw_connect_error hw = None \<and> hw_elapsed hw \<le> from_secs 10 \<and>
     (\<exists>pre line post. hw_reads hw = pre @ Inr line # post \<and> trim line = lit ''SUCCESS'' \<and>
        (\<forall>x\<in>set pre. \<exists>l. x = Inr l \<and> trim l \<noteq> lit ''FAILURE''))"
proof -
  have ok: "hw_socket_exists hw" "hw_connect_error hw = None" "hw_elapsed hw \<le> from_secs 10" "hw_write_error hw = None" "hw_flush_error hw = None"
    using assms by (auto simp: HELPER1_TIMEOUT_def not_less helper1_run_def helper1_inner_def Let_def split: if_splits option.splits)
  then have "map_sum id (\<lambda>v. unwrap_or v False) (fst (helper1_loop (hw_reads hw))) = Inr True"
    using assms by (simp add: helper1_run_def helper1_inner_def case_prod_beta HELPER1_TIMEOUT_def)
  then have "fst (helper1_loop (hw_reads hw)) = Inr (Some True)"
    by (cases "fst (helper1_loop (hw_reads hw))") (auto simp: unwrap_or_eq split: option.splits)
  with ok helper1_loop_True show ?thesis by blast
qed

theorem helper1_success_means_success_line_witness:
  "\<exists>pre line post. ([Inr (lit ''PAM_TEXT_INFO hi'' @ [10]), Inr (lit ''SUCCESS'' @ [10])] :: (ustr + ustr) list) = pre @ Inr line # post \<and>
     trim line = lit ''SUCCESS''"
proof -
  let ?hw = "\<lparr>hw_env = (\<lambda>_. None), hw_socket_exists = True, hw_connect_error = None, hw_write_error = None,
    hw_flush_error = None, hw_reads = [Inr (lit ''PAM_TEXT_INFO hi'' @ [10]), Inr (lit ''SUCCESS'' @ [10])], hw_elapsed = from_secs 1\<rparr>"
  have "helper1_run ?hw (lit ''ada'') (lit ''ck'') = Inr True"
    by (simp add: helper1_run_def helper1_inner_def HELPER1_TIMEOUT_def str_eval)
  moreover have "hw_env ?hw ''SENTINEL_TEST_HELPER1_OUTCOME'' = None" by simp
  ultimately obtain pre line post where w: "hw_reads ?hw = pre @ Inr line # post" "trim line = lit ''SUCCESS''"
    using helper1_success_means_success_line by blast
  then show ?thesis unfolding helper1_world.select_convs by blast
qed

text \<open>
  A bare \<open>pkexec\<close> (which polkit runs as a root shell) is matched by the policy under the name
  of the program that started it, unlike a bare \<open>sudo\<close> in the PAM module.
\<close>

theorem bare_pkexec_matches_originator:
  assumes "details (lit ''polkit.caller-pid'') = Some (lit ''7'')" "details (lit ''polkit.subject-pid'') = Some (lit ''8'')"
    "details (lit ''command_line'') = None" "details (lit ''program'') = None"
    "read_cmdline w 7 = Some (lit ''pkexec'')" "read_exe w 8 = Some exe"
  shows "begin_cmdline w details = None \<and> begin_exe w details = Some exe"
proof -
  have "parse_i32 (lit ''7'') = Some 7" "parse_i32 (lit ''8'') = Some 8" "strip_elevation_prefix (lit ''pkexec'') = []"
    by (simp_all add: str_eval)
  with assms show ?thesis
    by (simp add: begin_exe_def begin_cmdline_def recovered_from_caller_def detail_pid_def Let_def del: lit_simps)
qed

end
