(* ===== verification/Startup.thy ===== *)
theory Startup
  imports Broker Agent_Session
begin

text \<open>
  How the programs come up: the shared log set-up (\<open>sentinel-shared/src/audit.rs\<close> and
  \<open>init_logger\<close> of \<open>pam-sentinel/src/lib.rs\<close>), the broker's \<open>main\<close>
  (\<open>sentinel-broker/src/main.rs\<close>), the agent's \<open>main\<close> with its arguments and generator
  subcommands, its \<open>run\<close> and the loop in which it registers with polkit
  (\<open>sentinel-polkit-agent/src/main.rs\<close>, \<open>authority.rs\<close>), and the arguments of a desktop
  notification. File-system and bus calls are lists in the order they are made; what each
  returns is a parameter.
\<close>

subsection \<open>Levels\<close>

text \<open>\<open>log::Level\<close>, ordered by verbosity as in the crate: an error is the least.\<close>

datatype level = LvlError | LvlWarn | LvlInfo | LvlDebug | LvlTrace

fun verbosity :: "level \<Rightarrow> nat" where
  "verbosity LvlError = 1"
| "verbosity LvlWarn = 2"
| "verbosity LvlInfo = 3"
| "verbosity LvlDebug = 4"
| "verbosity LvlTrace = 5"

lemma verbosity_inj [simp]: "verbosity a = verbosity b \<longleftrightarrow> a = b"
  by (cases a; cases b) simp_all

instantiation level :: linorder
begin

definition less_eq_level :: "level \<Rightarrow> level \<Rightarrow> bool" where
  "less_eq_level a b \<longleftrightarrow> verbosity a \<le> verbosity b"

definition less_level :: "level \<Rightarrow> level \<Rightarrow> bool" where
  "less_level a b \<longleftrightarrow> verbosity a < verbosity b"

instance
  by standard (auto simp: less_eq_level_def less_level_def)

end

subsection \<open>The log\<close>

text \<open>
  The \<open>log\<close> facade has one logger for the whole process, which the first to register
  keeps; \<open>FALLBACK\<close> is set at most once. \<open>ls_syslog\<close> are the lines that reached syslog,
  with their severity, \<open>ls_host\<close> those the host program's own logger got.
\<close>

datatype log_owner = OwnSyslog | HostLogger

datatype severity = SevErr | SevWarning | SevInfo | SevDebug

record log_state =
  ls_global :: "log_owner option"
  ls_max_level :: "level option"
  ls_fallback :: bool
  ls_syslog :: "(severity \<times> ustr) list"
  ls_host :: "(level \<times> ustr) list"

fun severity_of :: "level \<Rightarrow> severity" where
  "severity_of LvlError = SevErr"
| "severity_of LvlWarn = SevWarning"
| "severity_of LvlInfo = SevInfo"
| "severity_of LvlDebug = SevDebug"
| "severity_of LvlTrace = SevDebug"

text \<open>The two connections to syslog either succeed or not.\<close>

definition init_syslog :: "bool \<Rightarrow> bool \<Rightarrow> level \<Rightarrow> log_state \<Rightarrow> log_state" where
  "init_syslog first_ok second_ok lvl s =
     (if \<not> first_ok then s
      else if ls_global s = None then s\<lparr>ls_global := Some OwnSyslog, ls_max_level := Some lvl\<rparr>
      else if second_ok \<and> \<not> ls_fallback s then s\<lparr>ls_fallback := True\<rparr>
      else s)"

text \<open>\<open>log::log!\<close>: a line above the maximum level is dropped; without a logger nothing happens.\<close>

definition log_macro :: "level \<Rightarrow> ustr \<Rightarrow> log_state \<Rightarrow> log_state" where
  "log_macro lvl msg s =
     (if (case ls_max_level s of None \<Rightarrow> True | Some m \<Rightarrow> \<not> lvl \<le> m) then s
      else
        (case ls_global s of
           None \<Rightarrow> s
         | Some OwnSyslog \<Rightarrow> s\<lparr>ls_syslog := ls_syslog s @ [(severity_of lvl, msg)]\<rparr>
         | Some HostLogger \<Rightarrow> s\<lparr>ls_host := ls_host s @ [(lvl, msg)]\<rparr>))"

definition audit_emit :: "level \<Rightarrow> ustr \<Rightarrow> log_state \<Rightarrow> log_state" where
  "audit_emit lvl msg s =
     (let s1 = log_macro lvl msg s
      in if ls_fallback s1 then s1\<lparr>ls_syslog := ls_syslog s1 @ [(severity_of lvl, msg)]\<rparr> else s1)"

text \<open>\<open>init_logger\<close> of the PAM module: the set-up runs once per process.\<close>

definition pam_init_logger :: "bool \<Rightarrow> bool \<Rightarrow> bool \<Rightarrow> bool \<times> log_state \<Rightarrow> bool \<times> log_state" where
  "pam_init_logger first_ok second_ok debug st =
     (case st of
        (True, s) \<Rightarrow> (True, s)
      | (False, s) \<Rightarrow> (True, init_syslog first_ok second_ok (if debug then LvlDebug else LvlInfo) s))"

subsection \<open>Notifications\<close>

definition desktop_notify :: "ustr \<Rightarrow> ustr \<Rightarrow> ustr list" where
  "desktop_notify summary body =
     map lit [''notify-send'', ''--app-name=Sentinel'', ''--icon=system-lock-screen'', ''--urgency=normal''] @
     [summary, body]"

subsection \<open>The broker's socket\<close>

text \<open>
  \<open>Path::parent\<close>: trailing separators and \<open>.\<close> components do not count. On the reversed
  path, first without them, then without the last component.
\<close>

fun trim_rev :: "ustr \<Rightarrow> ustr" where
  "trim_rev [] = []"
| "trim_rev (c # cs) =
     (if c = 47 \<and> cs \<noteq> [] then trim_rev cs
      else if c = 46 \<and> cs \<noteq> [] \<and> hd cs = 47 then trim_rev cs
      else c # cs)"

definition path_parent :: "ustr \<Rightarrow> ustr option" where
  "path_parent s =
     (let t = trim_rev (rev s)
      in if t = [] \<or> t = [47] then None else Some (rev (trim_rev (dropWhile (\<lambda>c. c \<noteq> 47) t))))"

datatype fs_op = OpCreateDirAll ustr | OpChmod ustr nat | OpRemoveFile ustr | OpBind ustr

text \<open>Only the removal of a stale socket may fail without ending \<open>main\<close>.\<close>

fun must_succeed :: "fs_op \<Rightarrow> bool" where
  "must_succeed (OpRemoveFile p) = False"
| "must_succeed op = True"

fun run_ops :: "(fs_op \<Rightarrow> ustr option) \<Rightarrow> fs_op list \<Rightarrow> fs_op list \<times> ustr option" where
  "run_ops result [] = ([], None)"
| "run_ops result (op # ops) =
     (case result op of
        Some e \<Rightarrow>
          if must_succeed op then ([op], Some e)
          else (let (done, r) = run_ops result ops in (op # done, r))
      | None \<Rightarrow> (let (done, r) = run_ops result ops in (op # done, r)))"

definition DEFAULT_SOCK_PATH :: ustr where
  "DEFAULT_SOCK_PATH = lit ''/run/sentinel-broker/broker.sock''"

definition broker_sock :: "(string \<Rightarrow> ustr option) \<Rightarrow> ustr" where
  "broker_sock env = unwrap_or (env ''SENTINEL_BROKER_SOCK'') DEFAULT_SOCK_PATH"

definition setup_ops :: "(ustr \<Rightarrow> bool) \<Rightarrow> ustr \<Rightarrow> fs_op list" where
  "setup_ops exists_path sock =
     (let dir = unwrap_or (path_parent sock) (lit ''/run/sentinel-broker'')
      in (if exists_path dir then [] else [OpCreateDirAll dir, OpChmod dir 448]) @
         [OpRemoveFile sock, OpBind sock, OpChmod sock 384])"

record 's broker_main_out =
  bm_ops :: "fs_op list"
  bm_result :: "ustr + 's list \<times> remember_store \<times> broker_log list"

definition broker_main ::
  "(string \<Rightarrow> ustr option) \<Rightarrow> (ustr \<Rightarrow> bool) \<Rightarrow> (fs_op \<Rightarrow> ustr option) \<Rightarrow>
   's stream_ops \<Rightarrow> request decoder \<Rightarrow> response encoder \<Rightarrow> (ustr + (ustr + u32) \<times> instant \<times> 's) list \<Rightarrow>
   's broker_main_out" where
  "broker_main env exists_path result ops dec enc conns =
     (case run_ops result (setup_ops exists_path (broker_sock env)) of
        (done, Some e) \<Rightarrow> \<lparr>bm_ops = done, bm_result = Inl e\<rparr>
      | (done, None) \<Rightarrow> \<lparr>bm_ops = done, bm_result = Inr (serve ops dec enc conns store_new)\<rparr>)"

subsection \<open>Registration\<close>

text \<open>A D-Bus error as far as the loop looks at it.\<close>

datatype bus_error = MethodError ustr "ustr option" | OtherBusError ustr

fun is_agent_already_registered :: "bus_error \<Rightarrow> bool" where
  "is_agent_already_registered (MethodError name detail) \<longleftrightarrow>
     ends_with (lit ''.Error.Failed'') name \<and>
     (case detail of Some d \<Rightarrow> contains (lit ''already exists'') d | None \<Rightarrow> False)"
| "is_agent_already_registered (OtherBusError e) \<longleftrightarrow> False"

definition REGISTER_RETRIES :: nat where
  "REGISTER_RETRIES = 8"

definition AGENT_OBJECT_PATH :: ustr where
  "AGENT_OBJECT_PATH = lit ''/com/github/sentinel/PolkitAgent''"

definition BYPASS_OBJECT_PATH :: ustr where
  "BYPASS_OBJECT_PATH = lit ''/org/sentinel/Agent''"

text \<open>
  The retry loop: \<open>attempts\<close> is how many are left, \<open>answer k\<close> what polkit says at the
  \<open>k\<close>-th call. The result is the error it ends with or success, the calls made, and the log.
\<close>

definition registered_line :: "nat \<Rightarrow> level \<times> ustr" where
  "registered_line attempt =
     (LvlInfo,
      if attempt > 1
      then lit ''registered as polkit auth agent on attempt '' @ show_nat attempt @
        lit '' (a competitor was holding the registration)''
      else lit ''registered as polkit auth agent (object path '' @ AGENT_OBJECT_PATH @ lit '')'')"

definition retry_line :: "nat \<Rightarrow> level \<times> ustr" where
  "retry_line attempt =
     (LvlWarn, lit ''registration attempt '' @ show_nat attempt @ lit ''/'' @ show_nat REGISTER_RETRIES @
        lit '': another agent is registered, retrying in 500ms'')"

fun register_loop ::
  "(nat \<Rightarrow> bus_error option) \<Rightarrow> nat \<Rightarrow> nat \<Rightarrow> bus_error option \<Rightarrow> bus_error option \<times> nat \<times> (level \<times> ustr) list" where
  "register_loop answer k 0 last_err = (last_err, k, [])"
| "register_loop answer k (Suc attempts) last_err =
     (case answer k of
        None \<Rightarrow> (None, Suc k, [registered_line (Suc k)])
      | Some e \<Rightarrow>
          if \<not> is_agent_already_registered e then (Some e, Suc k, [])
          else
            (let (r, n, log) = register_loop answer (Suc k) attempts (Some e)
             in (r, n, retry_line (Suc k) # log)))"

definition register_agent :: "(nat \<Rightarrow> bus_error option) \<Rightarrow> bus_error option \<times> nat \<times> (level \<times> ustr) list" where
  "register_agent answer = register_loop answer 0 REGISTER_RETRIES None"

subsection \<open>The agent's \<open>run\<close>\<close>

text \<open>The two methods of polkit's authority that the agent calls.\<close>

datatype authority_call =
  RegisterAuthenticationAgent subject ustr ustr
| UnregisterAuthenticationAgent subject ustr

datatype agent_call =
  SConnectSystem | SSubject | SPublishAgent ustr | SPublishBypass ustr | SRequestName ustr | SAuthorityProxy
| SAuthority authority_call | SSigterm | SSigint | SWaitSignal

text \<open>The steps before registration and after it, each with the context of its error.\<close>

definition agent_setup :: "(agent_call \<times> ustr) list" where
  "agent_setup =
     [(SConnectSystem, lit ''connect system bus''),
      (SSubject, lit ''build unix-session subject''),
      (SPublishAgent AGENT_OBJECT_PATH, lit ''publish AuthenticationAgent object''),
      (SPublishBypass BYPASS_OBJECT_PATH, lit ''publish bypass service''),
      (SRequestName (lit ''org.sentinel.Agent''), lit ''claim bypass bus name org.sentinel.Agent''),
      (SAuthorityProxy, lit ''build Authority proxy'')]"

definition agent_signals :: "(agent_call \<times> ustr) list" where
  "agent_signals = [(SSigterm, lit ''install SIGTERM handler''), (SSigint, lit ''install SIGINT handler'')]"

fun run_calls :: "(agent_call \<Rightarrow> bool) \<Rightarrow> (agent_call \<times> ustr) list \<Rightarrow> agent_call list \<times> ustr option" where
  "run_calls ok [] = ([], None)"
| "run_calls ok ((c, context) # cs) =
     (if ok c then (let (done, r) = run_calls ok cs in (c # done, r)) else ([c], Some context))"

record agent_main_out =
  am_calls :: "agent_call list"
  am_log :: "(level \<times> ustr) list"
  am_result :: "ustr + unit"

text \<open>
  \<open>ok\<close> says which call succeeds, \<open>subj\<close> is what \<open>current_subject\<close> returned, \<open>answer\<close> what polkit
  answers to each registration, \<open>sigterm\<close> which signal arrived, and \<open>unregister\<close> the answer to
  the last call, whose failure is only logged.
\<close>

definition call_ok :: "(agent_call \<Rightarrow> bool) \<Rightarrow> ustr + subject \<Rightarrow> agent_call \<Rightarrow> bool" where
  "call_ok ok subj c = (if c = SSubject then (case subj of Inr _ \<Rightarrow> True | Inl _ \<Rightarrow> False) else ok c)"

definition shutdown_log :: "bool \<Rightarrow> ustr option \<Rightarrow> (level \<times> ustr) list" where
  "shutdown_log sigterm unregister =
     (LvlInfo, if sigterm then lit ''SIGTERM'' else lit ''SIGINT'') #
     (case unregister of
        Some e \<Rightarrow> [(LvlWarn, lit ''UnregisterAuthenticationAgent failed: '' @ e)]
      | None \<Rightarrow> []) @
     [(LvlInfo, lit ''shutdown complete'')]"

definition agent_main ::
  "(agent_call \<Rightarrow> bool) \<Rightarrow> ustr + subject \<Rightarrow> (nat \<Rightarrow> bus_error option) \<Rightarrow> bool \<Rightarrow> ustr option \<Rightarrow> agent_main_out" where
  "agent_main ok subj answer sigterm unregister =
     (case (run_calls (call_ok ok subj) agent_setup, subj) of
        ((done, Some e), _) \<Rightarrow> \<lparr>am_calls = done, am_log = [], am_result = Inl e\<rparr>
      | ((done, None), Inl e) \<Rightarrow> \<lparr>am_calls = done, am_log = [], am_result = Inl e\<rparr>
      | ((done, None), Inr subject) \<Rightarrow>
          (let register = SAuthority (RegisterAuthenticationAgent subject [] AGENT_OBJECT_PATH)
           in case register_agent answer of
                (Some e, n, log) \<Rightarrow>
                  \<lparr>am_calls = done @ replicate n register, am_log = log,
                   am_result = Inl (lit ''Authority.RegisterAuthenticationAgent'')\<rparr>
              | (None, n, log) \<Rightarrow>
                  (case run_calls (call_ok ok subj) agent_signals of
                     (done', Some e) \<Rightarrow>
                       \<lparr>am_calls = done @ replicate n register @ done', am_log = log, am_result = Inl e\<rparr>
                   | (done', None) \<Rightarrow>
                       \<lparr>am_calls = done @ replicate n register @ done' @
                          [SWaitSignal, SAuthority (UnregisterAuthenticationAgent subject AGENT_OBJECT_PATH)],
                        am_log = log @ shutdown_log sigterm unregister,
                        am_result = Inr ()\<rparr>)))"

subsection \<open>The agent's \<open>main\<close>\<close>

datatype gen_subcommand = Completions ustr | Man

record agent_args =
  aa_generate :: "gen_subcommand option"
  aa_session_id :: "ustr option"
  aa_debug :: bool

text \<open>
  \<open>run_gen\<close>: the generators of \<open>clap_complete\<close> and \<open>clap_mangen\<close> are parameters; only the manual
  page can fail to be written.
\<close>

definition run_gen :: "(ustr \<Rightarrow> byte list) \<Rightarrow> ustr + byte list \<Rightarrow> gen_subcommand \<Rightarrow> byte list \<times> (ustr + unit)" where
  "run_gen completions man g =
     (case g of
        Completions shell \<Rightarrow> (completions shell, Inr ())
      | Man \<Rightarrow> (case man of Inr page \<Rightarrow> (page, Inr ()) | Inl e \<Rightarrow> ([], Inl e)))"

definition agent_init_logger :: "bool \<Rightarrow> bool \<Rightarrow> bool \<Rightarrow> log_state \<Rightarrow> log_state" where
  "agent_init_logger first_ok second_ok debug =
     init_syslog first_ok second_ok (if debug then LvlDebug else LvlInfo)"

record agent_world =
  aw_completions :: "ustr \<Rightarrow> byte list"
  aw_man :: "ustr + byte list"
  aw_syslog :: "bool \<times> bool"
  aw_runtime_error :: bool
  aw_subject :: "ustr option \<Rightarrow> ustr + subject"
  aw_ok :: "agent_call \<Rightarrow> bool"
  aw_answer :: "nat \<Rightarrow> bus_error option"
  aw_sigterm :: bool
  aw_unregister :: "ustr option"

record agent_process =
  ap_stdout :: "byte list"
  ap_log_state :: log_state
  ap_run :: "agent_main_out option"
  ap_result :: "ustr + unit"

definition agent_process_main :: "agent_world \<Rightarrow> log_state \<Rightarrow> agent_args \<Rightarrow> agent_process" where
  "agent_process_main w ls args =
     (case aa_generate args of
        Some g \<Rightarrow>
          (let (out, r) = run_gen (aw_completions w) (aw_man w) g
           in \<lparr>ap_stdout = out, ap_log_state = ls, ap_run = None, ap_result = r\<rparr>)
      | None \<Rightarrow>
          (let ls1 = agent_init_logger (fst (aw_syslog w)) (snd (aw_syslog w)) (aa_debug args) ls
           in if aw_runtime_error w
              then \<lparr>ap_stdout = [], ap_log_state = ls1, ap_run = None, ap_result = Inl (lit ''build tokio runtime'')\<rparr>
              else
                (let run = agent_main (aw_ok w) (aw_subject w (aa_session_id args)) (aw_answer w) (aw_sigterm w) (aw_unregister w)
                 in \<lparr>ap_stdout = [], ap_log_state = fold (\<lambda>(lvl, msg). log_macro lvl msg) (am_log run) ls1,
                     ap_run = Some run, ap_result = am_result run\<rparr>)))"

subsection \<open>Lemmas\<close>

lemma run_ops_None:
  "snd (run_ops result ops) = None \<longleftrightarrow> (\<forall>op\<in>set ops. must_succeed op \<longrightarrow> result op = None)"
  by (induction ops) (auto simp: case_prod_beta split: option.splits)

lemma run_ops_all: "snd (run_ops result ops) = None \<Longrightarrow> fst (run_ops result ops) = ops"
  by (induction ops) (auto simp: case_prod_beta split: option.splits if_splits)

lemma broker_main_Inr:
  "bm_result (broker_main env ex result ops dec enc conns) = Inr r \<longleftrightarrow>
     snd (run_ops result (setup_ops ex (broker_sock env))) = None \<and> r = serve ops dec enc conns store_new"
  by (auto simp: broker_main_def split: prod.splits option.splits)

lemma default_parent: "path_parent DEFAULT_SOCK_PATH = Some (lit ''/run/sentinel-broker'')"
  by (simp add: path_parent_def DEFAULT_SOCK_PATH_def)

lemma run_calls_None:
  assumes "run_calls ok cs = (done, None)"
  shows "done = map fst cs \<and> (\<forall>c\<in>fst ` set cs. ok c)"
  using assms by (induction cs arbitrary: "done") (simp, fastforce split: if_splits prod.splits)

lemma run_calls_subset: "run_calls ok cs = (done, r) \<Longrightarrow> set done \<subseteq> fst ` set cs"
proof (induction cs arbitrary: "done")
  case (Cons x cs)
  obtain c msg where x: "x = (c, msg)" by force
  from Cons show ?case by (cases "run_calls ok cs") (fastforce simp: x split: if_splits)
qed simp

lemma register_loop_first:
  assumes "\<forall>j<m. \<exists>e. answer (k + j) = Some e \<and> is_agent_already_registered e" "m < n"
    "answer (k + m) = None"
  shows "\<exists>log. register_loop answer k n le = (None, Suc (k + m), log)"
  using assms
proof (induction m arbitrary: k n le)
  case 0
  then show ?case by (cases n) auto
next
  case (Suc m)
  obtain n' where n: "n = Suc n'" using Suc.prems(2) by (cases n) auto
  obtain e where e: "answer k = Some e" "is_agent_already_registered e" using Suc.prems(1) by force
  have "\<forall>j<m. \<exists>e. answer (Suc k + j) = Some e \<and> is_agent_already_registered e"
    using Suc.prems(1) by (metis Suc_less_eq add_Suc_shift)
  from Suc.IH [OF this, of n' "Some e"] Suc.prems(2,3) n e show ?case by auto
qed

lemma register_loop_result:
  "register_loop answer k m le = (r, n, log) \<Longrightarrow> 0 < m \<or> le \<noteq> None \<Longrightarrow>
     n \<le> k + m \<and> (0 < m \<longrightarrow> k < n) \<and> (r = None \<longrightarrow> 0 < n \<and> answer (n - 1) = None)"
proof (induction m arbitrary: k le log)
  case (Suc m)
  show ?case
  proof (cases "answer k")
    case None
    with Suc.prems show ?thesis by auto
  next
    case (Some e)
    show ?thesis
    proof (cases "is_agent_already_registered e")
      case True
      with Suc.prems(1) Some obtain log' where "register_loop answer (Suc k) m (Some e) = (r, n, log')"
        by (auto split: prod.splits)
      from Suc.IH [OF this] show ?thesis using Suc.prems(1) Some True by (cases m) auto
    qed (use Suc.prems Some in auto)
  qed
qed auto

lemma register_agent_result:
  assumes "register_agent answer = (r, n, log)"
  shows "1 \<le> n \<and> n \<le> 8 \<and> (r = None \<longrightarrow> answer (n - 1) = None)"
  using register_loop_result [of answer 0 REGISTER_RETRIES None r n log] assms
  by (simp add: register_agent_def REGISTER_RETRIES_def)

subsection \<open>Properties\<close>



text \<open>C39. The broker serves only on a private socket: at its default path, \<open>main\<close> serves connections
  exactly when binding the socket and setting its mode to 0600 succeed, and, when the directory
  was missing, creating it and setting its mode to 0700 before that; the mode of the socket is
  the last thing set before the first connection; a stale socket that cannot be removed is no
  error; and it starts without any grant. Any other failure ends the daemon with nothing served.\<close>

theorem broker_socket_private:
  assumes "env ''SENTINEL_BROKER_SOCK'' = None"
  shows "(bm_result (broker_main env ex result ops dec enc conns) = Inr r \<longleftrightarrow>
      r = serve ops dec enc conns store_new \<and>
      (\<not> ex (lit ''/run/sentinel-broker'') \<longrightarrow>
         result (OpCreateDirAll (lit ''/run/sentinel-broker'')) = None \<and>
         result (OpChmod (lit ''/run/sentinel-broker'') 448) = None) \<and>
      result (OpBind (lit ''/run/sentinel-broker/broker.sock'')) = None \<and>
      result (OpChmod (lit ''/run/sentinel-broker/broker.sock'') 384) = None) \<and>
    (bm_result (broker_main env ex result ops dec enc conns) = Inr r \<longrightarrow>
      (\<exists>pre. bm_ops (broker_main env ex result ops dec enc conns) =
         pre @ [OpRemoveFile (lit ''/run/sentinel-broker/broker.sock''), OpBind (lit ''/run/sentinel-broker/broker.sock''),
                OpChmod (lit ''/run/sentinel-broker/broker.sock'') 384]))"
proof -
  let ?dir = "lit ''/run/sentinel-broker''" and ?sock = "lit ''/run/sentinel-broker/broker.sock''"
  have ops: "setup_ops ex (broker_sock env) =
      (if ex ?dir then [] else [OpCreateDirAll ?dir, OpChmod ?dir 448]) @
      [OpRemoveFile ?sock, OpBind ?sock, OpChmod ?sock 384]"
    using assms default_parent
    by (simp add: setup_ops_def broker_sock_def DEFAULT_SOCK_PATH_def Let_def del: lit_simps)
  have "snd (run_ops result (setup_ops ex (broker_sock env))) = None \<longleftrightarrow>
      (\<not> ex ?dir \<longrightarrow> result (OpCreateDirAll ?dir) = None \<and> result (OpChmod ?dir 448) = None) \<and>
      result (OpBind ?sock) = None \<and> result (OpChmod ?sock 384) = None"
    unfolding run_ops_None ops by (auto simp del: lit_simps)
  moreover have "bm_ops (broker_main env ex result ops dec enc conns) = setup_ops ex (broker_sock env)"
    if "snd (run_ops result (setup_ops ex (broker_sock env))) = None"
    using run_ops_all [OF that] that by (cases "run_ops result (setup_ops ex (broker_sock env))") (simp add: broker_main_def)
  ultimately show ?thesis unfolding broker_main_Inr ops by (auto simp del: lit_simps)
qed

theorem broker_socket_private_witness:
  "bm_result (broker_main (\<lambda>_. None) (\<lambda>_. True) (\<lambda>op. if op = OpRemoveFile (lit ''/run/sentinel-broker/broker.sock'') then Some [] else None)
     buffer_ops (\<lambda>_. Inl []) (\<lambda>_. Inl []) []) = Inr ([], store_new, [])"
  using broker_socket_private [of "\<lambda>_. None" "\<lambda>_. True"
      "\<lambda>op. if op = OpRemoveFile (lit ''/run/sentinel-broker/broker.sock'') then Some [] else None"
      buffer_ops "\<lambda>_. Inl []" "\<lambda>_. Inl []" "[]" "([], store_new, [])"]
  by simp

text \<open>Audit lines reach syslog exactly once, whoever owns the process's logger: after one set-up in
  which syslog is reachable, an emitted line is in syslog once with the severity of its level,
  through the module's own logger if it could register (then the level filter applies) and
  through the side channel if the host program registered first (then every line is kept).\<close>

theorem audit_emit_reaches_syslog:
  assumes "\<not> ls_fallback s" "ls_global s \<noteq> Some OwnSyslog"
  shows "ls_syslog (audit_emit lvl msg (init_syslog True True m s)) =
    ls_syslog s @ (if ls_global s = None \<and> m < lvl then [] else [(severity_of lvl, msg)])"
  using assms
  by (cases "ls_global s"; cases "the (ls_global s)")
    (auto simp: audit_emit_def init_syslog_def log_macro_def Let_def not_le split: option.splits)

theorem audit_emit_reaches_syslog_witness:
  "ls_syslog (audit_emit LvlInfo [97] (init_syslog True True LvlInfo
     \<lparr>ls_global = Some HostLogger, ls_max_level = None, ls_fallback = False, ls_syslog = [], ls_host = []\<rparr>)) = [(SevInfo, [97])]"
  using audit_emit_reaches_syslog [of "\<lparr>ls_global = Some HostLogger, ls_max_level = None, ls_fallback = False,
      ls_syslog = [], ls_host = []\<rparr>" LvlInfo "[97]" LvlInfo]
  by simp

text \<open>If the first \<open>m < 8\<close> answers say that another agent is registered and the next is success, the
  agent is registered with exactly \<open>m + 1\<close> calls.\<close>

theorem register_agent_retries:
  assumes "\<forall>j<m. \<exists>e. answer j = Some e \<and> is_agent_already_registered e" "m < REGISTER_RETRIES" "answer m = None"
  shows "\<exists>log. register_agent answer = (None, Suc m, log)"
  using register_loop_first [of m answer 0 REGISTER_RETRIES None] assms by (simp add: register_agent_def)

theorem register_agent_retries_witness:
  "\<exists>log. register_agent (\<lambda>k. if k < 2 then Some (MethodError (lit ''org.freedesktop.PolicyKit1.Error.Failed'') (Some (lit ''An agent already exists'')))
     else None) = (None, 3, log)"
proof -
  let ?a = "\<lambda>k :: nat. if k < 2 then Some (MethodError (lit ''org.freedesktop.PolicyKit1.Error.Failed'') (Some (lit ''An agent already exists'')))
     else None"
  have "is_agent_already_registered (MethodError (lit ''org.freedesktop.PolicyKit1.Error.Failed'') (Some (lit ''An agent already exists'')))"
    by (simp add: str_eval)
  then show ?thesis
    using register_agent_retries [of 2 ?a] by (simp add: REGISTER_RETRIES_def del: lit_simps)
qed

text \<open>A second set-up is not without effect: it installs the side channel, and lines are doubled.\<close>

theorem init_syslog_twice_doubles:
  "ls_syslog (audit_emit LvlInfo msg (init_syslog True True LvlInfo (init_syslog True True LvlInfo
     \<lparr>ls_global = None, ls_max_level = None, ls_fallback = False, ls_syslog = [], ls_host = []\<rparr>))) =
   [(SevInfo, msg), (SevInfo, msg)]"
  by (simp add: audit_emit_def init_syslog_def log_macro_def Let_def)

end
