(* ===== verification/Pam_Entry.thy ===== *)
theory Pam_Entry
  imports Pam_Module Startup
begin

text \<open>
  The hook of the PAM module as the host program calls it (\<open>sm_authenticate\<close> of
  \<open>pam-sentinel/src/lib.rs\<close>, from its arguments on): the log is set up, the decision of
  \<open>Pam_Module.sm_authenticate\<close> is made with the broker at the address the environment names
  (\<open>broker_client.rs\<close>), and its records go through the process's logger. The theory shows what
  the host program controls: its logger, its environment and its argument vector.
\<close>

subsection \<open>The hooks\<close>

text \<open>
  How the module reaches the broker: the connection made for a request to the socket at an
  address, the stream it yields, and the codec. The address is read from the environment of
  the process, in which by then only the display may have been set.
\<close>

record 's broker_link =
  bl_connect :: "request \<Rightarrow> ustr \<Rightarrow> 's option"
  bl_ops :: "'s stream_ops"
  bl_enc :: "request encoder"
  bl_dec :: "response decoder"

definition broker_roundtrip :: "'s broker_link \<Rightarrow> env \<Rightarrow> request \<Rightarrow> response option" where
  "broker_roundtrip l e req =
     map_option fst
       (roundtrip_at (bl_connect l req) (bl_ops l) (bl_enc l) (bl_dec l)
          (sock_path (\<lambda>var. Option.bind (e var) from_utf8)) req)"

text \<open>The records of a run go through the macros of the \<open>log\<close> facade, one after the other.\<close>

fun level_of :: "log_level \<Rightarrow> level" where
  "level_of LError = LvlError"
| "level_of LWarn = LvlWarn"
| "level_of LInfo = LvlInfo"
| "level_of LDebug = LvlDebug"

definition log_all :: "log_record list \<Rightarrow> log_state \<Rightarrow> log_state" where
  "log_all = fold (\<lambda>(l, msg). log_macro (level_of l) msg)"

text \<open>
  One call of the hook: the broker, whether the two connections to syslog succeed, the arguments
  of the module's line in the PAM configuration, and the host. The state of the process is whether
  the log was set up and the log itself.
\<close>

record ('s, 'p) hook_call =
  hc_link :: "'s broker_link"
  hc_syslog :: "bool \<times> bool"
  hc_args :: "byte list list"
  hc_host :: "'p pam_host"

definition hook_debug :: "('s, 'p) hook_call \<Rightarrow> bool" where
  "hook_debug c \<longleftrightarrow> list_ex (\<lambda>a. a = [100, 101, 98, 117, 103]) (hc_args c)"

definition hook_host :: "('s, 'p) hook_call \<Rightarrow> 'p pam_host" where
  "hook_host c =
     (let h = hc_host c;
          e = snd (detect_for_user (h_read_dir h) (h_env h) (caller_uid (h_fs h) (h_getuid h) (h_getppid h)))
      in h\<lparr>h_broker := broker_roundtrip (hc_link c) e\<rparr>)"

definition pam_sm_authenticate ::
  "('s, 'p) hook_call \<Rightarrow> bool \<times> log_state \<Rightarrow> pam_result \<times> bool \<times> log_state" where
  "pam_sm_authenticate c st =
     (let (inited, ls) = pam_init_logger (fst (hc_syslog c)) (snd (hc_syslog c)) (hook_debug c) st;
          r = sm_authenticate (hook_host c)
      in (r, inited, log_all (pr_log r) ls))"

text \<open>A process that stays, such as a login manager, calls the hook again and again.\<close>

fun hook_calls ::
  "('s, 'p) hook_call list \<Rightarrow> bool \<times> log_state \<Rightarrow> pam_result list \<times> bool \<times> log_state" where
  "hook_calls [] st = ([], st)"
| "hook_calls (c # cs) st =
     (let (r, st1) = pam_sm_authenticate c st;
          (rs, st2) = hook_calls cs st1
      in (r # rs, st2))"

subsection \<open>What the log keeps\<close>

definition syslog_lines :: "level \<Rightarrow> log_record list \<Rightarrow> (severity \<times> ustr) list" where
  "syslog_lines m recs = [(severity_of (level_of l), msg). (l, msg) \<leftarrow> recs, level_of l \<le> m]"

lemma log_all_own:
  "ls_global s = Some OwnSyslog \<Longrightarrow> ls_max_level s = Some m \<Longrightarrow>
     log_all recs s = s\<lparr>ls_syslog := ls_syslog s @ syslog_lines m recs\<rparr>"
proof (induction recs arbitrary: s)
  case (Cons r recs)
  obtain l msg where r: "r = (l, msg)" by force
  have step: "log_all (r # recs) s = log_all recs (log_macro (level_of l) msg s)"
    by (simp add: log_all_def r)
  show ?case
    unfolding step using Cons.prems Cons.IH [of "log_macro (level_of l) msg s"]
    by (simp add: log_macro_def syslog_lines_def r)
qed (simp add: log_all_def syslog_lines_def)

lemma log_all_host:
  "ls_global s = Some HostLogger \<Longrightarrow>
     ls_syslog (log_all recs s) = ls_syslog s \<and> ls_global (log_all recs s) = Some HostLogger \<and>
     ls_fallback (log_all recs s) = ls_fallback s"
proof (induction recs arbitrary: s)
  case (Cons r recs)
  obtain l msg where r: "r = (l, msg)" by force
  have step: "log_all (r # recs) s = log_all recs (log_macro (level_of l) msg s)"
    by (simp add: log_all_def r)
  show ?case
    unfolding step using Cons.prems Cons.IH [of "log_macro (level_of l) msg s"]
    by (simp add: log_macro_def)
qed (simp add: log_all_def)

definition log_owned :: "level \<Rightarrow> bool \<times> log_state \<Rightarrow> bool" where
  "log_owned m st \<longleftrightarrow>
     fst st \<and> ls_global (snd st) = Some OwnSyslog \<and> ls_max_level (snd st) = Some m"

lemma hook_keeps_own:
  assumes "log_owned m st" "pam_sm_authenticate c st = (r, st1)"
  shows "log_owned m st1 \<and> ls_syslog (snd st1) = ls_syslog (snd st) @ syslog_lines m (pr_log r) \<and>
    r = sm_authenticate (hook_host c)"
  using assms
  by (cases st) (auto simp: log_owned_def pam_sm_authenticate_def pam_init_logger_def log_all_own Let_def)

lemma hooks_keep_own:
  "log_owned m st \<Longrightarrow> hook_calls cs st = (rs, st1) \<Longrightarrow>
     rs = map (\<lambda>c. sm_authenticate (hook_host c)) cs \<and>
     ls_syslog (snd st1) = ls_syslog (snd st) @ concat (map (\<lambda>r. syslog_lines m (pr_log r)) rs)"
proof (induction cs arbitrary: st rs st1)
  case (Cons c cs)
  obtain r st2 where r: "pam_sm_authenticate c st = (r, st2)" by (metis prod.collapse)
  obtain rs' st3 where rs: "hook_calls cs st2 = (rs', st3)" by (metis prod.collapse)
  note k = hook_keeps_own [OF Cons.prems(1) r]
  with Cons.IH [OF _ rs] Cons.prems(2) show ?case by (auto simp: r rs)
qed simp

lemma first_hook_owns:
  assumes "fst (hc_syslog c)" "ls_global s = None"
  shows "\<exists>m. LvlInfo \<le> m \<and>
    pam_sm_authenticate c (False, s) = pam_sm_authenticate c (True, s\<lparr>ls_global := Some OwnSyslog, ls_max_level := Some m\<rparr>)"
  using assms
  by (intro exI [of _ "if hook_debug c then LvlDebug else LvlInfo"])
    (simp add: pam_sm_authenticate_def pam_init_logger_def init_syslog_def less_eq_level_def)

lemma hook_host_logger:
  assumes "ls_global (snd st) = Some HostLogger" "pam_sm_authenticate c st = (r, st1)"
  shows "ls_global (snd st1) = Some HostLogger \<and> ls_syslog (snd st1) = ls_syslog (snd st) \<and>
    (ls_fallback (snd st) \<longrightarrow> ls_fallback (snd st1))"
proof -
  obtain inited ls where i: "pam_init_logger (fst (hc_syslog c)) (snd (hc_syslog c)) (hook_debug c) st = (inited, ls)"
    by (metis prod.collapse)
  then have "ls_global ls = Some HostLogger \<and> ls_syslog ls = ls_syslog (snd st) \<and> (ls_fallback (snd st) \<longrightarrow> ls_fallback ls)"
    using assms(1) by (cases st) (auto simp: pam_init_logger_def init_syslog_def split: bool.splits if_splits)
  then show ?thesis using assms(2) i log_all_host [of ls] by (auto simp: pam_sm_authenticate_def Let_def)
qed

text \<open>
  When the host program registered its logger first, the module sets up the side channel for
  its audit lines and then never writes to it: nothing reaches syslog.
\<close>

lemma hooks_host_logger:
  "ls_global (snd st) = Some HostLogger \<Longrightarrow>
     ls_syslog (snd (snd (hook_calls cs st))) = ls_syslog (snd st) \<and>
     (ls_fallback (snd st) \<longrightarrow> ls_fallback (snd (snd (hook_calls cs st))))"
proof (induction cs arbitrary: st)
  case (Cons c cs)
  obtain r st2 where r: "pam_sm_authenticate c st = (r, st2)" by (metis prod.collapse)
  from hook_host_logger [OF Cons.prems r] Cons.IH [of st2] show ?case by (simp add: r case_prod_beta)
qed simp

lemma host_logger_loses_audit:
  assumes "ls_global s = Some HostLogger" "\<not> ls_fallback s" "hc_syslog c = (True, True)"
  shows "ls_syslog (snd (snd (hook_calls (c # cs) (False, s)))) = ls_syslog s \<and>
    ls_fallback (snd (snd (hook_calls (c # cs) (False, s))))"
proof -
  have "hook_calls (c # cs) (False, s) = hook_calls (c # cs) (True, s\<lparr>ls_fallback := True\<rparr>)"
    using assms by (simp add: pam_sm_authenticate_def pam_init_logger_def init_syslog_def)
  then show ?thesis using hooks_host_logger [of "(True, s\<lparr>ls_fallback := True\<rparr>)" "c # cs"] assms(1) by simp
qed

subsection \<open>Lines that say a request was let in\<close>

abbreviation debug_only :: "log_record list \<Rightarrow> log_record list" where
  "debug_only \<equiv> filter (\<lambda>(l, _). l = LDebug)"

lemma load_from_debug: "\<not> has_allow (debug_only (snd (load_from f r p)))"
  using load_from_no_allow [of f r p] by (fastforce simp: has_event_def)

lemma bypass_debug: "\<not> has_allow (debug_only (fst (snd (check_agent_bypass h))))"
  by (auto simp: check_agent_bypass_def Let_def query_agent_def starts_with_def
      split: option.splits sum.splits bool.splits)

lemma headless_debug: "\<not> has_allow (debug_only (snd (handle_headless h cfg svc user)))"
  by (auto simp: handle_headless_def Let_def starts_with_def split: headless_action.splits)

lemma policy_debug:
  "check_policy h cfg svc user process uid = Some (rc, log) \<Longrightarrow> debug_only log = []"
  by (auto simp: check_policy_def Let_def split: policy_decision.splits)

lemma interactive_debug:
  "debug_only (fst (snd (authenticate_interactive h cfg svc user process uid))) = []"
proof -
  have "debug_only (snd (spawn_dialog h req)) = []" for req
    by (simp add: spawn_dialog_def dialog_log_def Let_def split: sum.splits)
  moreover have "debug_only (map (\<lambda>m. (LWarn, m)) ms) = []" for ms by (induction ms) simp_all
  ultimately show ?thesis
    by (simp add: authenticate_interactive_def Let_def case_prod_beta split: option.split)
qed

lemma no_debug_allow: "\<not> has_allow (debug_only (pr_log (sm_authenticate h)))"
proof -
  obtain rc log calls where b: "check_agent_bypass h = (rc, log, calls)" by (metis prod.collapse)
  then have l: "\<not> has_allow (debug_only log)" using bypass_debug [of h] by simp
  note d = l load_from_debug headless_debug interactive_debug disabled_no_allow
  show ?thesis
    by (cases rc) (auto simp: sm_authenticate_def b Let_def case_prod_beta d
        split: option.splits dest!: policy_debug simp del: lit_simps)
qed

definition says_allow :: "(severity \<times> ustr) list \<Rightarrow> bool" where
  "says_allow ls \<longleftrightarrow> (\<exists>(sev, line)\<in>set ls. starts_with (lit ''event=auth.allow'') line)"

lemma syslog_says_allow:
  assumes "LvlInfo \<le> m"
  shows "says_allow (syslog_lines m (pr_log (sm_authenticate h))) \<longleftrightarrow> has_allow (pr_log (sm_authenticate h))"
proof -
  have loud: "level_of l \<le> m" if "l \<noteq> LDebug" for l
    using assms that by (cases l; cases m) (simp_all add: less_eq_level_def)
  have "\<not> starts_with (lit ''event=auth.allow'') line" if "(LDebug, line) \<in> set (pr_log (sm_authenticate h))" for line
    using no_debug_allow [of h] that by (fastforce simp: has_event_def simp del: lit_simps)
  with loud show ?thesis
    unfolding says_allow_def has_event_def syslog_lines_def
    by (auto simp del: lit_simps) (metis+)
qed

text \<open>Which broker answers changes nothing else a run looks at.\<close>

lemma with_broker [simp]:
  "pam_service (h\<lparr>h_broker := b\<rparr>) = pam_service h" "pam_cfg (h\<lparr>h_broker := b\<rparr>) = pam_cfg h"
  "pam_uid (h\<lparr>h_broker := b\<rparr>) = pam_uid h" "pam_process (h\<lparr>h_broker := b\<rparr>) = pam_process h"
  by (simp_all add: pam_service_def pam_cfg_def pam_uid_def pam_process_def)

lemma with_broker_view [simp]:
  "pam_display (h\<lparr>h_broker := b\<rparr>) = pam_display h" "pam_policy (h\<lparr>h_broker := b\<rparr>) = pam_policy h"
  "pam_key (h\<lparr>h_broker := b\<rparr>) = pam_key h" "bypass_user (h\<lparr>h_broker := b\<rparr>) = bypass_user h"
  by (simp_all add: pam_display_def pam_policy_def pam_key_def bypass_user_def cong: option.case_cong)

lemma with_broker_agent [simp]:
  "agent_approved (h\<lparr>h_broker := b\<rparr>) = agent_approved h"
  "pam_interactive (h\<lparr>h_broker := b\<rparr>) = pam_interactive h"
  by (simp_all add: agent_approved_def pam_interactive_def cong: option.case_cong)

lemma hook_host_view [simp]:
  "pam_cfg (hook_host c) = pam_cfg (hc_host c)" "pam_key (hook_host c) = pam_key (hc_host c)"
  "pam_interactive (hook_host c) = pam_interactive (hc_host c)"
  by (simp_all add: hook_host_def Let_def)

lemma with_broker_dialog [simp]: "dialog_allows (h\<lparr>h_broker := b\<rparr>) = dialog_allows h"
  by (simp add: dialog_allows_def dialog_result_def pam_request_def resolve_user_def cong: sum.case_cong option.case_cong)

lemma hook_host_dialog [simp]: "dialog_allows (hook_host c) = dialog_allows (hc_host c)"
  by (simp add: hook_host_def Let_def)

subsection \<open>The words of a command line\<close>

text \<open>The argument vector in \<open>/proc/<pid>/cmdline\<close>, read as the white-space words of its arguments.\<close>

definition argument_words :: "byte list list \<Rightarrow> ustr list" where
  "argument_words args = concat (map (\<lambda>a. split_whitespace (from_utf8_lossy a)) args)"

definition set_cmdline :: "pid \<Rightarrow> byte list list \<Rightarrow> fs \<Rightarrow> fs" where
  "set_cmdline p args w = w\<lparr>read_file := (read_file w)(proc_path p ''cmdline'' \<mapsto> nul_terminated args)\<rparr>"

definition plain_args :: "byte list list \<Rightarrow> bool" where
  "plain_args args \<longleftrightarrow> args \<noteq> [] \<and> list_all (\<lambda>a. 0 \<notin> set a \<and> a \<noteq> []) args"

lemma split_whitespace_join_concat:
  "split_whitespace (join [32] parts) = concat (map split_whitespace parts)"
  by (induction "[32::nat]" parts rule: join.induct) (simp_all add: split_whitespace_append_ws is_whitespace_def)

lemma set_cmdline_words:
  assumes "0 < p" "plain_args args"
  shows "\<exists>cmd. read_cmdline (set_cmdline p args w) p = Some cmd \<and> split_whitespace cmd = argument_words args"
  using assms
  by (simp add: plain_args_def read_cmdline_def set_cmdline_def cmdline_parts_nul_terminated list_all_iff
      split_whitespace_join_concat argument_words_def o_def)

lemma last_proc_path: "entry \<noteq> [] \<Longrightarrow> last (proc_path p entry) = of_char (last entry)"
  by (simp add: proc_path_def lit_def last_map)

lemma proc_path_not_cmdline:
  "proc_path q ''loginuid'' \<noteq> proc_path p ''cmdline''" "proc_path q ''sessionid'' \<noteq> proc_path p ''cmdline''"
  "proc_path q ''status'' \<noteq> proc_path p ''cmdline''"
  using last_proc_path [of "''cmdline''" p] last_proc_path [of "''loginuid''" q]
    last_proc_path [of "''sessionid''" q] last_proc_path [of "''status''" q] by auto

lemma set_cmdline_ids [simp]:
  "read_proc_u32 (set_cmdline p args w) q ''loginuid'' = read_proc_u32 w q ''loginuid''"
  "read_proc_u32 (set_cmdline p args w) q ''sessionid'' = read_proc_u32 w q ''sessionid''"
  "caller_uid (set_cmdline p args w) u q = caller_uid w u q"
  by (simp_all add: read_proc_u32_def caller_uid_def read_to_string_def set_cmdline_def proc_path_not_cmdline
      cong: option.case_cong)

lemma for_pid_words:
  assumes "read_cmdline w p = Some cmd" "split_whitespace cmd = first # rest"
    and tool: "leading_basename first \<in> set ELEVATION_TOOLS"
  shows "pi_remember_command (for_pid w p) =
      (if skip_options rest = [] then None else remember_command_for (join [32] (skip_options rest))) \<and>
    pi_policy_exe (for_pid w p) = (case skip_options rest of [] \<Rightarrow> None | t # _ \<Rightarrow> Some t)"
proof -
  have strip: "strip_elevation_prefix cmd = join [32] (skip_options rest)"
    using assms(2) tool by (simp add: strip_elevation_prefix_def)
  have cmd: "cmd \<noteq> []" using assms(2) by auto
  show ?thesis
  proof (cases "skip_options rest")
    case Nil
    then have "bare_elevation cmd" using strip cmd by (simp add: bare_elevation_def)
    with for_pid_bare [OF assms(1)] Nil show ?thesis by simp
  next
    case (Cons t ts)
    have words: "split_whitespace (strip_elevation_prefix cmd) = t # ts"
      using split_strip_elevation [OF assms(2)] tool Cons by simp
    then have "strip_elevation_prefix cmd \<noteq> []" by auto
    moreover have "strip_elevation_prefix cmd \<noteq> cmd" using strip_elevation_neq_iff [OF assms(2)] tool by simp
    ultimately have "resolve_target w p raw cmd =
        (t, strip_elevation_prefix cmd, remember_command_for (strip_elevation_prefix cmd), Some t)" for raw
      using cmd words by (simp add: resolve_target_def Let_def)
    then show ?thesis using Cons assms(1) strip by (simp add: for_pid_def)
  qed
qed

definition with_arguments :: "byte list list \<Rightarrow> 'p pam_host \<Rightarrow> 'p pam_host" where
  "with_arguments args h = h\<lparr>h_fs := set_cmdline (h_getpid h) args (h_fs h)\<rparr>"

lemma with_arguments_view [simp]:
  "pam_service (with_arguments args h) = pam_service h" "pam_cfg (with_arguments args h) = pam_cfg h"
  "pam_uid (with_arguments args h) = pam_uid h" "bypass_user (with_arguments args h) = bypass_user h"
  by (simp_all add: with_arguments_def pam_service_def pam_cfg_def pam_uid_def bypass_user_def cong: option.case_cong)

lemma with_arguments_broker: "h_broker (with_arguments args h) = h_broker h"
  by (simp add: with_arguments_def)

lemma with_arguments_gates [simp]:
  "pam_display (with_arguments args h) = pam_display h" "agent_approved (with_arguments args h) = agent_approved h"
  by (simp_all add: pam_display_def agent_approved_def cong: option.case_cong)
    (simp_all add: with_arguments_def cong: option.case_cong)

lemma with_arguments_process:
  assumes "0 < h_getpid h" "plain_args args" "argument_words args = first # rest"
    "leading_basename first \<in> set ELEVATION_TOOLS"
  shows "pi_remember_command (pam_process (with_arguments args h)) =
      (if skip_options rest = [] then None else remember_command_for (join [32] (skip_options rest))) \<and>
    pi_policy_exe (pam_process (with_arguments args h)) = (case skip_options rest of [] \<Rightarrow> None | t # _ \<Rightarrow> Some t)"
proof -
  obtain cmd where c: "read_cmdline (set_cmdline (h_getpid h) args (h_fs h)) (h_getpid h) = Some cmd"
    "split_whitespace cmd = argument_words args" using set_cmdline_words [OF assms(1,2)] by blast
  from for_pid_words [OF c(1) c(2) [unfolded assms(3)] assms(4)] show ?thesis
    by (simp add: pam_process_def with_arguments_def)
qed

subsection \<open>The broker's address\<close>

lemma hook_env_kept:
  assumes "var \<noteq> lit ''WAYLAND_DISPLAY''" "var \<noteq> lit ''XDG_RUNTIME_DIR''"
  shows "snd (detect_for_user rd e uid) var = e var"
  using detect_frame [of rd e uid _ _ var] assms by (metis prod.collapse)

lemma hook_broker:
  "h_broker (hook_host c) req =
     map_option fst (roundtrip_at (bl_connect (hc_link c) req) (bl_ops (hc_link c)) (bl_enc (hc_link c)) (bl_dec (hc_link c))
       (sock_path (\<lambda>var. Option.bind (h_env (hc_host c) var) from_utf8)) req)"
proof -
  have "lit ''SENTINEL_BROKER_SOCK'' \<noteq> lit ''WAYLAND_DISPLAY''" "lit ''SENTINEL_BROKER_SOCK'' \<noteq> lit ''XDG_RUNTIME_DIR''"
    by simp_all
  then show ?thesis
    by (simp add: hook_host_def Let_def broker_roundtrip_def sock_path_def hook_env_kept del: lit_simps)
qed

text \<open>
  The daemon at the other end: it listens at its default socket, serves the connection from the
  given store at the given time, and sees a peer that is root, as the module's process is.
\<close>

definition daemon_link ::
  "request encoder \<Rightarrow> request decoder \<Rightarrow> response encoder \<Rightarrow> response decoder \<Rightarrow> remember_store \<Rightarrow> instant \<Rightarrow>
     connection broker_link" where
  "daemon_link encq decq encr decr store now =
     \<lparr>bl_connect = (\<lambda>_ sock. if sock = DEFAULT_SOCK then Some \<lparr>cn_sent = [], cn_reply = None, cn_store = store\<rparr> else None),
      bl_ops = connection_ops decq encr (Inr 0) now, bl_enc = encq, bl_dec = decr\<rparr>"

lemma hook_broker_daemon:
  assumes "h_env (hc_host c) (lit ''SENTINEL_BROKER_SOCK'') = None"
    and "hc_link c = daemon_link encq decq encr decr store now"
    and "carries encq decq req" "carries encr decr (fst (dispatch req store now))"
  shows "h_broker (hook_host c) req = Some (fst (dispatch req store now))"
proof -
  from assms(3) obtain b where b: "encq req = Inr b" "decq b = Inr req" "length b \<le> MAX_FRAME_LEN" by (rule carriesE)
  from assms(4) obtain r where r: "encr (fst (dispatch req store now)) = Inr r"
    "decr r = Inr (fst (dispatch req store now))" "length r \<le> MAX_FRAME_LEN" by (rule carriesE)
  have "sock_path (\<lambda>var. Option.bind (h_env (hc_host c) var) from_utf8) = DEFAULT_SOCK"
    by (simp add: sock_path_def assms(1) del: lit_simps)
  moreover have "roundtrip_at (bl_connect (hc_link c) req) ops enc dec DEFAULT_SOCK req =
      roundtrip_at (\<lambda>_. Some \<lparr>cn_sent = [], cn_reply = None, cn_store = store\<rparr>) ops enc dec DEFAULT_SOCK req" for ops enc dec
    by (simp add: roundtrip_at_def assms(2) daemon_link_def)
  ultimately show ?thesis
    using roundtrip_served [of encq req b decq encr store now r decr DEFAULT_SOCK] b r
    by (simp add: hook_broker assms(2)) (simp add: daemon_link_def)
qed

subsection \<open>A concrete call\<close>

definition fake_link :: "(byte list \<times> byte list) broker_link" where
  "fake_link =
     \<lparr>bl_connect = (\<lambda>_ sock. if sock = lit ''/tmp/b'' then Some (frame [1], []) else None),
      bl_ops = socket_ops, bl_enc = (\<lambda>_. Inr [0]), bl_dec = (\<lambda>b. if b = [1] then Inr (Remember True) else Inl [])\<rparr>"

definition example_call :: "byte list \<Rightarrow> env \<Rightarrow> (byte list \<times> byte list, int) hook_call" where
  "example_call cmdline e =
     \<lparr>hc_link = fake_link, hc_syslog = (True, True), hc_args = [],
      hc_host = (example_host cmdline [] (\<lambda>_. None) [])\<lparr>h_env := (h_env (example_host cmdline [] (\<lambda>_. None) []))
        (lit ''SENTINEL_BROKER_SOCK'' := e (lit ''SENTINEL_BROKER_SOCK''))\<rparr>\<rparr>"

lemma example_call_view:
  "pam_interactive (hc_host (example_call sudo_pacman e))" "pam_key (hc_host (example_call sudo_pacman e)) = Some example_key"
  "remember_seconds (pam_cfg (hc_host (example_call sudo_pacman e))) = 300"
proof -
  let ?h = "hc_host (example_call sudo_pacman e)" and ?x = "example_host sudo_pacman [] (\<lambda>_. None) []"
  have v: "pam_cfg ?h = pam_cfg ?x" "pam_service ?h = pam_service ?x" "pam_uid ?h = pam_uid ?x" "pam_process ?h = pam_process ?x"
    by (simp_all add: example_call_def pam_cfg_def pam_service_def pam_uid_def pam_process_def)
  have d: "pam_display ?h"
    by (simp add: pam_display_def detect_for_user_def env_var_def example_call_def example_host_def from_utf8_def utf8_step_def)
  have a: "\<not> agent_approved ?h"
    using example_not_approved [of sudo_pacman "[]" "\<lambda>_. None" "[]"]
    by (simp add: agent_approved_def bypass_user_def example_call_def example_host_def)
  show "pam_key ?h = Some example_key"
    using example_pam_key [of "[]" "\<lambda>_. None" "[]"] v by (simp add: pam_key_def example_call_def)
  show "remember_seconds (pam_cfg ?h) = 300" using v example_cfg by simp
  show "pam_interactive ?h"
    using example_interactive [of "\<lambda>_. None" "[]"] v a d by (simp add: pam_interactive_def pam_policy_def)
qed

subsection \<open>Properties\<close>



text \<open>C17. The environment of the program that loads the module chooses the broker: when a request has to be
  asked for and may be remembered, and at the address in \<open>SENTINEL_BROKER_SOCK\<close>, whoever listens
  there, a live grant is reported, the request is let in without a dialog, whatever the broker at
  its own socket holds.\<close>

theorem environment_chooses_broker:
  assumes "pam_interactive (hc_host c)" "pam_key (hc_host c) = Some k" "0 < remember_seconds (pam_cfg (hc_host c))"
    and "Option.bind (h_env (hc_host c) (lit ''SENTINEL_BROKER_SOCK'')) from_utf8 = Some sock"
    and "roundtrip_at (bl_connect (hc_link c) req) (bl_ops (hc_link c)) (bl_enc (hc_link c)) (bl_dec (hc_link c)) sock req =
      Some (Remember True, str)"
    and "req = CheckRemember \<lparr>q_key = k, q_ttl_secs = remember_seconds (pam_cfg (hc_host c))\<rparr>"
  shows "pr_code (fst (pam_sm_authenticate c st)) = PAM_SUCCESS \<and>
    set (pr_calls (fst (pam_sm_authenticate c st))) \<subseteq> {CTakeApproval, CBroker req}"
proof -
  have "h_broker (hook_host c) req = Some (Remember True)"
    unfolding hook_broker sock_path_def by (simp add: assms(4,5) del: lit_simps)
  then have r: "remembered (hook_host c)"
    using assms(2,3,6) by (simp add: remembered_def check_remember_def)
  have i: "pam_interactive (hook_host c)" and k: "pam_key (hook_host c) = Some k" using assms(1,2) by simp_all
  have f: "fst (pam_sm_authenticate c st) = sm_authenticate (hook_host c)"
    by (simp add: pam_sm_authenticate_def Let_def case_prod_beta)
  have "set (pr_calls (sm_authenticate (hook_host c))) \<subseteq> {CTakeApproval, CBroker req}"
    unfolding sm_authenticate_calls pam_run_interactive_remembered(2) [OF r]
    using check_agent_bypass_calls [of "hook_host c"] k assms(6) by (auto simp: pam_asked_def split: if_splits)
  moreover have "pr_code (sm_authenticate (hook_host c)) = PAM_SUCCESS"
    using i r by (simp add: sm_authenticate_code pam_decision_def pam_interactive_def)
  ultimately show ?thesis by (simp add: f)
qed

theorem environment_chooses_broker_witness:
  "pr_code (fst (pam_sm_authenticate (example_call sudo_pacman [lit ''SENTINEL_BROKER_SOCK'' \<mapsto> [47, 116, 109, 112, 47, 98]])
     (False, \<lparr>ls_global = None, ls_max_level = None, ls_fallback = False, ls_syslog = [], ls_host = []\<rparr>))) = PAM_SUCCESS"
proof -
  let ?c = "example_call sudo_pacman [lit ''SENTINEL_BROKER_SOCK'' \<mapsto> [47, 116, 109, 112, 47, 98]]"
  let ?req = "CheckRemember \<lparr>q_key = example_key, q_ttl_secs = 300\<rparr>"
  have e: "Option.bind (h_env (hc_host ?c) (lit ''SENTINEL_BROKER_SOCK'')) from_utf8 = Some (lit ''/tmp/b'')"
    by (simp add: example_call_def from_utf8_def utf8_step_def)
  have "roundtrip_at (bl_connect fake_link ?req) (bl_ops fake_link) (bl_enc fake_link) (bl_dec fake_link) (lit ''/tmp/b'') ?req =
      Some (Remember True, ([], frame [0]))"
    using read_frame_buffer [of "[1]" "bl_dec fake_link" "[]"]
    by (simp add: fake_link_def roundtrip_at_def sock.read_frame_stream sock.write_frame_stream write_frame_buffer MAX_FRAME_LEN_def)
  then have "roundtrip_at (bl_connect (hc_link ?c) ?req) (bl_ops (hc_link ?c)) (bl_enc (hc_link ?c)) (bl_dec (hc_link ?c)) (lit ''/tmp/b'') ?req =
      Some (Remember True, ([], frame [0]))"
    by (simp add: example_call_def del: lit_simps)
  from environment_chooses_broker [OF example_call_view(1,2) _ e this] show ?thesis
    by (simp add: example_call_view(3) del: lit_simps)
qed

text \<open>C16. A grant and the policy do not see where one argument ends and the next begins: for two argument
  vectors of elevation tools whose white-space words agree after the options, the policy decides
  alike and the key of the request is the same, so that a live grant or an allow entry for the one
  lets the other in as well, without a dialog.\<close>

theorem arguments_only_as_words:
  assumes "0 < h_getpid h" "plain_args args" "plain_args args'"
    and "argument_words args = first # rest" "argument_words args' = first' # rest'"
    and "leading_basename first \<in> set ELEVATION_TOOLS" "leading_basename first' \<in> set ELEVATION_TOOLS"
    and "skip_options rest = skip_options rest'"
  shows "pam_key (with_arguments args' h) = pam_key (with_arguments args h) \<and>
    pam_policy (with_arguments args' h) = pam_policy (with_arguments args h) \<and>
    (enabled (pam_cfg h) \<and> pam_display h \<and>
       (pam_policy (with_arguments args h) = PAllow \<or>
        pam_policy (with_arguments args h) = PAsk \<and> remembered (with_arguments args h)) \<longrightarrow>
     pr_code (sm_authenticate (with_arguments args' h)) = PAM_SUCCESS \<and>
     (\<forall>req. CDialog req \<notin> set (pr_calls (sm_authenticate (with_arguments args' h)))))"
proof -
  let ?h = "with_arguments args h" and ?g = "with_arguments args' h"
  note p = with_arguments_process [OF assms(1,2,4,6)] and q = with_arguments_process [OF assms(1,3,5,7)]
  have proc: "pi_remember_command (pam_process ?g) = pi_remember_command (pam_process ?h)"
    "pi_policy_exe (pam_process ?g) = pi_policy_exe (pam_process ?h)"
    using p q assms(8) by simp_all
  then have pol: "pam_policy ?g = pam_policy ?h" by (simp add: pam_policy_def)
  have ids: "h_getppid ?g = h_getppid ?h" "read_proc_u32 (h_fs ?g) q ''loginuid'' = read_proc_u32 (h_fs ?h) q ''loginuid''"
    "read_proc_u32 (h_fs ?g) q ''sessionid'' = read_proc_u32 (h_fs ?h) q ''sessionid''" for q
    by (simp_all add: with_arguments_def)
  have key: "pam_key ?g = pam_key ?h" using proc ids by (simp add: pam_key_def remember_key_of_def)
  have rem: "remembered ?g \<longleftrightarrow> remembered ?h" using key by (simp add: remembered_def with_arguments_broker cong: option.case_cong)
  have "pr_code (sm_authenticate ?g) = PAM_SUCCESS \<and> (\<forall>req. CDialog req \<notin> set (pr_calls (sm_authenticate ?g)))"
    if "enabled (pam_cfg h)" "pam_display h" "pam_policy ?h = PAllow \<or> pam_policy ?h = PAsk \<and> remembered ?h"
  proof
    show "pr_code (sm_authenticate ?g) = PAM_SUCCESS"
      using that pol rem by (auto simp: sm_authenticate_code pam_decision_def)
    have "pam_interactive ?g \<Longrightarrow> remembered ?g" using that(3) pol rem by (auto simp: pam_interactive_def)
    then have "pam_interactive ?g \<Longrightarrow> snd (snd (pam_run_interactive ?g)) = pam_asked ?g"
      by (rule pam_run_interactive_remembered(2))
    then show "\<forall>req. CDialog req \<notin> set (pr_calls (sm_authenticate ?g))"
      unfolding sm_authenticate_calls using check_agent_bypass_calls [of ?g]
      by (cases "pam_interactive ?g") (auto simp: pam_asked_def split: option.splits if_splits)
  qed
  with key pol show ?thesis by blast
qed

theorem arguments_only_as_words_witness:
  "pr_code (sm_authenticate
     (with_arguments [[115, 117, 100, 111], [45, 105], [45, 112], [120, 32, 112, 97, 99, 109, 97, 110, 32, 45, 83, 121, 117]]
        (example_host sudo_pacman [] (\<lambda>req. Some (Remember (req = CheckRemember \<lparr>q_key = example_key, q_ttl_secs = 300\<rparr>))) []))) = PAM_SUCCESS"
proof -
  let ?b = "\<lambda>req. Some (Remember (req = CheckRemember \<lparr>q_key = example_key, q_ttl_secs = 300\<rparr>))"
  let ?h = "example_host sudo_pacman [] ?b []"
  let ?args = "[[115, 117, 100, 111], [112, 97, 99, 109, 97, 110], [45, 83, 121, 117]] :: byte list list"
  let ?args' = "[[115, 117, 100, 111], [45, 105], [45, 112], [120, 32, 112, 97, 99, 109, 97, 110, 32, 45, 83, 121, 117]] :: byte list list"
  have lossy: "map from_utf8_lossy ?args = map lit [''sudo'', ''pacman'', ''-Syu'']"
    "map from_utf8_lossy ?args' = map lit [''sudo'', ''-i'', ''-p'', ''x pacman -Syu'']"
    by (simp_all add: from_utf8_lossy_def utf8_step_def)
  have aw: "argument_words a = concat (map split_whitespace (map from_utf8_lossy a))" for a
    by (simp add: argument_words_def o_def)
  have words: "argument_words ?args = lit ''sudo'' # map lit [''pacman'', ''-Syu'']"
    "argument_words ?args' = lit ''sudo'' # map lit [''-i'', ''-p'', ''x'', ''pacman'', ''-Syu'']"
    unfolding aw lossy by (simp_all add: str_eval)
  have plain: "plain_args ?args" "plain_args ?args'" by (simp_all add: plain_args_def)
  have tool: "leading_basename (lit ''sudo'') \<in> set ELEVATION_TOOLS" by (simp add: str_eval)
  have skip: "skip_options (map lit [''pacman'', ''-Syu'']) = skip_options (map lit [''-i'', ''-p'', ''x'', ''pacman'', ''-Syu''])"
    by (simp add: str_eval)
  have "nul_terminated ?args = sudo_pacman" by (simp add: nul_terminated_def)
  then have same: "with_arguments ?args ?h = ?h"
    by (simp add: with_arguments_def set_cmdline_def example_host_def example_fs_def fun_upd_idem)
  have "h_broker ?h = ?b" by (simp add: example_host_def)
  then have "remembered ?h"
    unfolding remembered_def example_pam_key by (simp add: example_cfg check_remember_def)
  moreover have "pam_policy ?h = PAsk" using example_interactive by (simp add: pam_interactive_def)
  moreover have "0 < h_getpid ?h" by (simp add: example_host_def)
  ultimately show ?thesis
    using arguments_only_as_words [OF _ plain words tool tool skip, of ?h] same by (simp add: example_cfg del: lit_simps)
qed

end
