(* ===== verification/Event_System.thy ===== *)
theory Event_System
  imports Sentinel_Prelude
begin

text \<open>
  The interface of a transition system whose steps are named by events: what one event does (or
  that it cannot happen), the start, running a list of events, and the reachable states. The agent
  with its tasks and the broker with its threads are such systems; what holds of every one of them
  is proved here once.
\<close>

locale event_system =
  fixes step :: "'e \<Rightarrow> 's \<Rightarrow> 's option"
    and start :: 's
    and runs :: "'e list \<Rightarrow> 's \<Rightarrow> 's option"
    and reachable :: "'s \<Rightarrow> bool"
  assumes runs_Nil: "runs [] s = Some s"
    and runs_Cons: "runs (e # es) s = Option.bind (step e s) (runs es)"
    and reachable_start: "reachable start"
    and reachable_step: "reachable s \<Longrightarrow> step e s = Some s' \<Longrightarrow> reachable s'"
    and reachable_least: "reachable s \<Longrightarrow> P start \<Longrightarrow>
      (\<And>s e s'. reachable s \<Longrightarrow> P s \<Longrightarrow> step e s = Some s' \<Longrightarrow> P s') \<Longrightarrow> P s"
begin

lemma runs_append: "runs (xs @ ys) s = Option.bind (runs xs s) (runs ys)"
proof (induction xs arbitrary: s)
  case (Cons x xs)
  then show ?case by (cases "step x s") (simp_all add: runs_Cons)
qed (simp add: runs_Nil)

lemma runs_reachable: "reachable s \<Longrightarrow> runs es s = Some s' \<Longrightarrow> reachable s'"
proof (induction es arbitrary: s)
  case (Cons e es)
  then obtain t where "step e s = Some t" "runs es t = Some s'" by (cases "step e s") (simp_all add: runs_Cons)
  with Cons reachable_step show ?case by blast
qed (simp add: runs_Nil)

lemma invariant:
  assumes "reachable s" "P start" "\<And>s e s'. P s \<Longrightarrow> step e s = Some s' \<Longrightarrow> P s'"
  shows "P s"
  using assms(1,2) by (rule reachable_least) (rule assms(3))

lemma invariant_below:
  assumes "reachable s" "\<And>s. reachable s \<Longrightarrow> Q s" "P start"
    and "\<And>s e s'. Q s \<Longrightarrow> P s \<Longrightarrow> step e s = Some s' \<Longrightarrow> P s'"
  shows "P s"
  using assms(1,3) by (rule reachable_least) (blast intro: assms(2,4))

lemma reachable_iff_runs: "reachable s \<longleftrightarrow> (\<exists>es. runs es start = Some s)"
proof
  show "reachable s \<Longrightarrow> \<exists>es. runs es start = Some s"
  proof (erule reachable_least)
    show "\<exists>es. runs es start = Some start" using runs_Nil by blast
  next
    fix s e s'
    assume "\<exists>es. runs es start = Some s" and st: "step e s = Some s'"
    then obtain es where "runs es start = Some s" by blast
    with st have "runs (es @ [e]) start = Some s'" by (simp add: runs_append runs_Cons runs_Nil cong: bind_option_cong)
    then show "\<exists>es. runs es start = Some s'" by blast
  qed
  show "\<exists>es. runs es start = Some s \<Longrightarrow> reachable s" using runs_reachable [OF reachable_start] by blast
qed

end

end
