(* ===== verification/Agent_System.thy ===== *)
theory Agent_System
  imports Agent_Session Event_System
begin

text \<open>
  The polkit agent with many calls in flight (\<open>sentinel-polkit-agent/src/agent.rs\<close>). Its
  tasks share the serialising lock \<open>inflight\<close>, the map of running sessions and the
  approval queue, and give up control at their \<open>await\<close>s only; between two of them a task
  runs alone. A transition is therefore what one task does between two \<open>await\<close>s. The
  \<open>i\<close>-th call of \<open>BeginAuthentication\<close> has the action \<open>act i\<close> and the cookie \<open>ck i\<close>; its
  phase says how far it got. \<open>s_pushed\<close> and \<open>s_taken\<close> only record history.
\<close>

subsection \<open>States and events\<close>

datatype phase = Idle | Waiting | Locked | Deciding | Pushed | TaskDone | Aborted | Finished

datatype helper_end = HelperSuccess | HelperFailure | HelperError

datatype event =
  EvBegin nat | EvLock nat | EvReject nat | EvSpawn nat | EvDecline nat | EvPush nat
| EvHelper nat helper_end | EvCleanup nat | EvTake | EvCancel ustr | EvAbort ustr | EvTick nat

record agent_sys =
  s_now :: instant
  s_inflight :: "nat option"
  s_sessions :: "ustr \<rightharpoonup> nat"
  s_phase :: "nat \<Rightarrow> phase"
  s_queue :: approval_queue
  s_cancels :: "ustr list"
  s_pushed :: "(instant \<times> nat) list"
  s_taken :: "ustr list"

definition sys_init :: agent_sys where
  "sys_init =
     \<lparr>s_now = 0, s_inflight = None, s_sessions = Map.empty, s_phase = (\<lambda>_. Idle),
      s_queue = queue_new, s_cancels = [], s_pushed = [], s_taken = []\<rparr>"

definition set_phase :: "nat \<Rightarrow> phase \<Rightarrow> agent_sys \<Rightarrow> agent_sys" where
  "set_phase i p s = s\<lparr>s_phase := (s_phase s)(i := p)\<rparr>"

text \<open>The phases in which a call holds the lock.\<close>

definition holding :: "phase \<Rightarrow> bool" where
  "holding p \<longleftrightarrow> p \<in> {Locked, Deciding, Pushed, TaskDone, Aborted}"

text \<open>
  \<open>begin_authentication\<close>: wait for the lock; pick the identity (or give up, releasing it);
  spawn the session and enter it into the map in one step; the session declines, or
  pushes the approval and waits for polkit's helper; on a reported failure it drains the
  queue, on success or an error it does not; then the call removes its entry and returns,
  releasing the lock. An aborted session's channel closes, so its call returns too.

  \<open>cancel_authentication\<close>: drain the queue, then, after waiting for the map's lock, remove
  and abort the session of the cookie.

  \<open>TakeApproval\<close>: take one approval.
\<close>

definition cancel_drain :: "ustr \<Rightarrow> agent_sys \<Rightarrow> agent_sys" where
  "cancel_drain c s = s\<lparr>s_queue := drain (s_queue s), s_cancels := c # s_cancels s\<rparr>"

definition cancel_abort :: "ustr \<Rightarrow> agent_sys \<Rightarrow> agent_sys" where
  "cancel_abort c s =
     (let s1 = s\<lparr>s_cancels := remove1 c (s_cancels s)\<rparr>
      in case s_sessions s c of
           None \<Rightarrow> s1
         | Some i \<Rightarrow>
             (let s2 = s1\<lparr>s_sessions := (s_sessions s)(c := None)\<rparr>
              in if s_phase s i \<in> {Deciding, Pushed} then set_phase i Aborted s2 else s2))"

declare cancel_drain_def [simp] cancel_abort_def [simp]

fun sys_step :: "(nat \<Rightarrow> ustr) \<Rightarrow> (nat \<Rightarrow> ustr) \<Rightarrow> event \<Rightarrow> agent_sys \<Rightarrow> agent_sys option" where
  "sys_step act ck (EvBegin i) s = (if s_phase s i = Idle then Some (set_phase i Waiting s) else None)"
| "sys_step act ck (EvLock i) s =
     (if s_phase s i = Waiting \<and> s_inflight s = None
      then Some (set_phase i Locked s\<lparr>s_inflight := Some i\<rparr>) else None)"
| "sys_step act ck (EvReject i) s =
     (if s_phase s i = Locked then Some (set_phase i Finished s\<lparr>s_inflight := None\<rparr>) else None)"
| "sys_step act ck (EvSpawn i) s =
     (if s_phase s i = Locked
      then Some (set_phase i Deciding s\<lparr>s_sessions := (s_sessions s)(ck i \<mapsto> i)\<rparr>) else None)"
| "sys_step act ck (EvDecline i) s =
     (if s_phase s i = Deciding then Some (set_phase i TaskDone s) else None)"
| "sys_step act ck (EvPush i) s =
     (if s_phase s i = Deciding
      then Some (set_phase i Pushed s
             \<lparr>s_queue := push (s_queue s) (act i) (s_now s), s_pushed := s_pushed s @ [(s_now s, i)]\<rparr>)
      else None)"
| "sys_step act ck (EvHelper i r) s =
     (if s_phase s i = Pushed
      then Some (set_phase i TaskDone s
             \<lparr>s_queue := (if r = HelperFailure then drain (s_queue s) else s_queue s)\<rparr>)
      else None)"
| "sys_step act ck (EvCleanup i) s =
     (if s_phase s i = TaskDone \<or> s_phase s i = Aborted
      then Some (set_phase i Finished s
             \<lparr>s_sessions := (s_sessions s)(ck i := None), s_inflight := None\<rparr>)
      else None)"
| "sys_step act ck EvTake s =
     (case take_id (s_queue s) (s_now s) of
        (Some a, q) \<Rightarrow> Some (s\<lparr>s_queue := q, s_taken := s_taken s @ [a]\<rparr>)
      | (None, q) \<Rightarrow> Some (s\<lparr>s_queue := q\<rparr>))"
| "sys_step act ck (EvCancel c) s = Some (cancel_drain c s)"
| "sys_step act ck (EvAbort c) s = (if c \<notin> set (s_cancels s) then None else Some (cancel_abort c s))"
| "sys_step act ck (EvTick d) s = Some (s\<lparr>s_now := s_now s + d\<rparr>)"

fun run_events :: "(nat \<Rightarrow> ustr) \<Rightarrow> (nat \<Rightarrow> ustr) \<Rightarrow> event list \<Rightarrow> agent_sys \<Rightarrow> agent_sys option" where
  "run_events act ck [] s = Some s"
| "run_events act ck (ev # evs) s = Option.bind (sys_step act ck ev s) (run_events act ck evs)"

inductive reach :: "(nat \<Rightarrow> ustr) \<Rightarrow> (nat \<Rightarrow> ustr) \<Rightarrow> agent_sys \<Rightarrow> bool" for act ck where
  reach_init: "reach act ck sys_init"
| reach_step: "reach act ck s \<Longrightarrow> sys_step act ck ev s = Some s' \<Longrightarrow> reach act ck s'"

inductive_cases reach_cases: "reach act ck s"

subsection \<open>Basic facts\<close>

lemma set_phase_simps [simp]:
  "s_phase (set_phase i p s) = (s_phase s)(i := p)"
  "s_now (set_phase i p s) = s_now s"
  "s_inflight (set_phase i p s) = s_inflight s"
  "s_sessions (set_phase i p s) = s_sessions s"
  "s_queue (set_phase i p s) = s_queue s"
  "s_cancels (set_phase i p s) = s_cancels s"
  "s_pushed (set_phase i p s) = s_pushed s"
  "s_taken (set_phase i p s) = s_taken s"
  by (simp_all add: set_phase_def)

lemma set_phase_update_simps [simp]:
  "s_phase (set_phase i p s\<lparr>s_inflight := x\<rparr>) = (s_phase s)(i := p)"
  "s_phase (set_phase i p s\<lparr>s_sessions := y\<rparr>) = (s_phase s)(i := p)"
  "s_phase (set_phase i p s\<lparr>s_queue := z\<rparr>) = (s_phase s)(i := p)"
  by (simp_all add: set_phase_def)

lemma holding_simps [simp]:
  "\<not> holding Idle" "\<not> holding Waiting" "holding Locked" "holding Deciding" "holding Pushed"
  "holding TaskDone" "holding Aborted" "\<not> holding Finished"
  by (simp_all add: holding_def)

interpretation agent: event_system "sys_step act ck" sys_init "run_events act ck" "reach act ck" for act ck
proof
  show "P s" if "reach act ck s" "P sys_init" "\<And>s ev s'. reach act ck s \<Longrightarrow> P s \<Longrightarrow> sys_step act ck ev s = Some s' \<Longrightarrow> P s'" for P s
    using that by (induction rule: reach.induct) blast+
qed (auto intro: reach_init reach_step)

subsection \<open>Mutual exclusion\<close>

text \<open>The lock is held exactly by the call that is between taking and releasing it.\<close>

definition lock_inv :: "agent_sys \<Rightarrow> bool" where
  "lock_inv s \<longleftrightarrow> (\<forall>i. holding (s_phase s i) \<longleftrightarrow> s_inflight s = Some i)"

lemma lock_inv_init: "lock_inv sys_init"
  by (simp add: lock_inv_def sys_init_def)

lemma lock_inv_holder: "lock_inv s \<Longrightarrow> holding (s_phase s i) \<Longrightarrow> s_inflight s = Some i"
  by (simp add: lock_inv_def)

lemma lock_inv_step:
  assumes "lock_inv s" "sys_step act ck ev s = Some s'"
  shows "lock_inv s'"
  using assms
  by (cases ev)
    (auto simp: lock_inv_def Let_def split: if_splits option.splits prod.splits, (metis holding_simps)+)

lemma reach_lock_inv: "reach act ck s \<Longrightarrow> lock_inv s"
  by (erule agent.invariant) (fact lock_inv_init, rule lock_inv_step)

subsection \<open>The session map\<close>

definition sessions_inv :: "(nat \<Rightarrow> ustr) \<Rightarrow> agent_sys \<Rightarrow> bool" where
  "sessions_inv ck s \<longleftrightarrow>
     (\<forall>c i. s_sessions s c = Some i \<longrightarrow> c = ck i \<and> s_phase s i \<in> {Deciding, Pushed, TaskDone})"

lemma sessions_invD:
  "sessions_inv ck s \<Longrightarrow> s_sessions s c = Some i \<Longrightarrow> c = ck i \<and> s_phase s i \<in> {Deciding, Pushed, TaskDone}"
  by (simp add: sessions_inv_def)

lemma sessions_inv_step:
  assumes inv: "sessions_inv ck s" and lock: "lock_inv s" and step: "sys_step act ck ev s = Some s'"
  shows "sessions_inv ck s'"
  unfolding sessions_inv_def
proof (intro allI impI)
  fix c j
  assume m: "s_sessions s' c = Some j"
  note old = sessions_invD [OF inv, of c j]
  have other: "i = j" if "holding (s_phase s i)" "s_sessions s c = Some j" for i
    using that old lock by (auto simp: lock_inv_def holding_def)
  show "c = ck j \<and> s_phase s' j \<in> {Deciding, Pushed, TaskDone}"
  proof (cases ev)
    case (EvSpawn i)
    with step m old other [of i] show ?thesis by (auto split: if_splits)
  next
    case (EvCleanup i)
    with step m old other [of i] show ?thesis by (auto split: if_splits)
  next
    case (EvAbort d)
    have "j \<noteq> i" if "s_sessions s d = Some i" "d \<noteq> c" "s_sessions s c = Some j" for i
      using that sessions_invD [OF inv, of d i] old by auto
    with EvAbort step m old show ?thesis by (auto simp: Let_def split: if_splits option.splits)
  qed (use step m old in \<open>auto split: if_splits option.splits prod.splits\<close>)
qed

lemma reach_sessions_inv: "reach act ck s \<Longrightarrow> sessions_inv ck s"
  by (erule agent.invariant_below [where Q = lock_inv])
    (erule reach_lock_inv, simp add: sessions_inv_def sys_init_def, rule sessions_inv_step)

subsection \<open>Approvals\<close>

definition past_push :: "phase \<Rightarrow> bool" where
  "past_push p \<longleftrightarrow> p \<in> {Pushed, TaskDone, Aborted, Finished}"

lemma past_push_simps [simp]:
  "\<not> past_push Idle" "\<not> past_push Waiting" "\<not> past_push Locked" "\<not> past_push Deciding"
  "past_push Pushed" "past_push TaskDone" "past_push Aborted" "past_push Finished"
  by (simp_all add: past_push_def)

text \<open>Every queued approval comes from the push of one session, with its time to live.\<close>

definition provenance_inv :: "(nat \<Rightarrow> ustr) \<Rightarrow> agent_sys \<Rightarrow> bool" where
  "provenance_inv act s \<longleftrightarrow>
     distinct (map snd (s_pushed s)) \<and>
     (\<forall>(t, i)\<in>set (s_pushed s). past_push (s_phase s i) \<and> t \<le> s_now s) \<and>
     (\<forall>a\<in>set (q_inner (s_queue s)).
        \<exists>(t, i)\<in>set (s_pushed s). a = \<lparr>action_id = act i, expires_at = t + DEFAULT_TTL\<rparr>)"

text \<open>What was taken and what is still queued never exceeds what was pushed.\<close>

definition count_inv :: "(nat \<Rightarrow> ustr) \<Rightarrow> agent_sys \<Rightarrow> bool" where
  "count_inv act s \<longleftrightarrow>
     mset (s_taken s) + mset (map action_id (q_inner (s_queue s))) \<subseteq># mset (map (\<lambda>(t, i). act i) (s_pushed s))"

lemma take_loop_subset: "take_loop now as = (r, as') \<Longrightarrow> set as' \<subseteq> set as"
  by (metis take_loop_mset set_mset_mono set_mset_mset)

lemma take_loop_consume:
  "take_loop now as = (r, as') \<Longrightarrow>
     (case r of None \<Rightarrow> {#} | Some a \<Rightarrow> {#action_id a#}) + mset (map action_id as') \<subseteq># mset (map action_id as)"
proof (induction now as rule: take_loop.induct)
  case (2 now front rest)
  show ?case
  proof (cases "expires_at front > now")
    case True
    with 2 show ?thesis by auto
  next
    case False
    with 2 have "(case r of None \<Rightarrow> {#} | Some a \<Rightarrow> {#action_id a#}) + mset (map action_id as') \<subseteq># mset (map action_id rest)"
      by simp
    also have "\<dots> \<subseteq># mset (map action_id (front # rest))" by simp
    finally show ?thesis .
  qed
qed auto

lemma q_inner_ops [simp]:
  "q_inner (drain q) = []"
  "q_inner (push q a t) = q_inner q @ [\<lparr>action_id = a, expires_at = t + DEFAULT_TTL\<rparr>]"
  "q_inner queue_new = []"
  by (simp_all add: drain_def push_def queue_new_def)

lemma take_idE:
  assumes "take_id q now = (r, q')"
  obtains r' where "take_loop now (q_inner q) = (r', q_inner q')" "r = map_option action_id r'"
  using assms by (auto simp: take_id_def take_one_def split: prod.splits)

lemma count_inv_step:
  assumes inv: "count_inv act s" and step: "sys_step act ck ev s = Some s'"
  shows "count_inv act s'"
proof (cases ev)
  case EvTake
  obtain r q where t: "take_id (s_queue s) (s_now s) = (r, q)" by force
  then obtain r' where l: "take_loop (s_now s) (q_inner (s_queue s)) = (r', q_inner q)" "r = map_option action_id r'"
    by (rule take_idE)
  have "mset (s_taken s) + ((case r' of None \<Rightarrow> {#} | Some a \<Rightarrow> {#action_id a#}) + mset (map action_id (q_inner q)))
      \<subseteq># mset (s_taken s) + mset (map action_id (q_inner (s_queue s)))"
    using take_loop_consume [OF l(1)] by (rule subset_mset.add_left_mono)
  also have "\<dots> \<subseteq># mset (map (\<lambda>(t, i). act i) (s_pushed s))" using inv by (simp add: count_inv_def)
  finally show ?thesis
    using EvTake step t l(2) by (cases r') (auto simp: count_inv_def)
next
  case (EvCancel c)
  with inv step show ?thesis
    by (auto simp: count_inv_def intro: subset_mset.order_trans [OF mset_subset_eq_add_left])
next
  case (EvHelper i r)
  with inv step show ?thesis
    by (auto simp: count_inv_def split: if_splits intro: subset_mset.order_trans [OF mset_subset_eq_add_left])
qed (use inv step in \<open>auto simp: count_inv_def Let_def split: if_splits option.splits\<close>)

lemma provenance_inv_step:
  assumes inv: "provenance_inv act s" and step: "sys_step act ck ev s = Some s'"
  shows "provenance_inv act s'"
proof (cases ev)
  case EvTake
  obtain r q where t: "take_id (s_queue s) (s_now s) = (r, q)" by force
  then have "set (q_inner q) \<subseteq> set (q_inner (s_queue s))"
    by (auto elim!: take_idE dest: take_loop_subset)
  with EvTake inv step t show ?thesis
    by (auto simp: provenance_inv_def split: option.splits)
next
  case (EvPush i)
  then have "i \<notin> snd ` set (s_pushed s)"
    using inv step by (fastforce simp: provenance_inv_def split: if_splits)
  with EvPush inv step show ?thesis
    by (fastforce simp: provenance_inv_def split: if_splits)
next
  case (EvAbort c)
  with inv step show ?thesis
    by (fastforce simp: provenance_inv_def Let_def split: if_splits option.splits)
qed (use inv step in \<open>fastforce simp: provenance_inv_def Let_def split: if_splits option.splits\<close>)+

lemma reach_provenance_inv: "reach act ck s \<Longrightarrow> provenance_inv act s"
  by (erule agent.invariant) (simp add: provenance_inv_def sys_init_def, rule provenance_inv_step)

lemma reach_count_inv: "reach act ck s \<Longrightarrow> count_inv act s"
  by (erule agent.invariant) (simp add: count_inv_def sys_init_def, rule count_inv_step)

lemma take_live:
  assumes "reach act ck s" "take_id (s_queue s) (s_now s) = (Some a, q)"
  shows "\<exists>(t, i)\<in>set (s_pushed s). a = act i \<and> t \<le> s_now s \<and> s_now s < t + DEFAULT_TTL \<and> past_push (s_phase s i)"
proof -
  from assms(2) obtain b where b: "take_loop (s_now s) (q_inner (s_queue s)) = (Some b, q_inner q)" "a = action_id b"
    by (rule take_idE) (metis map_option_eq_Some)
  have "set (b # filter (\<lambda>a. s_now s < expires_at a) (q_inner q)) \<subseteq> set (q_inner (s_queue s))"
    using take_loop_live [OF b(1)] by (metis filter_is_subset option.case(2))
  then have "b \<in> set (q_inner (s_queue s))" by simp
  then obtain t i where "(t, i) \<in> set (s_pushed s)" "b = \<lparr>action_id = act i, expires_at = t + DEFAULT_TTL\<rparr>"
    using reach_provenance_inv [OF assms(1)] by (fastforce simp: provenance_inv_def)
  with b take_loop_Some_live [OF b(1)] reach_provenance_inv [OF assms(1)] show ?thesis
    by (fastforce simp: provenance_inv_def)
qed

subsection \<open>A session's code and the transitions\<close>

text \<open>
  What \<open>session_run\<close> does to the queue is what the transitions of its call do: the push,
  the approvals taken while it waits for polkit's helper, and the end of the helper.
\<close>

fun takes :: "instant list \<Rightarrow> approval_queue \<Rightarrow> approval_queue" where
  "takes [] q = q"
| "takes (t # ts) q = takes ts (snd (take_id q t))"

fun take_events :: "instant \<Rightarrow> instant list \<Rightarrow> event list" where
  "take_events now [] = []"
| "take_events now (t # ts) = EvTick (t - now) # EvTake # take_events t ts"

definition helper_end_of :: "ustr + bool \<Rightarrow> helper_end" where
  "helper_end_of r = (case r of Inl _ \<Rightarrow> HelperError | Inr b \<Rightarrow> if b then HelperSuccess else HelperFailure)"

lemma run_take_events:
  assumes "sorted (now # ts)" "s_now s = now"
  shows "\<exists>s'. run_events act ck (take_events now ts) s = Some s' \<and> s_queue s' = takes ts (s_queue s) \<and>
     s_phase s' = s_phase s"
  using assms
proof (induction ts arbitrary: now s)
  case (Cons t ts)
  define s1 where "s1 = s\<lparr>s_now := t\<rparr>"
  obtain r q where tk: "take_id (s_queue s) t = (r, q)" by force
  have tick: "sys_step act ck (EvTick (t - now)) s = Some s1" using Cons.prems by (simp add: s1_def)
  obtain s2 where s2: "sys_step act ck EvTake s1 = Some s2" "s_queue s2 = q" "s_now s2 = t" "s_phase s2 = s_phase s"
    using tk by (cases r) (auto simp: s1_def)
  from Cons.IH [of t s2] Cons.prems s2 obtain s' where
    "run_events act ck (take_events t ts) s2 = Some s'" "s_queue s' = takes ts q" "s_phase s' = s_phase s"
    by auto
  with tick s2(1) tk show ?case by auto
qed simp

lemma session_queue_simulated:
  assumes "session_approves e c i" "sorted (se_t_push e # ts)"
    and helper: "se_helper1 e = (\<lambda>_ _ q. (r, takes ts q))"
    and s: "s_phase s n = Deciding" "s_queue s = q" "s_now s = se_t_push e" "act n = in_action_id i"
  shows "\<exists>s'. run_events act ck ([EvPush n] @ take_events (se_t_push e) ts @ [EvHelper n (helper_end_of r)]) s = Some s' \<and>
     s_queue s' = so_queue (session_run e q c i)"
proof -
  define s1 where "s1 = set_phase n Pushed s
    \<lparr>s_queue := push q (act n) (se_t_push e), s_pushed := s_pushed s @ [(se_t_push e, n)]\<rparr>"
  have push: "sys_step act ck (EvPush n) s = Some s1" using s by (simp add: s1_def)
  have "s_now s1 = se_t_push e" using s(3) by (simp add: s1_def)
  from run_take_events [OF assms(2) this] obtain s2 where s2:
    "run_events act ck (take_events (se_t_push e) ts) s1 = Some s2" "s_queue s2 = takes ts (s_queue s1)"
    "s_phase s2 = s_phase s1" by blast
  obtain fl r' q' log effs where h: "hand_off e i fl q = (r', q', log, effs)" "so_queue (session_run e q c i) = q'"
    using session_run_approved [OF assms(1)] by blast
  have q': "q' = (if r = Inr False then drain (s_queue s2) else s_queue s2)"
    using hand_off_result [OF h(1)] helper s(4) s2(2) by (auto simp: s1_def)
  have "\<exists>s'. sys_step act ck (EvHelper n (helper_end_of r)) s2 = Some s' \<and> s_queue s' = q'"
    using s2(3) by (auto simp: s1_def q' helper_end_of_def split: sum.splits)
  then obtain s' where s': "sys_step act ck (EvHelper n (helper_end_of r)) s2 = Some s'" "s_queue s' = q'"
    by blast
  have "run_events act ck ([EvPush n] @ take_events (se_t_push e) ts @ [EvHelper n (helper_end_of r)]) s = Some s'"
    by (simp only: agent.runs_append run_events.simps bind.bind_lunit push s2(1) s'(1))
  moreover have "s_queue s' = so_queue (session_run e q c i)" using s'(2) h(2) by simp
  ultimately show ?thesis by (intro exI [of _ s'] conjI)
qed

subsection \<open>Every call ends\<close>

text \<open>The events a call itself takes part in, and how many of them are left in a phase at most.\<close>

fun call_of :: "event \<Rightarrow> nat option" where
  "call_of (EvBegin i) = Some i"
| "call_of (EvLock i) = Some i"
| "call_of (EvReject i) = Some i"
| "call_of (EvSpawn i) = Some i"
| "call_of (EvDecline i) = Some i"
| "call_of (EvPush i) = Some i"
| "call_of (EvHelper i r) = Some i"
| "call_of (EvCleanup i) = Some i"
| "call_of EvTake = None"
| "call_of (EvCancel c) = None"
| "call_of (EvAbort c) = None"
| "call_of (EvTick d) = None"

fun steps_left :: "phase \<Rightarrow> nat" where
  "steps_left Idle = 6"
| "steps_left Waiting = 5"
| "steps_left Locked = 4"
| "steps_left Deciding = 3"
| "steps_left Pushed = 2"
| "steps_left TaskDone = 1"
| "steps_left Aborted = 1"
| "steps_left Finished = 0"

lemma steps_left_step:
  assumes "sys_step act ck ev s = Some s'"
  shows "steps_left (s_phase s' i) + (if call_of ev = Some i then 1 else 0) \<le> steps_left (s_phase s i)"
  using assms by (cases ev) (auto simp: Let_def split: if_splits option.splits prod.splits)

lemma steps_left_run:
  "run_events act ck evs s = Some s' \<Longrightarrow>
     steps_left (s_phase s' i) + length (filter (\<lambda>ev. call_of ev = Some i) evs) \<le> steps_left (s_phase s i)"
proof (induction evs arbitrary: s)
  case (Cons ev evs)
  then obtain t where t: "sys_step act ck ev s = Some t" "run_events act ck evs t = Some s'"
    by (cases "sys_step act ck ev s") auto
  from steps_left_step [OF t(1), of i] Cons.IH [OF t(2)] show ?case by (cases "call_of ev = Some i") simp_all
qed simp

text \<open>A way out for the call that holds the lock, whatever it is waiting for.\<close>

fun way_out :: "nat \<Rightarrow> phase \<Rightarrow> event list" where
  "way_out i Locked = [EvReject i]"
| "way_out i Deciding = [EvDecline i, EvCleanup i]"
| "way_out i Pushed = [EvHelper i HelperFailure, EvCleanup i]"
| "way_out i TaskDone = [EvCleanup i]"
| "way_out i Aborted = [EvCleanup i]"
| "way_out i _ = []"

lemma way_out_run:
  assumes "holding (s_phase s i)"
  shows "\<exists>s'. run_events act ck (way_out i (s_phase s i)) s = Some s' \<and> s_phase s' = (s_phase s)(i := Finished) \<and>
    s_inflight s' = None"
  using assms by (cases "s_phase s i") (auto simp: fun_eq_iff)

lemma waiting_can_finish:
  assumes "s_phase s i = Waiting" "s_inflight s = None"
  shows "\<exists>s'. run_events act ck [EvLock i, EvReject i] s = Some s' \<and> s_phase s' i = Finished"
  using assms by simp

lemma call_can_finish:
  assumes "reach act ck s" "s_phase s i \<noteq> Idle"
  shows "\<exists>evs s'. length evs \<le> 4 \<and> run_events act ck evs s = Some s' \<and> s_phase s' i = Finished"
proof (cases "s_phase s i = Waiting")
  case False
  show ?thesis
  proof (cases "s_phase s i = Finished")
    case True
    then show ?thesis by (intro exI [of _ "[]"] exI [of _ s]) simp
  next
    case nf: False
    with False assms(2) have h: "holding (s_phase s i)" by (cases "s_phase s i") simp_all
    have "length (way_out i (s_phase s i)) \<le> 4" by (cases "s_phase s i") simp_all
    with way_out_run [OF h, of act ck] show ?thesis by (metis fun_upd_same)
  qed
next
  case True
  show ?thesis
  proof (cases "s_inflight s")
    case None
    from waiting_can_finish [OF True None, of act ck] show ?thesis
      by (intro exI [of _ "[EvLock i, EvReject i]"]) simp
  next
    case (Some j)
    with reach_lock_inv [OF assms(1)] have h: "holding (s_phase s j)" by (simp add: lock_inv_def)
    with True have "i \<noteq> j" by auto
    from way_out_run [OF h, of act ck] obtain t where t: "run_events act ck (way_out j (s_phase s j)) s = Some t"
      "s_phase t = (s_phase s)(j := Finished)" "s_inflight t = None" by blast
    have "s_phase t i = Waiting" using t(2) True \<open>i \<noteq> j\<close> by simp
    from waiting_can_finish [OF this t(3), of act ck] obtain s' where
      "run_events act ck [EvLock i, EvReject i] t = Some s'" "s_phase s' i = Finished" by blast
    moreover have "length (way_out j (s_phase s j) @ [EvLock i, EvReject i]) \<le> 4" by (cases "s_phase s j") simp_all
    ultimately show ?thesis using t(1)
      by (intro exI [of _ "way_out j (s_phase s j) @ [EvLock i, EvReject i]"] exI [of _ s'])
        (simp add: agent.runs_append)
  qed
qed

subsection \<open>Example runs\<close>

abbreviation ex_act :: "nat \<Rightarrow> ustr" where
  "ex_act n \<equiv> [97 + n]"

abbreviation ex_ck :: "nat \<Rightarrow> ustr" where
  "ex_ck n \<equiv> [48 + n]"

text \<open>Two calls arrive; the first pushes its approval while the second waits for the lock.\<close>

definition ex_events :: "event list" where
  "ex_events = [EvBegin 0, EvBegin 1, EvLock 0, EvSpawn 0, EvPush 0]"

lemma ex_run:
  obtains s where "run_events ex_act ex_ck ex_events sys_init = Some s" "reach ex_act ex_ck s"
    "s_phase s 0 = Pushed" "s_phase s 1 = Waiting" "s_now s = 0" "s_taken s = []"
    "s_queue s = push queue_new [97] 0" "s_sessions s (ex_ck 0) = Some 0"
proof -
  obtain s where s: "run_events ex_act ex_ck ex_events sys_init = Some s" "s_phase s 0 = Pushed"
    "s_phase s 1 = Waiting" "s_now s = 0" "s_taken s = []" "s_queue s = push queue_new [97] 0" "s_sessions s (ex_ck 0) = Some 0"
    by (simp add: ex_events_def sys_init_def set_phase_def)
  with agent.runs_reachable [OF reach_init s(1)] show ?thesis using that by blast
qed

lemma ex_take: "take_id (push queue_new [97] 0) 0 = (Some [97], queue_new)"
  by (simp add: take_id_def take_one_def push_def queue_new_def DEFAULT_TTL_def from_secs_def)

text \<open>
  An error of polkit's helper ends a session without draining the queue: its approval is
  still there, and is handed out, while the next call is waiting for its user's answer.
\<close>

theorem helper_error_leaves_approval:
  "\<exists>s. run_events ex_act ex_ck
     (ex_events @ [EvHelper 0 HelperError, EvCleanup 0, EvLock 1, EvSpawn 1, EvTake]) sys_init = Some s \<and>
     s_phase s 0 = Finished \<and> s_phase s 1 = Deciding \<and> s_taken s = [ex_act 0]"
  by (simp add: ex_events_def sys_init_def set_phase_def ex_take)

subsection \<open>Cancellation\<close>

text \<open>\<open>cancel_authentication\<close> when nothing comes between its two steps.\<close>

definition cancel_authentication :: "ustr \<Rightarrow> agent_sys \<Rightarrow> agent_sys" where
  "cancel_authentication c s = cancel_abort c (cancel_drain c s)"

text \<open>History only grows, and no step depends on it.\<close>

lemma step_history:
  assumes "sys_step act ck ev s = Some s'"
  shows "\<exists>nt np. s_taken s' = s_taken s @ nt \<and> s_pushed s' = s_pushed s @ np \<and>
    (\<forall>ts ps. sys_step act ck ev (s\<lparr>s_taken := ts, s_pushed := ps\<rparr>) = Some (s'\<lparr>s_taken := ts @ nt, s_pushed := ps @ np\<rparr>))"
  using assms by (cases ev) (auto simp: set_phase_def Let_def split: if_splits option.splits prod.splits)

lemma run_history:
  assumes "run_events act ck evs s = Some s'"
  shows "\<exists>nt np. s_taken s' = s_taken s @ nt \<and> s_pushed s' = s_pushed s @ np \<and>
    (\<forall>ts ps. run_events act ck evs (s\<lparr>s_taken := ts, s_pushed := ps\<rparr>) = Some (s'\<lparr>s_taken := ts @ nt, s_pushed := ps @ np\<rparr>))"
  using assms
proof (induction evs arbitrary: s)
  case (Cons ev evs)
  then obtain t where t: "sys_step act ck ev s = Some t" "run_events act ck evs t = Some s'"
    by (cases "sys_step act ck ev s") auto
  from step_history [OF t(1)] obtain nt np where n: "s_taken t = s_taken s @ nt" "s_pushed t = s_pushed s @ np"
    "\<And>ts ps. sys_step act ck ev (s\<lparr>s_taken := ts, s_pushed := ps\<rparr>) = Some (t\<lparr>s_taken := ts @ nt, s_pushed := ps @ np\<rparr>)"
    by blast
  from Cons.IH [OF t(2)] obtain mt mp where m: "s_taken s' = s_taken t @ mt" "s_pushed s' = s_pushed t @ mp"
    "\<And>ts ps. run_events act ck evs (t\<lparr>s_taken := ts, s_pushed := ps\<rparr>) = Some (s'\<lparr>s_taken := ts @ mt, s_pushed := ps @ mp\<rparr>)"
    by blast
  show ?case
    using n m by (intro exI [of _ "nt @ mt"] exI [of _ "np @ mp"]) simp
qed auto

lemma run_count_inv: "run_events act ck evs s = Some s' \<Longrightarrow> count_inv act s \<Longrightarrow> count_inv act s'"
proof (induction evs arbitrary: s)
  case (Cons ev evs)
  then show ?case by (cases "sys_step act ck ev s") (auto intro: count_inv_step)
qed simp

text \<open>A call whose task has ended or was aborted pushes nothing more.\<close>

definition over :: "phase \<Rightarrow> bool" where
  "over p \<longleftrightarrow> p \<in> {TaskDone, Aborted, Finished}"

lemma over_step:
  assumes "over (s_phase s i)" "sys_step act ck ev s = Some s'" "s_pushed s' = s_pushed s @ np"
  shows "over (s_phase s' i) \<and> i \<notin> snd ` set np"
  using assms by (cases ev) (auto simp: over_def Let_def split: if_splits option.splits prod.splits)

lemma over_run:
  assumes "over (s_phase s i)" "run_events act ck evs s = Some s'" "s_pushed s' = s_pushed s @ np"
  shows "over (s_phase s' i) \<and> i \<notin> snd ` set np"
  using assms
proof (induction evs arbitrary: s np)
  case (Cons ev evs)
  then obtain t where t: "sys_step act ck ev s = Some t" "run_events act ck evs t = Some s'"
    by (cases "sys_step act ck ev s") auto
  from step_history [OF t(1)] obtain n1 where n1: "s_pushed t = s_pushed s @ n1" by blast
  from run_history [OF t(2)] obtain n2 where n2: "s_pushed s' = s_pushed t @ n2" by blast
  have "np = n1 @ n2" using n1 n2 Cons.prems(3) by simp
  with over_step [OF Cons.prems(1) t(1) n1] Cons.IH [OF _ t(2) n2] show ?case by auto
qed auto

subsection \<open>Properties\<close>

text \<open>C8. One authentication at a time: in every reachable state at most one call is between taking and
  releasing the lock, and the map holds at most its session, so no second session can push an
  approval while one is waiting for polkit's helper.\<close>

theorem agent_mutual_exclusion:
  assumes "reach act ck s" "holding (s_phase s i)"
  shows "(holding (s_phase s j) \<longleftrightarrow> j = i) \<and> (s_sessions s c = Some j \<longrightarrow> j = i \<and> c = ck i)"
proof -
  note lock = reach_lock_inv [OF assms(1)]
  have j: "j = i" if "holding (s_phase s j)" for j
    using lock_inv_holder [OF lock assms(2)] lock_inv_holder [OF lock that] by simp
  have "j = i \<and> c = ck i" if "s_sessions s c = Some j"
  proof -
    have "c = ck j" "s_phase s j \<in> {Deciding, Pushed, TaskDone}"
      using sessions_invD [OF reach_sessions_inv [OF assms(1)] that] by auto
    with j [of j] show ?thesis by (auto simp: holding_def)
  qed
  with j assms(2) show ?thesis by blast
qed

theorem agent_mutual_exclusion_witness:
  "\<exists>s. reach ex_act ex_ck s \<and> holding (s_phase s 0) \<and> \<not> holding (s_phase s 1)"
proof -
  obtain s where s: "reach ex_act ex_ck s" "s_phase s 0 = Pushed" by (rule ex_run)
  then have h: "holding (s_phase s 0)" by simp
  from agent_mutual_exclusion [OF s(1) h, of 1] h s(1) show ?thesis by auto
qed



text \<open>Approvals are young and traceable: when \<open>TakeApproval\<close> succeeds in a reachable state, the
  approval is for the action of a session that pushed it less than one second before.\<close>

theorem agent_approval_provenance:
  assumes "reach act ck s" "take_id (s_queue s) (s_now s) = (Some a, q)"
  shows "\<exists>t i. (t, i) \<in> set (s_pushed s) \<and> a = act i \<and> t \<le> s_now s \<and> s_now s < t + from_secs 1 \<and>
     past_push (s_phase s i)"
  using take_live [OF assms] by (auto simp: DEFAULT_TTL_def)

theorem agent_approval_provenance_witness:
  "\<exists>s t i. reach ex_act ex_ck s \<and> (t, i) \<in> set (s_pushed s) \<and> [97] = ex_act i \<and> s_now s < t + from_secs 1"
proof -
  obtain s where s: "reach ex_act ex_ck s" "s_now s = 0" "s_queue s = push queue_new [97] 0" by (rule ex_run)
  then have "take_id (s_queue s) (s_now s) = (Some [97], queue_new)" by (simp add: ex_take)
  from agent_approval_provenance [OF s(1) this] s(1) show ?thesis by blast
qed





text \<open>C11. The transitions are the code's: for an approving session, the queue that \<open>session_run\<close> leaves,
  with any approvals taken meanwhile, is the queue after the push, the takes and the end of
  the helper as transitions of the system.\<close>

theorem session_run_refines_transitions:
  assumes "session_approves e c i" "sorted (se_t_push e # ts)"
    and "se_helper1 e = (\<lambda>_ _ q. (r, takes ts q))"
    and "s_phase s n = Deciding" "s_queue s = q" "s_now s = se_t_push e" "act n = in_action_id i"
  shows "\<exists>s'. run_events act ck ([EvPush n] @ take_events (se_t_push e) ts @ [EvHelper n (helper_end_of r)]) s = Some s' \<and>
     s_queue s' = so_queue (session_run e q c i)"
  using assms by (rule session_queue_simulated)

theorem session_run_refines_transitions_witness:
  "\<exists>s'. run_events (\<lambda>_. lit ''org.example.act'') ex_ck ([EvPush 0] @ take_events 0 [0] @ [EvHelper 0 HelperSuccess])
       (sys_init\<lparr>s_phase := (\<lambda>_. Deciding)\<rparr>) = Some s' \<and>
     s_queue s' = so_queue (session_run ((example_env (Inl HNoOutput) (Inr True))\<lparr>se_helper1 := (\<lambda>_ _ q. (Inr True, takes [0] q))\<rparr>)
       queue_new cache_new (example_inputs [lit ''true''] []))"
proof -
  let ?e = "(example_env (Inl HNoOutput) (Inr True))\<lparr>se_helper1 := (\<lambda>_ _ q. (Inr True, takes [0] q))\<rparr>"
  let ?i = "example_inputs [lit ''true''] []"
  have "session_policy ?i = PAllow"
    by (simp add: session_policy_def example_inputs_def decide_def list_matches_def entry_matches_def str_eval)
  then have a: "session_approves ?e cache_new ?i" by (simp add: session_approves_def)
  have t: "se_t_push ?e = 0" by (simp add: example_env_def)
  show ?thesis
    using session_run_refines_transitions [OF a, of "[0]" "Inr True" "sys_init\<lparr>s_phase := (\<lambda>_. Deciding)\<rparr>" 0 queue_new
        "\<lambda>_. lit ''org.example.act''" ex_ck]
    by (simp add: t sys_init_def helper_end_of_def example_inputs_def del: run_events.simps take_events.simps takes.simps)
qed

end
