(* ===== verification/Broker_Threads.thy ===== *)
theory Broker_Threads
  imports Broker Event_System
begin

text \<open>
  The broker daemon with its threads (\<open>sentinel-broker/src/main.rs\<close>, the accept loop, and
  \<open>server.rs\<close>, \<open>handle\<close>): one thread per connection, all sharing the store. A thread
  checks its peer, reads its request, answers it from the store under the store's mutex
  and writes the answer; threads interleave between these steps. A state records, for
  each connection, what it was accepted with and how far it is, and the requests in the
  order in which they reached the store.

  The result is that the threads cannot be told apart from a daemon that serves one
  connection after the other in that order: each connection ends with the very bytes,
  and the store with the very contents, that \<open>handle\<close> yields there.
\<close>

subsection \<open>States and steps\<close>

datatype 's conn = CNone | CReading 's | CGot request 's | CReplied response 's | CClosed 's

datatype 's broker_event =
  BAccept nat "ustr + u32" 's | BAcceptError ustr | BRead nat | BDispatch nat | BWrite nat | BTick nat

record 's broker_sys =
  b_now :: instant
  b_store :: remember_store
  b_input :: "nat \<rightharpoonup> (ustr + u32) \<times> 's"
  b_conn :: "nat \<Rightarrow> 's conn"
  b_trace :: "(instant \<times> nat \<times> request) list"
  b_log :: "broker_log list"

definition broker_init :: "'s broker_sys" where
  "broker_init =
     \<lparr>b_now = 0, b_store = store_new, b_input = Map.empty, b_conn = (\<lambda>_. CNone), b_trace = [], b_log = []\<rparr>"

definition set_conn :: "nat \<Rightarrow> 's conn \<Rightarrow> 's broker_sys \<Rightarrow> 's broker_sys" where
  "set_conn i c s = s\<lparr>b_conn := (b_conn s)(i := c)\<rparr>"

fun broker_step ::
  "'s stream_ops \<Rightarrow> request decoder \<Rightarrow> response encoder \<Rightarrow> 's broker_event \<Rightarrow> 's broker_sys \<Rightarrow> 's broker_sys option"
  where
  "broker_step ops dec enc (BAccept i peer stream) s =
     (if b_conn s i = CNone then
        (let s1 = s\<lparr>b_input := (b_input s)(i \<mapsto> (peer, stream))\<rparr>
         in case peer_is_root peer of
              (True, _) \<Rightarrow> Some (set_conn i (CReading stream) s1)
            | (False, log) \<Rightarrow> Some (set_conn i (CClosed stream) (s1\<lparr>b_log := b_log s @ log\<rparr>)))
      else None)"
| "broker_step ops dec enc (BAcceptError e) s = Some (s\<lparr>b_log := b_log s @ [LogAccept e]\<rparr>)"
| "broker_step ops dec enc (BRead i) s =
     (case b_conn s i of
        CReading stream \<Rightarrow>
          (case read_frame ops dec stream of
             Inl e \<Rightarrow> Some (set_conn i (CClosed stream) (s\<lparr>b_log := b_log s @ [LogRead e]\<rparr>))
           | Inr (req, stream1) \<Rightarrow> Some (set_conn i (CGot req stream1) s))
      | _ \<Rightarrow> None)"
| "broker_step ops dec enc (BDispatch i) s =
     (case b_conn s i of
        CGot req stream1 \<Rightarrow>
          (case dispatch req (b_store s) (b_now s) of
             (resp, store1) \<Rightarrow>
               Some (set_conn i (CReplied resp stream1)
                 (s\<lparr>b_store := store1, b_trace := b_trace s @ [(b_now s, i, req)]\<rparr>)))
      | _ \<Rightarrow> None)"
| "broker_step ops dec enc (BWrite i) s =
     (case b_conn s i of
        CReplied resp stream1 \<Rightarrow>
          (case write_frame ops enc stream1 resp of
             Inl e \<Rightarrow> Some (set_conn i (CClosed stream1) (s\<lparr>b_log := b_log s @ [LogWrite e]\<rparr>))
           | Inr stream2 \<Rightarrow> Some (set_conn i (CClosed stream2) s))
      | _ \<Rightarrow> None)"
| "broker_step ops dec enc (BTick d) s = Some (s\<lparr>b_now := b_now s + d\<rparr>)"

fun broker_run ::
  "'s stream_ops \<Rightarrow> request decoder \<Rightarrow> response encoder \<Rightarrow> 's broker_event list \<Rightarrow> 's broker_sys \<Rightarrow> 's broker_sys option"
  where
  "broker_run ops dec enc [] s = Some s"
| "broker_run ops dec enc (ev # evs) s =
     (case broker_step ops dec enc ev s of None \<Rightarrow> None | Some s1 \<Rightarrow> broker_run ops dec enc evs s1)"

inductive breach :: "'s stream_ops \<Rightarrow> request decoder \<Rightarrow> response encoder \<Rightarrow> 's broker_sys \<Rightarrow> bool" for ops dec enc where
  breach_init: "breach ops dec enc broker_init"
| breach_step: "breach ops dec enc s \<Longrightarrow> broker_step ops dec enc ev s = Some s' \<Longrightarrow> breach ops dec enc s'"

inductive_cases breach_cases: "breach ops dec enc s"

interpretation threads: event_system "broker_step ops dec enc" broker_init "broker_run ops dec enc" "breach ops dec enc" for ops dec enc
proof
  show "P s" if "breach ops dec enc s" "P broker_init"
    "\<And>s ev s'. breach ops dec enc s \<Longrightarrow> P s \<Longrightarrow> broker_step ops dec enc ev s = Some s' \<Longrightarrow> P s'" for P s
    using that by (induction rule: breach.induct) blast+
qed (auto intro: breach_init breach_step split: option.split)

subsection \<open>The serial daemon\<close>

text \<open>The store after a sequence of requests, one after the other.\<close>

definition serial_store :: "(instant \<times> nat \<times> request) list \<Rightarrow> remember_store" where
  "serial_store tr = dispatch_all (map (\<lambda>(t, _, r). (t, r)) tr) store_new"

lemma serial_store_simps [simp]:
  "serial_store [] = store_new"
  "serial_store (tr @ [(t, i, r)]) = snd (dispatch r (serial_store tr) t)"
proof -
  have "dispatch_all (xs @ [(t, r)]) st = snd (dispatch r (dispatch_all xs st) t)" for xs st
    by (induction xs arbitrary: st) auto
  then show "serial_store (tr @ [(t, i, r)]) = snd (dispatch r (serial_store tr) t)"
    by (simp add: serial_store_def)
qed (simp add: serial_store_def)

text \<open>
  What a connection's bytes have to be, given what it was accepted with and the requests
  before its own: exactly what \<open>handle\<close> does there; a connection whose request never
  reached the store ends as \<open>handle\<close> ends it whatever the store holds.
\<close>

definition served ::
  "'s stream_ops \<Rightarrow> request decoder \<Rightarrow> response encoder \<Rightarrow> (instant \<times> nat \<times> request) list \<Rightarrow> nat \<Rightarrow>
     ustr + u32 \<Rightarrow> 's \<Rightarrow> 's \<Rightarrow> bool" where
  "served ops dec enc tr i peer stream out \<longleftrightarrow>
     (\<exists>pre t req post log. tr = pre @ (t, i, req) # post \<and>
        handle ops dec enc peer True t stream (serial_store pre) = (out, serial_store (pre @ [(t, i, req)]), log)) \<or>
     i \<notin> fst ` snd ` set tr \<and>
     (\<forall>t store. \<exists>log. handle ops dec enc peer True t stream store = (out, store, log))"

subsection \<open>The invariant\<close>

definition conn_ok ::
  "'s stream_ops \<Rightarrow> request decoder \<Rightarrow> response encoder \<Rightarrow> (instant \<times> nat \<times> request) list \<Rightarrow> nat \<Rightarrow>
     ((ustr + u32) \<times> 's) option \<Rightarrow> 's conn \<Rightarrow> bool" where
  "conn_ok ops dec enc tr i input c \<longleftrightarrow>
     (case c of
        CNone \<Rightarrow> input = None \<and> i \<notin> fst ` snd ` set tr
      | CReading s \<Rightarrow> input = Some (Inr 0, s) \<and> i \<notin> fst ` snd ` set tr
      | CGot req s1 \<Rightarrow>
          (\<exists>s. input = Some (Inr 0, s) \<and> read_frame ops dec s = Inr (req, s1)) \<and> i \<notin> fst ` snd ` set tr
      | CReplied resp s1 \<Rightarrow>
          (\<exists>s pre t req post. input = Some (Inr 0, s) \<and> read_frame ops dec s = Inr (req, s1) \<and>
             tr = pre @ (t, i, req) # post \<and> resp = fst (dispatch req (serial_store pre) t))
      | CClosed out \<Rightarrow> (\<exists>peer s. input = Some (peer, s) \<and> served ops dec enc tr i peer s out))"

definition broker_inv :: "'s stream_ops \<Rightarrow> request decoder \<Rightarrow> response encoder \<Rightarrow> 's broker_sys \<Rightarrow> bool" where
  "broker_inv ops dec enc s \<longleftrightarrow>
     b_store s = serial_store (b_trace s) \<and>
     sorted (map fst (b_trace s)) \<and> (\<forall>(t, _)\<in>set (b_trace s). t \<le> b_now s) \<and>
     distinct (map (fst \<circ> snd) (b_trace s)) \<and>
     (\<forall>i. conn_ok ops dec enc (b_trace s) i (b_input s i) (b_conn s i))"

lemma set_conn_simps [simp]:
  "b_conn (set_conn i c s) = (b_conn s)(i := c)" "b_store (set_conn i c s) = b_store s"
  "b_trace (set_conn i c s) = b_trace s" "b_now (set_conn i c s) = b_now s" "b_input (set_conn i c s) = b_input s"
  by (simp_all add: set_conn_def)

lemma peer_is_root_iff: "fst (peer_is_root peer) \<longleftrightarrow> peer = Inr 0"
  by (cases peer) auto

text \<open>How \<open>handle\<close> ends in each case.\<close>

lemma handle_cases:
  "peer \<noteq> Inr 0 \<Longrightarrow> \<exists>log. handle ops dec enc peer True t s store = (s, store, log)"
  "read_frame ops dec s = Inl e \<Longrightarrow> \<exists>log. handle ops dec enc (Inr 0) True t s store = (s, store, log)"
  "\<lbrakk>read_frame ops dec s = Inr (req, s1); write_frame ops enc s1 (fst (dispatch req store t)) = Inl e\<rbrakk> \<Longrightarrow>
     \<exists>log. handle ops dec enc (Inr 0) True t s store = (s1, snd (dispatch req store t), log)"
  "\<lbrakk>read_frame ops dec s = Inr (req, s1); write_frame ops enc s1 (fst (dispatch req store t)) = Inr s2\<rbrakk> \<Longrightarrow>
     \<exists>log. handle ops dec enc (Inr 0) True t s store = (s2, snd (dispatch req store t), log)"
  by (cases peer; auto simp: handle_def split: prod.splits sum.splits)+

text \<open>A further request of another connection changes nothing for this one.\<close>

lemma served_snoc:
  assumes "served ops dec enc tr i peer s out" "i \<noteq> j"
  shows "served ops dec enc (tr @ [(t, j, r)]) i peer s out"
  using assms unfolding served_def by (elim disjE) (fastforce, simp)

lemma conn_ok_snoc:
  assumes "conn_ok ops dec enc tr i input c" "i \<noteq> j"
  shows "conn_ok ops dec enc (tr @ [(t, j, r)]) i input c"
  using assms by (cases c) (auto simp: conn_ok_def intro: served_snoc, fastforce)

lemma broker_inv_init: "broker_inv ops dec enc broker_init"
  by (simp add: broker_inv_def broker_init_def conn_ok_def)

text \<open>Steps that leave the requests alone and touch one connection only.\<close>

lemma broker_inv_local:
  assumes "broker_inv ops dec enc s" "b_store s' = b_store s" "b_trace s' = b_trace s" "b_now s \<le> b_now s'"
    and "\<And>j. j \<noteq> i \<Longrightarrow> b_conn s' j = b_conn s j \<and> b_input s' j = b_input s j"
    and "conn_ok ops dec enc (b_trace s) i (b_input s' i) (b_conn s' i)"
  shows "broker_inv ops dec enc s'"
proof -
  have "conn_ok ops dec enc (b_trace s) j (b_input s' j) (b_conn s' j)" for j
    using assms(1,5,6) by (cases "j = i") (auto simp: broker_inv_def)
  moreover have "\<forall>(t, _)\<in>set (b_trace s). t \<le> b_now s'" using assms(1,4) by (fastforce simp: broker_inv_def)
  ultimately show ?thesis using assms(1,2,3) by (simp add: broker_inv_def)
qed

lemma conn_okD:
  assumes "broker_inv ops dec enc s"
  shows "conn_ok ops dec enc (b_trace s) i (b_input s i) (b_conn s i)"
  using assms by (simp add: broker_inv_def)

lemma broker_inv_accept:
  assumes "broker_inv ops dec enc s" "broker_step ops dec enc (BAccept i peer stream) s = Some s'"
  shows "broker_inv ops dec enc s'"
proof -
  have new: "b_conn s i = CNone" "i \<notin> fst ` snd ` set (b_trace s)"
    using assms(2) conn_okD [OF assms(1), of i] by (auto simp: conn_ok_def split: if_splits)
  show ?thesis
  proof (cases "peer = Inr 0")
    case True
    with assms(2) new(1) have s': "s' = set_conn i (CReading stream) (s\<lparr>b_input := (b_input s)(i \<mapsto> (peer, stream))\<rparr>)"
      by simp
    from assms(1) show ?thesis
      by (rule broker_inv_local [where i = i]) (use True new in \<open>simp_all add: s' conn_ok_def\<close>)
  next
    case False
    then have "\<not> fst (peer_is_root peer)" using peer_is_root_iff by blast
    then obtain log where log: "peer_is_root peer = (False, log)" by (cases "peer_is_root peer") auto
    with assms(2) new(1) have s': "s' = set_conn i (CClosed stream)
        (s\<lparr>b_input := (b_input s)(i \<mapsto> (peer, stream)), b_log := b_log s @ log\<rparr>)"
      by simp
    have "served ops dec enc (b_trace s) i peer stream stream"
      using new(2) handle_cases(1) [OF False] by (auto simp: served_def)
    then show ?thesis
      by (intro broker_inv_local [OF assms(1), where i = i]) (simp_all add: s' conn_ok_def)
  qed
qed

lemma broker_inv_read:
  assumes "broker_inv ops dec enc s" "broker_step ops dec enc (BRead i) s = Some s'"
  shows "broker_inv ops dec enc s'"
proof -
  obtain stream where c: "b_conn s i = CReading stream" using assms(2) by (auto split: conn.splits)
  then have ok: "b_input s i = Some (Inr 0, stream)" "i \<notin> fst ` snd ` set (b_trace s)"
    using conn_okD [OF assms(1), of i] by (auto simp: conn_ok_def)
  show ?thesis
  proof (cases "read_frame ops dec stream")
    case (Inl e)
    have "served ops dec enc (b_trace s) i (Inr 0) stream stream"
      using ok(2) handle_cases(2) [OF Inl] by (auto simp: served_def)
    then show ?thesis
      using assms(2) c Inl ok by (intro broker_inv_local [OF assms(1), where i = i]) (auto simp: conn_ok_def)
  next
    case (Inr r)
    with assms(2) c ok show ?thesis
      by (intro broker_inv_local [OF assms(1), where i = i]) (auto simp: conn_ok_def split: prod.splits)
  qed
qed

lemma broker_inv_write:
  assumes "broker_inv ops dec enc s" "broker_step ops dec enc (BWrite i) s = Some s'"
  shows "broker_inv ops dec enc s'"
proof -
  obtain resp s1 where c: "b_conn s i = CReplied resp s1" using assms(2) by (auto split: conn.splits)
  then obtain st pre t req post where ok: "b_input s i = Some (Inr 0, st)" "read_frame ops dec st = Inr (req, s1)"
    "b_trace s = pre @ (t, i, req) # post" "resp = fst (dispatch req (serial_store pre) t)"
    using conn_okD [OF assms(1), of i] by (auto simp: conn_ok_def)
  define out where "out = (case write_frame ops enc s1 resp of Inl e \<Rightarrow> s1 | Inr s2 \<Rightarrow> s2)"
  have "\<exists>log. handle ops dec enc (Inr 0) True t st (serial_store pre) = (out, serial_store (pre @ [(t, i, req)]), log)"
    using handle_cases(3,4) [OF ok(2)] ok(4) by (cases "write_frame ops enc s1 resp") (auto simp: out_def)
  then have "served ops dec enc (b_trace s) i (Inr 0) st out" using ok(3) by (auto simp: served_def)
  moreover have "b_conn s' = (b_conn s)(i := CClosed out)" "b_store s' = b_store s" "b_trace s' = b_trace s"
    "b_now s' = b_now s" "b_input s' = b_input s"
    using assms(2) c by (auto simp: out_def split: sum.splits)
  ultimately show ?thesis
    using ok(1) by (intro broker_inv_local [OF assms(1), where i = i]) (simp_all add: conn_ok_def)
qed

lemma broker_inv_dispatch:
  assumes inv: "broker_inv ops dec enc s" and step: "broker_step ops dec enc (BDispatch i) s = Some s'"
  shows "broker_inv ops dec enc s'"
proof -
  obtain req s1 where c: "b_conn s i = CGot req s1" using step by (auto split: conn.splits)
  then obtain st where ok: "b_input s i = Some (Inr 0, st)" "read_frame ops dec st = Inr (req, s1)"
    "i \<notin> fst ` snd ` set (b_trace s)"
    using conn_okD [OF inv, of i] by (auto simp: conn_ok_def)
  let ?tr = "b_trace s @ [(b_now s, i, req)]"
  have s': "b_conn s' = (b_conn s)(i := CReplied (fst (dispatch req (b_store s) (b_now s))) s1)"
    "b_store s' = snd (dispatch req (b_store s) (b_now s))" "b_trace s' = ?tr" "b_now s' = b_now s" "b_input s' = b_input s"
    using step c by (auto split: prod.splits)
  have store: "b_store s = serial_store (b_trace s)" using inv by (simp add: broker_inv_def)
  have "conn_ok ops dec enc ?tr j (b_input s j) (b_conn s' j)" for j
  proof (cases "j = i")
    case True
    have "?tr = b_trace s @ (b_now s, i, req) # []" by simp
    with ok(1,2) store True show ?thesis by (auto simp: s' conn_ok_def)
  next
    case False
    then show ?thesis using conn_ok_snoc [OF conn_okD [OF inv, of j]] by (simp add: s')
  qed
  moreover have "sorted (map fst ?tr)" "\<forall>(t, _)\<in>set ?tr. t \<le> b_now s" "distinct (map (fst \<circ> snd) ?tr)"
    using inv ok(3) by (fastforce simp: broker_inv_def sorted_append)+
  ultimately show ?thesis by (simp add: broker_inv_def s' store)
qed

lemma broker_inv_step:
  assumes "broker_inv ops dec enc s" "broker_step ops dec enc ev s = Some s'"
  shows "broker_inv ops dec enc s'"
proof (cases ev)
  case (BAcceptError e)
  with assms conn_okD [OF assms(1), of 0] show ?thesis
    by (intro broker_inv_local [OF assms(1), where i = 0]) auto
next
  case (BTick d)
  with assms conn_okD [OF assms(1), of 0] show ?thesis
    by (intro broker_inv_local [OF assms(1), where i = 0]) auto
next
  case (BAccept i peer stream)
  from assms show ?thesis unfolding BAccept by (rule broker_inv_accept)
next
  case (BRead i)
  from assms show ?thesis unfolding BRead by (rule broker_inv_read)
next
  case (BDispatch i)
  from assms show ?thesis unfolding BDispatch by (rule broker_inv_dispatch)
next
  case (BWrite i)
  from assms show ?thesis unfolding BWrite by (rule broker_inv_write)
qed

lemma breach_inv: "breach ops dec enc s \<Longrightarrow> broker_inv ops dec enc s"
  by (erule threads.invariant) (rule broker_inv_init, rule broker_inv_step)

subsection \<open>Properties\<close>

text \<open>C7. The threads of the broker are serialisable: in every reachable state the requests that have
  reached the store, at most one per connection and in the order of the clock, explain
  everything. The store is what serving them one after the other leaves, and a connection that
  is closed ended with exactly the bytes that \<open>handle\<close> by itself leaves at that point; a
  connection without such a request ended as \<open>handle\<close> ends it whatever the store holds, and
  left the store alone.\<close>

theorem broker_threads_serialisable:
  assumes "breach ops dec enc s"
  shows "b_store s = serial_store (b_trace s) \<and> sorted (map fst (b_trace s)) \<and>
     distinct (map (fst \<circ> snd) (b_trace s)) \<and>
     (\<forall>i out. b_conn s i = CClosed out \<longrightarrow>
        (\<exists>peer stream. b_input s i = Some (peer, stream) \<and> served ops dec enc (b_trace s) i peer stream out))"
proof -
  note inv = breach_inv [OF assms]
  have "\<exists>peer stream. b_input s i = Some (peer, stream) \<and> served ops dec enc (b_trace s) i peer stream out"
    if "b_conn s i = CClosed out" for i out
    using conn_okD [OF inv, of i] that by (simp add: conn_ok_def)
  with inv show ?thesis by (simp add: broker_inv_def)
qed

text \<open>Two connections at once: one records a grant, the other asks for it and is answered first.\<close>

definition ex_decode :: "request decoder" where
  "ex_decode b =
     (if b = [1] then Inr (RecordRemember example_key)
      else Inr (CheckRemember \<lparr>q_key = example_key, q_ttl_secs = 60\<rparr>))"

definition ex_encode :: "response encoder" where
  "ex_encode r = Inr (if r = Remember True then [7] else [8])"

definition ex_broker_events :: "(byte list \<times> byte list) broker_event list" where
  "ex_broker_events =
     [BAccept 0 (Inr 0) (frame [1], []), BAccept 1 (Inr 0) (frame [2], []), BRead 1, BRead 0,
      BDispatch 0, BTick 5, BDispatch 1, BWrite 1]"

lemma ex_read:
  "read_frame socket_ops ex_decode (frame [1], []) = Inr (RecordRemember example_key, ([], []))"
  "read_frame socket_ops ex_decode (frame [2], []) =
     Inr (CheckRemember \<lparr>q_key = example_key, q_ttl_secs = 60\<rparr>, ([], []))"
  using read_frame_buffer [of "[1]" ex_decode "[]"] read_frame_buffer [of "[2]" ex_decode "[]"]
  by (simp_all add: sock.read_frame_stream ex_decode_def MAX_FRAME_LEN_def)

lemma ex_fresh: "store_is_fresh (store_record store_new (BoundKey example_key) 0) (BoundKey example_key) 60 5"
  by (simp add: fresh_simps elapsed_def window_def from_secs_def MAX_REMEMBER_def)

lemma ex_write: "write_frame socket_ops ex_encode ([], []) (Remember True) = Inr ([], frame [7])"
  by (simp add: sock.write_frame_stream write_frame_buffer ex_encode_def MAX_FRAME_LEN_def)

lemma ex_broker_run:
  "\<exists>s. broker_run socket_ops ex_decode ex_encode ex_broker_events broker_init = Some s \<and>
     b_conn s 1 = CClosed ([], frame [7]) \<and> b_input s 1 = Some (Inr 0, (frame [2], [])) \<and>
     b_trace s = [(0, 0, RecordRemember example_key), (5, 1, CheckRemember \<lparr>q_key = example_key, q_ttl_secs = 60\<rparr>)]"
  using example_key_ok(1)
  by (simp add: ex_broker_events_def broker_init_def set_conn_def ex_read dispatch_def ex_fresh ex_write split: option.split)

theorem broker_threads_serialisable_witness:
  "\<exists>s. breach socket_ops ex_decode ex_encode s \<and> b_conn s 1 = CClosed ([], frame [7]) \<and>
     served socket_ops ex_decode ex_encode
       [(0, 0, RecordRemember example_key), (5, 1, CheckRemember \<lparr>q_key = example_key, q_ttl_secs = 60\<rparr>)] 1
       (Inr 0) (frame [2], []) ([], frame [7])"
proof -
  obtain s where s: "broker_run socket_ops ex_decode ex_encode ex_broker_events broker_init = Some s"
    "b_conn s 1 = CClosed ([], frame [7])" "b_input s 1 = Some (Inr 0, (frame [2], []))"
    "b_trace s = [(0, 0, RecordRemember example_key), (5, 1, CheckRemember \<lparr>q_key = example_key, q_ttl_secs = 60\<rparr>)]"
    using ex_broker_run by blast
  have r: "breach socket_ops ex_decode ex_encode s" using threads.runs_reachable [OF breach_init s(1)] .
  from broker_threads_serialisable [OF r] s(2,3)
  have "served socket_ops ex_decode ex_encode (b_trace s) 1 (Inr 0) (frame [2], []) ([], frame [7])" by force
  with r s(2,4) show ?thesis by auto
qed

end
