(* ===== verification/Cli.thy ===== *)
theory Cli
  imports Rust_Str "HOL-Library.Monad_Syntax"
begin

text \<open>
  The command line of the dialog (\<open>sentinel-shared/src/cli.rs\<close>): the arguments, the render
  mode they select, and reading them back. The parser itself is the \<open>clap\<close> crate and a
  parameter: it is given the declared options and the words of the command line and yields
  the text of each option, or refuses. \<open>clap_reads\<close> says what its documentation promises for
  command lines of the form \<open>--name value\<close> and \<open>--name\<close>; the conversion of the texts and the
  defaults are those of the derived \<open>Args\<close>.
\<close>

subsection \<open>Arguments\<close>

datatype render_mode = LayerShell | Windowed

record cli_args =
  ca_title :: ustr
  ca_message :: ustr
  ca_secondary :: ustr
  ca_process_exe :: "ustr option"
  ca_process_cmdline :: "ustr option"
  ca_process_pid :: "int option"
  ca_process_cwd :: "ustr option"
  ca_requesting_user :: "ustr option"
  ca_action :: "ustr option"
  ca_timeout :: nat
  ca_min_time :: nat
  ca_randomize :: bool
  ca_windowed :: bool
  ca_layer_shell :: bool
  ca_sound_name :: ustr
  ca_remember_secs :: nat

definition eq_ignore_ascii_case :: "ustr \<Rightarrow> ustr \<Rightarrow> bool" where
  "eq_ignore_ascii_case a b \<longleftrightarrow> to_ascii_lowercase a = to_ascii_lowercase b"

definition mutter_desktops :: "ustr list" where
  "mutter_desktops = map lit
     [''GNOME'', ''GNOME-Classic'', ''GNOME-Flashback'', ''Unity'', ''Pantheon'', ''Budgie'']"

definition desktop_lacks_layer_shell :: "ustr \<Rightarrow> bool" where
  "desktop_lacks_layer_shell xdg =
     list_ex (\<lambda>d. list_ex (eq_ignore_ascii_case (trim d)) mutter_desktops) (split_on (\<lambda>c. c = 58) xdg)"

definition effective_render_mode :: "cli_args \<Rightarrow> ustr option \<Rightarrow> render_mode" where
  "effective_render_mode a xdg_current_desktop =
     (if ca_windowed a then Windowed
      else if ca_layer_shell a then LayerShell
      else
        (case xdg_current_desktop of
           Some d \<Rightarrow> if desktop_lacks_layer_shell d then Windowed else LayerShell
         | None \<Rightarrow> LayerShell))"

subsection \<open>Reading the command line\<close>

text \<open>An option as \<open>Args\<close> declares it: its long name, whether it takes a value, what it excludes.\<close>

record arg_decl =
  ad_long :: ustr
  ad_takes_value :: bool
  ad_conflicts_with :: "ustr option"

definition value_arg :: "string \<Rightarrow> arg_decl" where
  "value_arg n = \<lparr>ad_long = lit n, ad_takes_value = True, ad_conflicts_with = None\<rparr>"

definition flag_arg :: "string \<Rightarrow> string option \<Rightarrow> arg_decl" where
  "flag_arg n c = \<lparr>ad_long = lit n, ad_takes_value = False, ad_conflicts_with = map_option lit c\<rparr>"

definition cli_decls :: "arg_decl list" where
  "cli_decls =
     [value_arg ''title'', value_arg ''message'', value_arg ''secondary'',
      value_arg ''process-exe'', value_arg ''process-cmdline'', value_arg ''process-pid'',
      value_arg ''process-cwd'', value_arg ''requesting-user'', value_arg ''action'',
      value_arg ''timeout'', value_arg ''min-time'', flag_arg ''randomize'' None,
      flag_arg ''windowed'' None, flag_arg ''layer-shell'' (Some ''windowed''),
      value_arg ''sound-name'', value_arg ''remember-secs'']"

text \<open>What the parser hands over: the text of every option that was given (none for a flag).\<close>

type_synonym arg_matches = "ustr \<Rightarrow> ustr option"
type_synonym arg_parser = "arg_decl list \<Rightarrow> ustr list \<Rightarrow> arg_matches option"

text \<open>\<open>str::parse::<u64>\<close>.\<close>

definition parse_u64 :: "ustr \<Rightarrow> nat option" where
  "parse_u64 s =
     (case parse_nat (if s \<noteq> [] \<and> hd s = 43 then tl s else s) of
        None \<Rightarrow> None
      | Some n \<Rightarrow> if n < 2 ^ 64 then Some n else None)"

text \<open>A value with its default, and an optional one; a text that does not convert is refused.\<close>

definition with_default :: "(ustr \<Rightarrow> 'a option) \<Rightarrow> 'a \<Rightarrow> ustr option \<Rightarrow> 'a option" where
  "with_default conv dflt given = (case given of None \<Rightarrow> Some dflt | Some s \<Rightarrow> conv s)"

definition if_given :: "(ustr \<Rightarrow> 'a option) \<Rightarrow> ustr option \<Rightarrow> 'a option option" where
  "if_given conv given = (case given of None \<Rightarrow> Some None | Some s \<Rightarrow> map_option Some (conv s))"

definition args_of_matches :: "arg_matches \<Rightarrow> cli_args option" where
  "args_of_matches m = do {
     pid \<leftarrow> if_given parse_i32 (m (lit ''process-pid''));
     timeout \<leftarrow> with_default parse_u64 30 (m (lit ''timeout''));
     min_time \<leftarrow> with_default parse_u64 500 (m (lit ''min-time''));
     remember_secs \<leftarrow> with_default parse_u32 0 (m (lit ''remember-secs''));
     Some \<lparr>ca_title = unwrap_or (m (lit ''title'')) (lit ''Authentication Required''),
       ca_message = unwrap_or (m (lit ''message'')) (lit ''An application is requesting elevated privileges.''),
       ca_secondary = unwrap_or (m (lit ''secondary'')) (lit ''Click Allow to continue or Deny to cancel.''),
       ca_process_exe = m (lit ''process-exe''),
       ca_process_cmdline = m (lit ''process-cmdline''),
       ca_process_pid = pid,
       ca_process_cwd = m (lit ''process-cwd''),
       ca_requesting_user = m (lit ''requesting-user''),
       ca_action = m (lit ''action''),
       ca_timeout = timeout,
       ca_min_time = min_time,
       ca_randomize = (m (lit ''randomize'') \<noteq> None),
       ca_windowed = (m (lit ''windowed'') \<noteq> None),
       ca_layer_shell = (m (lit ''layer-shell'') \<noteq> None),
       ca_sound_name = unwrap_or (m (lit ''sound-name'')) [],
       ca_remember_secs = unat remember_secs\<rparr>
   }"

text \<open>\<open>Args::parse\<close> on the words after the program's name. \<open>None\<close> is the usage error: the parser
  ends the process with its message on standard error and nothing on standard output.\<close>

definition parse_cli :: "arg_parser \<Rightarrow> ustr list \<Rightarrow> cli_args option" where
  "parse_cli clap words = Option.bind (clap cli_decls words) args_of_matches"

subsection \<open>What the parser promises\<close>

text \<open>One option on a command line: with a value in the next word, or alone.\<close>

datatype cli_item = Given ustr ustr | Alone ustr

fun item_name :: "cli_item \<Rightarrow> ustr" where
  "item_name (Given n v) = n"
| "item_name (Alone n) = n"

fun item_entry :: "cli_item \<Rightarrow> ustr \<times> ustr" where
  "item_entry (Given n v) = (n, v)"
| "item_entry (Alone n) = (n, [])"

definition long_name :: "ustr \<Rightarrow> ustr" where
  "long_name n = 45 # 45 # n"

fun item_words :: "cli_item \<Rightarrow> ustr list" where
  "item_words (Given n v) = [long_name n, v]"
| "item_words (Alone n) = [long_name n]"

definition cli_words :: "cli_item list \<Rightarrow> ustr list" where
  "cli_words items = concat (map item_words items)"

text \<open>
  A word that starts with a hyphen is read as an option and never as a value, the lone
  hyphen excepted (\<open>allow_hyphen_values\<close> is off by default).
\<close>

definition cli_value :: "ustr \<Rightarrow> bool" where
  "cli_value v \<longleftrightarrow> v = [] \<or> hd v \<noteq> 45 \<or> v = [45]"

text \<open>Items that name declared options, each once, and give values to value options only.\<close>

definition declared :: "arg_decl list \<Rightarrow> cli_item list \<Rightarrow> bool" where
  "declared ds items \<longleftrightarrow>
     distinct (map item_name items) \<and>
     list_all (\<lambda>it. case it of
         Given n v \<Rightarrow> list_ex (\<lambda>d. ad_long d = n \<and> ad_takes_value d) ds
       | Alone n \<Rightarrow> list_ex (\<lambda>d. ad_long d = n) ds) items"

fun item_ok :: "arg_decl list \<Rightarrow> cli_item \<Rightarrow> bool" where
  "item_ok ds (Given n v) = cli_value v"
| "item_ok ds (Alone n) = list_ex (\<lambda>d. ad_long d = n \<and> \<not> ad_takes_value d) ds"

definition no_conflict :: "arg_decl list \<Rightarrow> ustr list \<Rightarrow> bool" where
  "no_conflict ds names =
     list_all (\<lambda>d. ad_long d \<in> set names \<longrightarrow> (case ad_conflicts_with d of None \<Rightarrow> True | Some c \<Rightarrow> c \<notin> set names)) ds"

definition clap_reads :: "arg_parser \<Rightarrow> arg_decl list \<Rightarrow> bool" where
  "clap_reads clap ds \<longleftrightarrow>
     (\<forall>items. declared ds items \<longrightarrow>
        clap ds (cli_words items) =
          (if list_all (item_ok ds) items \<and> no_conflict ds (map item_name items)
           then Some (map_of (map item_entry items)) else None))"

subsection \<open>Printing a command line\<close>

text \<open>
  Both spawners write the options of a dialog in one order, each with its value in a word of
  its own. A field is absent, a flag, or a text; \<open>keep\<close> says which texts the spawner can pass.
\<close>

type_synonym cli_field = "ustr \<times> ustr option option"

definition text_item :: "(ustr \<Rightarrow> bool) \<Rightarrow> ustr \<Rightarrow> ustr \<Rightarrow> cli_item" where
  "text_item keep n v = (if keep v then Given n v else Alone n)"

fun field_item :: "(ustr \<Rightarrow> bool) \<Rightarrow> cli_field \<Rightarrow> cli_item option" where
  "field_item keep (n, None) = None"
| "field_item keep (n, Some None) = Some (Alone n)"
| "field_item keep (n, Some (Some v)) = Some (text_item keep n v)"

definition field_items :: "(ustr \<Rightarrow> bool) \<Rightarrow> cli_field list \<Rightarrow> cli_item list" where
  "field_items keep fs = List.map_filter (field_item keep) fs"

definition text_field :: "ustr option \<Rightarrow> ustr option option" where
  "text_field v = map_option Some v"

definition cli_fields :: "cli_args \<Rightarrow> cli_field list" where
  "cli_fields a =
     [(lit ''title'', Some (Some (ca_title a))),
      (lit ''message'', Some (Some (ca_message a))),
      (lit ''secondary'', Some (Some (ca_secondary a))),
      (lit ''timeout'', Some (Some (show_nat (ca_timeout a)))),
      (lit ''min-time'', Some (Some (show_nat (ca_min_time a)))),
      (lit ''remember-secs'', Some (Some (show_nat (ca_remember_secs a)))),
      (lit ''sound-name'', if ca_sound_name a \<noteq> [] then Some (Some (ca_sound_name a)) else None),
      (lit ''randomize'', if ca_randomize a then Some None else None),
      (lit ''process-exe'', text_field (ca_process_exe a)),
      (lit ''process-cmdline'', text_field (ca_process_cmdline a)),
      (lit ''process-pid'', text_field (map_option show_int (ca_process_pid a))),
      (lit ''process-cwd'', text_field (ca_process_cwd a)),
      (lit ''requesting-user'', text_field (ca_requesting_user a)),
      (lit ''action'', text_field (ca_action a))]"

text \<open>The texts of a dialog that others can influence, and arguments a spawner can pass on.\<close>

definition cli_texts :: "cli_args \<Rightarrow> ustr list" where
  "cli_texts a =
     [ca_title a, ca_message a, ca_secondary a, ca_sound_name a] @
     List.map_filter id
       [ca_process_exe a, ca_process_cmdline a, map_option show_int (ca_process_pid a),
        ca_process_cwd a, ca_requesting_user a, ca_action a]"

definition spawnable :: "cli_args \<Rightarrow> bool" where
  "spawnable a \<longleftrightarrow>
     ca_timeout a < 2 ^ 64 \<and> ca_min_time a < 2 ^ 64 \<and> ca_remember_secs a < 2 ^ 32 \<and>
     pred_option (\<lambda>p. - (2 ^ 31) \<le> p \<and> p < 2 ^ 31) (ca_process_pid a) \<and>
     \<not> ca_windowed a \<and> \<not> ca_layer_shell a"

lemma field_items_simps [simp]:
  "field_items keep [] = []"
  "field_items keep (f # fs) = (case field_item keep f of None \<Rightarrow> [] | Some it \<Rightarrow> [it]) @ field_items keep fs"
  by (simp_all add: field_items_def List.map_filter_def split: option.split)

lemma field_items_names: "map item_name (field_items keep fs) = map fst (filter (\<lambda>f. snd f \<noteq> None) fs)"
proof (induction fs)
  case (Cons f fs)
  then show ?case
    by (cases "(keep, f)" rule: field_item.cases) (auto simp: text_item_def)
qed simp

lemma field_items_lookup:
  assumes "distinct (map fst fs)"
  shows "map_of (map item_entry (field_items keep fs)) n =
    (case map_of fs n of
       Some (Some (Some v)) \<Rightarrow> Some (if keep v then v else [])
     | Some (Some None) \<Rightarrow> Some []
     | _ \<Rightarrow> None)"
  using assms
proof (induction fs)
  case (Cons f fs)
  have "map_of fs n = None" if "n = fst f"
    using Cons.prems that by (auto simp: map_of_eq_None_iff)
  then show ?case
    using Cons by (cases f; cases "(keep, f)" rule: field_item.cases) (auto simp: text_item_def split: option.splits)
qed simp

text \<open>Fields that fit the declared options: flags are flags, texts go to value options.\<close>

definition is_flag :: "arg_decl list \<Rightarrow> ustr \<Rightarrow> bool" where
  "is_flag ds n = list_ex (\<lambda>d. ad_long d = n \<and> \<not> ad_takes_value d) ds"

definition is_value_option :: "arg_decl list \<Rightarrow> ustr \<Rightarrow> bool" where
  "is_value_option ds n = list_ex (\<lambda>d. ad_long d = n \<and> ad_takes_value d) ds"

fun field_fits :: "arg_decl list \<Rightarrow> cli_field \<Rightarrow> bool" where
  "field_fits ds (n, None) = True"
| "field_fits ds (n, Some None) = is_flag ds n"
| "field_fits ds (n, Some (Some v)) = (is_value_option ds n \<and> \<not> is_flag ds n)"

fun field_ok :: "(ustr \<Rightarrow> bool) \<Rightarrow> cli_field \<Rightarrow> bool" where
  "field_ok keep (n, Some (Some v)) = (keep v \<and> cli_value v)"
| "field_ok keep (n, _) = True"

lemma field_items_declared:
  assumes "distinct (map fst fs)" "list_all (field_fits ds) fs"
  shows "declared ds (field_items keep fs)"
proof -
  have "distinct (map item_name (field_items keep fs))"
    using assms(1) by (simp add: field_items_names distinct_map_filter)
  moreover have "list_all (\<lambda>it. case it of Given n v \<Rightarrow> list_ex (\<lambda>d. ad_long d = n \<and> ad_takes_value d) ds
      | Alone n \<Rightarrow> list_ex (\<lambda>d. ad_long d = n) ds) (field_items keep fs)"
    using assms(2)
  proof (induction fs)
    case (Cons f fs)
    then show ?case
      by (cases "(ds, f)" rule: field_fits.cases)
        (auto simp: text_item_def is_flag_def is_value_option_def list_ex_iff)
  qed simp
  ultimately show ?thesis by (simp add: declared_def)
qed

lemma field_items_ok:
  "list_all (field_fits ds) fs \<Longrightarrow> list_all (item_ok ds) (field_items keep fs) \<longleftrightarrow> list_all (field_ok keep) fs"
proof (induction fs)
  case (Cons f fs)
  then show ?case
    by (cases "(ds, f)" rule: field_fits.cases) (auto simp: text_item_def is_flag_def)
qed simp

lemma cli_fields_distinct: "distinct (map fst (cli_fields a))"
  by (simp add: cli_fields_def)

lemma text_field_simps [simp]:
  "field_fits ds (n, text_field v) \<longleftrightarrow> (v = None \<or> is_value_option ds n \<and> \<not> is_flag ds n)"
  "field_ok keep (n, text_field v) \<longleftrightarrow> pred_option (\<lambda>t. keep t \<and> cli_value t) v"
  by (cases v; simp add: text_field_def)+

lemma field_if_simps [simp]:
  "field_fits ds (n, if b then Some x else None) \<longleftrightarrow> (b \<longrightarrow> field_fits ds (n, Some x))"
  "field_ok keep (n, if b then Some x else None) \<longleftrightarrow> (b \<longrightarrow> field_ok keep (n, Some x))"
  by simp_all

lemma cli_options:
  "is_flag cli_decls n \<longleftrightarrow> n \<in> set (map lit [''randomize'', ''windowed'', ''layer-shell''])"
  "is_value_option cli_decls n \<longleftrightarrow> n \<in> set (map lit
     [''title'', ''message'', ''secondary'', ''process-exe'', ''process-cmdline'', ''process-pid'', ''process-cwd'',
      ''requesting-user'', ''action'', ''timeout'', ''min-time'', ''sound-name'', ''remember-secs''])"
  by (auto simp: cli_decls_def value_arg_def flag_arg_def is_flag_def is_value_option_def simp del: lit_simps)

lemma cli_fields_fit: "list_all (field_fits cli_decls) (cli_fields a)"
  by (simp add: cli_fields_def cli_options)

lemma map_filter_id_ball: "(\<forall>x\<in>set (List.map_filter id xs). P x) \<longleftrightarrow> list_all (pred_option P) xs"
  by (induction xs) (auto simp: List.map_filter_def split: option.splits)

lemma cli_value_show_nat [simp]: "cli_value (show_nat n)"
  by (simp add: cli_value_def)

lemma parse_u64_show [simp]: "n < 2 ^ 64 \<Longrightarrow> parse_u64 (show_nat n) = Some n"
  by (simp add: parse_u64_def parse_nat_def parse_digits_show_nat)

lemma parse_u32_show_nat: "n < 2 ^ 32 \<Longrightarrow> parse_u32 (show_nat n) = Some (of_nat n)"
  by (simp add: parse_u32_def parse_nat_def parse_digits_show_nat)

lemma parse_i32_show: "- (2 ^ 31) \<le> p \<Longrightarrow> p < 2 ^ 31 \<Longrightarrow> parse_i32 (show_int p) = Some p"
  by (auto simp: parse_i32_def show_int_def parse_nat_def parse_digits_show_nat)

lemma cli_fields_ok:
  assumes "\<And>n. keep (show_nat n)" "keep []"
  shows "list_all (field_ok keep) (cli_fields a) \<longleftrightarrow> (\<forall>t\<in>set (cli_texts a). keep t \<and> cli_value t)"
proof -
  have "(ca_sound_name a \<noteq> [] \<longrightarrow> keep (ca_sound_name a) \<and> cli_value (ca_sound_name a)) \<longleftrightarrow>
      keep (ca_sound_name a) \<and> cli_value (ca_sound_name a)"
    using assms(2) by (auto simp: cli_value_def)
  then show ?thesis
    unfolding cli_fields_def cli_texts_def list_all_append_iff map_filter_id_ball
    by (simp add: assms(1) del: lit_simps)
qed

text \<open>Reading back what was printed.\<close>

fun field_text :: "ustr option option option \<Rightarrow> ustr option" where
  "field_text (Some (Some (Some v))) = Some v"
| "field_text (Some (Some None)) = Some []"
| "field_text _ = None"

lemma field_text_text [simp]: "field_text (Some (text_field v)) = v"
  by (cases v) (simp_all add: text_field_def)

lemma field_items_read:
  assumes "distinct (map fst fs)" "list_all (field_ok keep) fs"
  shows "map_of (map item_entry (field_items keep fs)) = (\<lambda>n. field_text (map_of fs n))"
proof (rule ext)
  fix n
  have "keep v" if "map_of fs n = Some (Some (Some v))" for v
    using assms(2) map_of_SomeD [OF that] by (auto simp: list_all_iff)
  then show "map_of (map item_entry (field_items keep fs)) n = field_text (map_of fs n)"
    unfolding field_items_lookup [OF assms(1)] by (cases "map_of fs n" rule: field_text.cases) auto
qed

lemma args_of_cli_fields:
  assumes "spawnable a"
  shows "args_of_matches (\<lambda>n. field_text (map_of (cli_fields a) n)) = Some a"
proof -
  have "if_given parse_i32 (map_option show_int (ca_process_pid a)) = Some (ca_process_pid a)"
    using assms by (cases "ca_process_pid a") (simp_all add: if_given_def spawnable_def parse_i32_show)
  then show ?thesis
    using assms
    by (simp add: args_of_matches_def cli_fields_def spawnable_def with_default_def parse_u32_show_nat unat_of_nat)
qed

lemma parse_cli_words:
  assumes "clap_reads clap cli_decls" "spawnable a" "\<And>n. keep (show_nat n)" "keep []"
  shows "parse_cli clap (cli_words (field_items keep (cli_fields a))) =
    (if \<forall>t\<in>set (cli_texts a). keep t \<and> cli_value t then Some a else None)"
proof -
  let ?is = "field_items keep (cli_fields a)"
  have "lit ''layer-shell'' \<notin> set (map fst (cli_fields a))" by (simp add: cli_fields_def)
  then have "lit ''layer-shell'' \<notin> set (map item_name ?is)" unfolding field_items_names by auto
  then have "no_conflict cli_decls (map item_name ?is)"
    by (simp add: no_conflict_def cli_decls_def value_arg_def flag_arg_def del: lit_simps)
  then have "clap cli_decls (cli_words ?is) =
      (if list_all (field_ok keep) (cli_fields a) then Some (map_of (map item_entry ?is)) else None)"
    using assms(1) field_items_declared [OF cli_fields_distinct cli_fields_fit, of keep a]
    by (simp add: clap_reads_def field_items_ok [OF cli_fields_fit])
  then show ?thesis
    using field_items_read [OF cli_fields_distinct, of keep a] args_of_cli_fields [OF assms(2)]
    by (simp add: parse_cli_def cli_fields_ok [OF assms(3,4)])
qed

subsection \<open>A parser that keeps the promise\<close>

text \<open>Reading words from left to right; used in examples, in place of the crate.\<close>

fun long_options :: "arg_decl list \<Rightarrow> ustr list \<Rightarrow> cli_item list option" where
  "long_options ds [] = Some []"
| "long_options ds (w # ws) =
     (case strip_prefix [45, 45] w of
        None \<Rightarrow> None
      | Some n \<Rightarrow>
          if is_flag ds n then map_option ((#) (Alone n)) (long_options ds ws)
          else if is_value_option ds n then
            (case ws of
               [] \<Rightarrow> None
             | v # ws' \<Rightarrow> if cli_value v then map_option ((#) (Given n v)) (long_options ds ws') else None)
          else None)"

definition example_clap :: arg_parser where
  "example_clap ds ws =
     (case long_options ds ws of
        None \<Rightarrow> None
      | Some items \<Rightarrow>
          if distinct (map item_name items) \<and> no_conflict ds (map item_name items)
          then Some (map_of (map item_entry items)) else None)"

lemma strip_long_name [simp]: "strip_prefix [45, 45] (long_name n) = Some n"
  by (simp add: strip_prefix_Some_iff long_name_def)

lemma cli_words_simps [simp]:
  "cli_words [] = []" "cli_words (it # items) = item_words it @ cli_words items"
  by (simp_all add: cli_words_def)

lemma cli_words_hd: "cli_words items = v # ws \<Longrightarrow> \<not> cli_value v"
  by (cases items; cases "hd items") (auto simp: long_name_def cli_value_def)

lemma long_options_words:
  assumes "\<And>n. \<not> (is_flag ds n \<and> is_value_option ds n)"
    and "list_all (\<lambda>it. case it of Given n v \<Rightarrow> is_value_option ds n | Alone n \<Rightarrow> is_flag ds n \<or> is_value_option ds n) items"
  shows "long_options ds (cli_words items) = (if list_all (item_ok ds) items then Some items else None)"
  using assms(2)
proof (induction items)
  case (Cons it items)
  then show ?case
  proof (cases it)
    case (Given n v)
    with Cons assms(1) [of n] show ?thesis by auto
  next
    case (Alone n)
    with Cons assms(1) [of n] show ?thesis
      by (cases "cli_words items") (auto simp: is_flag_def [symmetric] dest: cli_words_hd)
  qed
qed simp

lemma example_clap_reads: "clap_reads example_clap cli_decls"
proof -
  have ex: "\<not> (is_flag cli_decls n \<and> is_value_option cli_decls n)" for n
    by (auto simp: cli_options lit_eq_iff simp del: lit_simps)
  have "list_ex (\<lambda>d. ad_long d = n) ds \<longleftrightarrow> is_flag ds n \<or> is_value_option ds n" for ds n
    by (auto simp: is_flag_def is_value_option_def list_ex_iff)
  then show ?thesis
    unfolding clap_reads_def example_clap_def declared_def
    by (auto simp: long_options_words [OF ex] is_value_option_def [symmetric] list_all_iff)
qed

end
