(* ===== verification/F64.thy ===== *)
theory F64
  imports Complex_Main "HOL-Library.Log_Nat"
begin

text \<open>
  Rust's \<open>f64\<close> as far as the dialog uses it: quotients of two \<open>i32\<close> values, clamping and
  rounding up. Values are exact rationals; a quotient is the exact one rounded to 53
  significant bits, ties to even. Operands of 32 bits keep every quotient away from the
  subnormal and the infinite range.
\<close>

definition round_even :: "rat \<Rightarrow> int" where
  "round_even q =
     (let f = \<lfloor>q\<rfloor>; d = q - of_int f
      in if d < 1 / 2 \<or> (d = 1 / 2 \<and> even f) then f else f + 1)"

text \<open>The exponent of the last of 53 bits of \<open>a / b\<close>.\<close>

definition f64_exponent :: "nat \<Rightarrow> nat \<Rightarrow> int" where
  "f64_exponent a b =
     (let l = int (floorlog 2 a) - int (floorlog 2 b)
      in (if (2 :: rat) powi l * of_nat b \<le> of_nat a then l else l - 1) - 52)"

definition f64_quotient :: "nat \<Rightarrow> nat \<Rightarrow> rat" where
  "f64_quotient a b =
     (let ulp = 2 powi f64_exponent a b
      in of_int (round_even (of_nat a / of_nat b / ulp)) * ulp)"

text \<open>\<open>f64::from(a) / f64::from(b)\<close> for a positive \<open>b\<close>.\<close>

definition f64_div :: "int \<Rightarrow> int \<Rightarrow> rat" where
  "f64_div a b =
     (if a = 0 then 0
      else if a < 0 then - f64_quotient (nat (- a)) (nat b)
      else f64_quotient (nat a) (nat b))"

text \<open>\<open>clamp(0.0, 1.0)\<close>, and \<open>as i32\<close>, which truncates and saturates.\<close>

definition f64_clamp01 :: "rat \<Rightarrow> rat" where
  "f64_clamp01 q = max 0 (min 1 q)"

definition f64_as_i32 :: "rat \<Rightarrow> int" where
  "f64_as_i32 q = max (- (2 ^ 31)) (min (if q < 0 then \<lceil>q\<rceil> else \<lfloor>q\<rfloor>) (2 ^ 31 - 1))"

lemma round_even_error: "\<bar>of_int (round_even q) - q\<bar> \<le> 1 / 2"
proof -
  have "of_int \<lfloor>q\<rfloor> \<le> q" "q < of_int \<lfloor>q\<rfloor> + 1" by linarith+
  then show ?thesis by (auto simp: round_even_def Let_def abs_le_iff)
qed

lemma round_even_of_int [simp]: "round_even (of_int k) = k"
  by (simp add: round_even_def)

lemma floorlog_2_bounds:
  assumes "0 < n"
  shows "2 powi (int (floorlog 2 n) - 1) \<le> (of_nat n :: rat)" "(of_nat n :: rat) < 2 powi (int (floorlog 2 n))"
proof -
  have b: "2 ^ (floorlog 2 n - 1) \<le> n" "n < 2 ^ floorlog 2 n" 
    using floorlog_bounds [of n 2] assms by auto
  have p: "0 < floorlog 2 n" using assms floorlog_eq_zero_iff [of 2 n] by simp
  have "int (floorlog 2 n) - 1 = int (floorlog 2 n - 1)" using p by simp
  then have "2 powi (int (floorlog 2 n) - 1) = (of_nat (2 ^ (floorlog 2 n - 1)) :: rat)"
    by (simp only: power_int_of_nat of_nat_power of_nat_numeral)
  with b(1) show "2 powi (int (floorlog 2 n) - 1) \<le> (of_nat n :: rat)" by (simp only: of_nat_le_iff)
  have "2 powi (int (floorlog 2 n)) = (of_nat (2 ^ floorlog 2 n) :: rat)" by simp
  with b(2) show "(of_nat n :: rat) < 2 powi (int (floorlog 2 n))" by (simp only: of_nat_less_iff)
qed

lemma f64_exponent_lower:
  assumes "0 < a" "0 < b"
  shows "2 powi (f64_exponent a b + 52) \<le> (of_nat a / of_nat b :: rat)"
proof -
  define l where "l = int (floorlog 2 a) - int (floorlog 2 b)"
  have "(2::rat) powi (l - 1) * of_nat b \<le> 2 powi (l - 1) * 2 powi (int (floorlog 2 b))"
    using floorlog_2_bounds(2) [OF assms(2)] by (intro mult_left_mono) simp_all
  also have "\<dots> = 2 powi (int (floorlog 2 a) - 1)"
    by (subst power_int_add [symmetric]) (simp_all only: l_def, simp_all)
  also have "\<dots> \<le> of_nat a" by (rule floorlog_2_bounds(1) [OF assms(1)])
  finally have "(2::rat) powi (f64_exponent a b + 52) * of_nat b \<le> of_nat a"
    by (simp add: f64_exponent_def l_def Let_def)
  with assms(2) show ?thesis by (simp add: pos_le_divide_eq)
qed

lemma f64_quotient_error:
  assumes "0 < a" "0 < b"
  shows "\<bar>f64_quotient a b - of_nat a / of_nat b\<bar> \<le> of_nat a / of_nat b / 2 ^ 53"
proof -
  define q :: rat where "q = of_nat a / of_nat b"
  define u :: rat where "u = 2 powi f64_exponent a b"
  have u: "0 < u" "u * 2 ^ 52 \<le> q"
    using f64_exponent_lower [OF assms] by (simp_all add: u_def q_def power_int_add)
  have "\<bar>f64_quotient a b - q\<bar> = \<bar>of_int (round_even (q / u)) - q / u\<bar> * u"
    using u(1) by (simp add: f64_quotient_def q_def [symmetric] u_def [symmetric] Let_def abs_mult_pos left_diff_distrib)
  also have "\<dots> \<le> 1 / 2 * u" using round_even_error u(1) by (intro mult_right_mono) simp_all
  also have "\<dots> \<le> q / 2 ^ 53" using u(2) by simp
  finally show ?thesis by (simp add: q_def)
qed

text \<open>A quotient that is an integer below \<open>2^53\<close> is exact.\<close>

lemma f64_quotient_exact:
  assumes "0 < k" "0 < b" "k < 2 ^ 53"
  shows "f64_quotient (k * b) b = of_nat k"
proof -
  let ?e = "f64_exponent (k * b) b"
  have q: "(of_nat (k * b) / of_nat b :: rat) = of_nat k" using assms(2) by simp
  have "2 powi (?e + 52) \<le> (of_nat k :: rat)"
    using f64_exponent_lower [of "k * b" b] assms(1,2) by (simp add: q)
  also have "(of_nat k :: rat) < 2 powi 53"
    using assms(3) by (metis of_nat_less_iff of_nat_numeral of_nat_power power_int_numeral)
  finally have "\<not> 53 \<le> ?e + 52" using power_int_increasing [of 53 "?e + 52" "2 :: rat"] by auto
  then have "?e \<le> 0" by linarith
  then obtain m where "?e = - int m" using that [of "nat (- ?e)"] by simp
  then have u: "(2 :: rat) powi ?e = inverse (2 ^ m)" by (simp only: power_int_minus power_int_of_nat)
  have "of_nat k / (2 :: rat) powi ?e = of_int (int k * 2 ^ m)" unfolding u by (simp add: divide_inverse)
  then have "round_even (of_nat k / 2 powi ?e) = int k * 2 ^ m" by (simp only: round_even_of_int)
  then show ?thesis unfolding f64_quotient_def Let_def q by (simp add: u)
qed

text \<open>Rounding up the quotient of an \<open>i32\<close> by 1000 is exact: the error is far below a thousandth.\<close>

lemma ceiling_f64_div_1000:
  assumes "0 \<le> n" "n < 2 ^ 31"
  shows "\<lceil>f64_div n 1000\<rceil> = (n + 999) div 1000"
proof (cases "n mod 1000 = 0")
  case True
  then obtain k where k: "n = k * 1000" by (auto simp: mod_eq_0_iff_dvd dvd_def)
  then have "0 \<le> k" "k < 2 ^ 31" using assms by simp_all
  moreover have "f64_quotient (nat k * 1000) 1000 = of_nat (nat k)" if "0 < k"
    using f64_quotient_exact [of "nat k" 1000] that \<open>k < 2 ^ 31\<close> by simp
  ultimately show ?thesis by (auto simp: k f64_div_def nat_mult_distrib)
next
  case False
  define k where "k = n div 1000"
  define q :: rat where "q = of_int n / 1000"
  have n: "0 < n" "n = 1000 * k + n mod 1000" "0 < n mod 1000" "n mod 1000 < 1000"
    using assms(1) False by (auto simp: k_def le_less)
  have f: "f64_div n 1000 = f64_quotient (nat n) 1000" using n(1) by (simp add: f64_div_def)
  have "\<bar>f64_div n 1000 - q\<bar> \<le> q / 2 ^ 53"
    using f64_quotient_error [of "nat n" 1000] n(1) by (simp add: f q_def of_nat_nat)
  also have "q / 2 ^ 53 < 1 / 1000" using assms(2) by (simp add: q_def)
  finally have err: "\<bar>f64_div n 1000 - q\<bar> < 1 / 1000" .
  have "of_int k + 1 / 1000 \<le> q" "q \<le> of_int k + 999 / 1000"
  proof -
    have "1000 * k + 1 \<le> n" "n \<le> 1000 * k + 999" using n by linarith+
    then have "(of_int (1000 * k + 1) :: rat) \<le> of_int n" "(of_int n :: rat) \<le> of_int (1000 * k + 999)"
      by (simp_all only: of_int_le_iff)
    then show "of_int k + 1 / 1000 \<le> q" "q \<le> of_int k + 999 / 1000" by (simp_all add: q_def field_simps)
  qed
  with err have "of_int k < f64_div n 1000" "f64_div n 1000 \<le> of_int k + 1" by linarith+
  then have "\<lceil>f64_div n 1000\<rceil> = k + 1" by (simp add: ceiling_unique)
  also have "k + 1 = (n + 999) div 1000"
    using int_div_pos_eq [of "n + 999" 1000 "k + 1" "n mod 1000 - 1"] n by simp
  finally show ?thesis .
qed

text \<open>A proper fraction stays one: the progress bar is full at the end only.\<close>

lemma f64_div_fraction:
  assumes "0 \<le> a" "a < b" "b < 2 ^ 31"
  shows "0 \<le> f64_div a b" "f64_div a b < 1"
    and "\<bar>f64_div a b - of_int a / of_int b\<bar> \<le> 1 / 2 ^ 53"
proof -
  define q :: rat where "q = of_int a / of_int b"
  have b: "0 < b" using assms by simp
  have err: "\<bar>f64_div a b - q\<bar> \<le> q / 2 ^ 53"
    using f64_quotient_error [of "nat a" "nat b"] assms b by (auto simp: f64_div_def q_def of_nat_nat le_less)
  have q: "0 \<le> q" "q \<le> 1 - 1 / of_int b"
  proof -
    have "(of_int (a + 1) :: rat) \<le> of_int b" using assms(2) by (simp only: of_int_le_iff)
    then show "q \<le> 1 - 1 / of_int b" using b by (simp add: q_def field_simps)
    show "0 \<le> q" using assms(1) b by (simp add: q_def)
  qed
  have "(1 :: rat) / 2 ^ 31 \<le> 1 / of_int b" using b assms(3) by (intro divide_left_mono) simp_all
  with q(2) have "q \<le> 1 - 1 / 2 ^ 31" by linarith
  then have q': "q * 2147483648 \<le> 2147483647" by simp
  define e where "e = \<bar>f64_div a b - q\<bar>"
  have e: "e * 9007199254740992 \<le> q" "q - f64_div a b \<le> e" "f64_div a b - q \<le> e" using err by (simp_all add: e_def)
  show "0 \<le> f64_div a b" using e q(1) by linarith
  show "f64_div a b < 1" using e q' by linarith
  have "e * 9007199254740992 \<le> 1" using e(1) q' by linarith
  then show "\<bar>f64_div a b - of_int a / of_int b\<bar> \<le> 1 / 2 ^ 53" by (simp add: q_def e_def)
qed

end
