(* ===== verification/Ui_I18n.thy ===== *)
theory Ui_I18n
  imports Rust_Str
begin

text \<open>
  The dialog's strings (\<open>sentinel-shared/src/ui_i18n.rs\<close>): the language from the locale
  environment, the tables and the lookup with its fallbacks. Letters outside ASCII are
  given by their code points.
\<close>

subsection \<open>The language\<close>

definition lang_of :: "ustr \<Rightarrow> ustr option" where
  "lang_of value =
     (let v = trim value
      in if v = [] \<or> v = lit ''C'' \<or> v = lit ''POSIX'' then None
         else
           (let lang = to_ascii_lowercase (hd (split_on (\<lambda>c. c = 95 \<or> c = 46 \<or> c = 64) v))
            in if lang \<noteq> [] then Some lang else None))"

fun first_lang :: "(string \<Rightarrow> ustr option) \<Rightarrow> string list \<Rightarrow> ustr" where
  "first_lang env [] = lit ''en''"
| "first_lang env (var # vars) =
     (case Option.bind (env var) lang_of of Some l \<Rightarrow> l | None \<Rightarrow> first_lang env vars)"

definition ui_lang :: "(string \<Rightarrow> ustr option) \<Rightarrow> ustr" where
  "ui_lang env = first_lang env [''LC_ALL'', ''LC_MESSAGES'', ''LANG'']"

subsection \<open>The tables\<close>

definition ui_en :: "ustr \<rightharpoonup> ustr" where
  "ui_en = map_of [
     (lit ''allow'', lit ''Allow''),
     (lit ''deny'', lit ''Deny''),
     (lit ''show-details'', lit ''Show details''),
     (lit ''hide-details'', lit ''Hide details''),
     (lit ''auto-deny-in'', lit ''Auto-deny in %1 s''),
     (lit ''title-default'', lit ''Authentication Required''),
     (lit ''detail-action'', lit ''Action''),
     (lit ''detail-command'', lit ''Command''),
     (lit ''detail-pid'', lit ''PID''),
     (lit ''detail-requested-by'', lit ''Requested by''),
     (lit ''detail-cwd'', lit ''Working directory'')]"

definition ui_de :: "ustr \<rightharpoonup> ustr" where
  "ui_de = map_of [
     (lit ''allow'', lit ''Erlauben''),
     (lit ''deny'', lit ''Verweigern''),
     (lit ''show-details'', lit ''Details anzeigen''),
     (lit ''hide-details'', lit ''Details ausblenden''),
     (lit ''auto-deny-in'', lit ''Automatische Ablehnung in %1 s''),
     (lit ''title-default'', lit ''Authentifizierung erforderlich''),
     (lit ''detail-action'', lit ''Aktion''),
     (lit ''detail-command'', lit ''Befehl''),
     (lit ''detail-pid'', lit ''PID''),
     (lit ''detail-requested-by'', lit ''Angefordert von''),
     (lit ''detail-cwd'', lit ''Arbeitsverzeichnis'')]"

definition ui_es :: "ustr \<rightharpoonup> ustr" where
  "ui_es = map_of [
     (lit ''allow'', lit ''Permitir''),
     (lit ''deny'', lit ''Denegar''),
     (lit ''show-details'', lit ''Mostrar detalles''),
     (lit ''hide-details'', lit ''Ocultar detalles''),
     (lit ''auto-deny-in'', lit ''Denegaci'' @ [243] @ lit ''n autom'' @ [225] @ lit ''tica en %1 s''),
     (lit ''title-default'', lit ''Autenticaci'' @ [243] @ lit ''n requerida''),
     (lit ''detail-action'', lit ''Acci'' @ [243] @ lit ''n''),
     (lit ''detail-command'', lit ''Comando''),
     (lit ''detail-pid'', lit ''PID''),
     (lit ''detail-requested-by'', lit ''Solicitado por''),
     (lit ''detail-cwd'', lit ''Directorio de trabajo'')]"

definition ui_fr :: "ustr \<rightharpoonup> ustr" where
  "ui_fr = map_of [
     (lit ''allow'', lit ''Autoriser''),
     (lit ''deny'', lit ''Refuser''),
     (lit ''show-details'', lit ''Afficher les d'' @ [233] @ lit ''tails''),
     (lit ''hide-details'', lit ''Masquer les d'' @ [233] @ lit ''tails''),
     (lit ''auto-deny-in'', lit ''Refus automatique dans %1 s''),
     (lit ''title-default'', lit ''Authentification requise''),
     (lit ''detail-action'', lit ''Action''),
     (lit ''detail-command'', lit ''Commande''),
     (lit ''detail-pid'', lit ''PID''),
     (lit ''detail-requested-by'', lit ''Demand'' @ [233] @ lit '' par''),
     (lit ''detail-cwd'', lit ''R'' @ [233] @ lit ''pertoire de travail'')]"

definition ui_it :: "ustr \<rightharpoonup> ustr" where
  "ui_it = map_of [
     (lit ''allow'', lit ''Consenti''),
     (lit ''deny'', lit ''Nega''),
     (lit ''show-details'', lit ''Mostra dettagli''),
     (lit ''hide-details'', lit ''Nascondi dettagli''),
     (lit ''auto-deny-in'', lit ''Negazione automatica fra %1 s''),
     (lit ''title-default'', lit ''Autenticazione richiesta''),
     (lit ''detail-action'', lit ''Azione''),
     (lit ''detail-command'', lit ''Comando''),
     (lit ''detail-pid'', lit ''PID''),
     (lit ''detail-requested-by'', lit ''Richiesto da''),
     (lit ''detail-cwd'', lit ''Directory di lavoro'')]"

definition ui_ja :: "ustr \<rightharpoonup> ustr" where
  "ui_ja = map_of [
     (lit ''allow'', [35377, 21487]),
     (lit ''deny'', [25298, 21542]),
     (lit ''show-details'', [35443, 32048, 12434, 34920, 31034]),
     (lit ''hide-details'', [35443, 32048, 12434, 38750, 34920, 31034]),
     (lit ''auto-deny-in'', lit ''%1 '' @ [31186, 24460, 12395, 33258, 21205, 30340, 12395, 25298, 21542, 12373, 12428, 12414, 12377]),
     (lit ''title-default'', [35469, 35388, 12364, 24517, 35201, 12391, 12377]),
     (lit ''detail-action'', [12450, 12463, 12471, 12519, 12531]),
     (lit ''detail-command'', [12467, 12510, 12531, 12489]),
     (lit ''detail-pid'', lit ''PID''),
     (lit ''detail-requested-by'', [35201, 27714, 20803]),
     (lit ''detail-cwd'', [20316, 26989, 12487, 12451, 12524, 12463, 12488, 12522])]"

definition ui_nl :: "ustr \<rightharpoonup> ustr" where
  "ui_nl = map_of [
     (lit ''allow'', lit ''Toestaan''),
     (lit ''deny'', lit ''Weigeren''),
     (lit ''show-details'', lit ''Details tonen''),
     (lit ''hide-details'', lit ''Details verbergen''),
     (lit ''auto-deny-in'', lit ''Automatisch weigeren over %1 s''),
     (lit ''title-default'', lit ''Verificatie vereist''),
     (lit ''detail-action'', lit ''Actie''),
     (lit ''detail-command'', lit ''Opdracht''),
     (lit ''detail-pid'', lit ''PID''),
     (lit ''detail-requested-by'', lit ''Aangevraagd door''),
     (lit ''detail-cwd'', lit ''Werkmap'')]"

definition ui_pl :: "ustr \<rightharpoonup> ustr" where
  "ui_pl = map_of [
     (lit ''allow'', lit ''Zezw'' @ [243] @ lit ''l''),
     (lit ''deny'', lit ''Odm'' @ [243] @ lit ''w''),
     (lit ''show-details'', lit ''Poka'' @ [380] @ lit '' szczeg'' @ [243, 322] @ lit ''y''),
     (lit ''hide-details'', lit ''Ukryj szczeg'' @ [243, 322] @ lit ''y''),
     (lit ''auto-deny-in'', lit ''Automatyczna odmowa za %1 s''),
     (lit ''title-default'', lit ''Wymagane uwierzytelnienie''),
     (lit ''detail-action'', lit ''Akcja''),
     (lit ''detail-command'', lit ''Polecenie''),
     (lit ''detail-pid'', lit ''PID''),
     (lit ''detail-requested-by'', [379, 261] @ lit ''da''),
     (lit ''detail-cwd'', lit ''Katalog roboczy'')]"

definition ui_pt :: "ustr \<rightharpoonup> ustr" where
  "ui_pt = map_of [
     (lit ''allow'', lit ''Permitir''),
     (lit ''deny'', lit ''Negar''),
     (lit ''show-details'', lit ''Mostrar detalhes''),
     (lit ''hide-details'', lit ''Ocultar detalhes''),
     (lit ''auto-deny-in'', lit ''Nega'' @ [231, 227] @ lit ''o autom'' @ [225] @ lit ''tica em %1 s''),
     (lit ''title-default'', lit ''Autentica'' @ [231, 227] @ lit ''o necess'' @ [225] @ lit ''ria''),
     (lit ''detail-action'', lit ''A'' @ [231, 227] @ lit ''o''),
     (lit ''detail-command'', lit ''Comando''),
     (lit ''detail-pid'', lit ''PID''),
     (lit ''detail-requested-by'', lit ''Solicitado por''),
     (lit ''detail-cwd'', lit ''Diret'' @ [243] @ lit ''rio de trabalho'')]"

definition ui_ru :: "ustr \<rightharpoonup> ustr" where
  "ui_ru = map_of [
     (lit ''allow'', [1056, 1072, 1079, 1088, 1077, 1096, 1080, 1090, 1100]),
     (lit ''deny'', [1047, 1072, 1087, 1088, 1077, 1090, 1080, 1090, 1100]),
     (lit ''show-details'', [1055, 1086, 1082, 1072, 1079, 1072, 1090, 1100] @ lit '' '' @ [1087, 1086, 1076, 1088, 1086, 1073, 1085, 1086, 1089, 1090, 1080]),
     (lit ''hide-details'', [1057, 1082, 1088, 1099, 1090, 1100] @ lit '' '' @ [1087, 1086, 1076, 1088, 1086, 1073, 1085, 1086, 1089, 1090, 1080]),
     (lit ''auto-deny-in'', [1040, 1074, 1090, 1086, 1084, 1072, 1090, 1080, 1095, 1077, 1089, 1082, 1080, 1081] @ lit '' '' @ [1086, 1090, 1082, 1072, 1079] @ lit '' '' @ [1095, 1077, 1088, 1077, 1079] @ lit '' %1 '' @ [1089]),
     (lit ''title-default'', [1058, 1088, 1077, 1073, 1091, 1077, 1090, 1089, 1103] @ lit '' '' @ [1072, 1091, 1090, 1077, 1085, 1090, 1080, 1092, 1080, 1082, 1072, 1094, 1080, 1103]),
     (lit ''detail-action'', [1044, 1077, 1081, 1089, 1090, 1074, 1080, 1077]),
     (lit ''detail-command'', [1050, 1086, 1084, 1072, 1085, 1076, 1072]),
     (lit ''detail-pid'', lit ''PID''),
     (lit ''detail-requested-by'', [1047, 1072, 1087, 1088, 1086, 1089, 1080, 1083]),
     (lit ''detail-cwd'', [1056, 1072, 1073, 1086, 1095, 1080, 1081] @ lit '' '' @ [1082, 1072, 1090, 1072, 1083, 1086, 1075])]"

definition ui_tr :: "ustr \<rightharpoonup> ustr" where
  "ui_tr = map_of [
     (lit ''allow'', [304] @ lit ''zin Ver''),
     (lit ''deny'', lit ''Reddet''),
     (lit ''show-details'', lit ''Ayr'' @ [305] @ lit ''nt'' @ [305] @ lit ''lar'' @ [305] @ lit '' g'' @ [246] @ lit ''ster''),
     (lit ''hide-details'', lit ''Ayr'' @ [305] @ lit ''nt'' @ [305] @ lit ''lar'' @ [305] @ lit '' gizle''),
     (lit ''auto-deny-in'', lit ''%1 sn sonra otomatik reddedilecek''),
     (lit ''title-default'', lit ''Kimlik Do'' @ [287] @ lit ''rulama Gerekli''),
     (lit ''detail-action'', [304, 351] @ lit ''lem''),
     (lit ''detail-command'', lit ''Komut''),
     (lit ''detail-pid'', lit ''PID''),
     (lit ''detail-requested-by'', [304] @ lit ''steyen kullan'' @ [305] @ lit ''c'' @ [305]),
     (lit ''detail-cwd'', [199] @ lit ''al'' @ [305, 351] @ lit ''ma dizini'')]"

definition ui_zh :: "ustr \<rightharpoonup> ustr" where
  "ui_zh = map_of [
     (lit ''allow'', [20801, 35768]),
     (lit ''deny'', [25298, 32477]),
     (lit ''show-details'', [26174, 31034, 35814, 24773]),
     (lit ''hide-details'', [38544, 34255, 35814, 24773]),
     (lit ''auto-deny-in'', lit ''%1 '' @ [31186, 21518, 33258, 21160, 25298, 32477]),
     (lit ''title-default'', [38656, 35201, 36523, 20221, 39564, 35777]),
     (lit ''detail-action'', [25805, 20316]),
     (lit ''detail-command'', [21629, 20196]),
     (lit ''detail-pid'', lit ''PID''),
     (lit ''detail-requested-by'', [35831, 27714, 32773]),
     (lit ''detail-cwd'', [24037, 20316, 30446, 24405])]"

definition remember_label_template :: "ustr \<Rightarrow> ustr" where
  "remember_label_template lang =
     unwrap_or (map_of [
        (lit ''de'', lit ''F'' @ [252] @ lit ''r %1 merken''),
        (lit ''es'', lit ''Recordar durante %1''),
        (lit ''fr'', lit ''M'' @ [233] @ lit ''moriser pendant %1''),
        (lit ''it'', lit ''Ricorda per %1''),
        (lit ''ja'', lit ''%1 '' @ [35352, 25014, 12377, 12427]),
        (lit ''nl'', lit ''Onthouden voor %1''),
        (lit ''pl'', lit ''Zapami'' @ [281] @ lit ''taj na %1''),
        (lit ''pt'', lit ''Lembrar por %1''),
        (lit ''ru'', [1047, 1072, 1087, 1086, 1084, 1085, 1080, 1090, 1100] @ lit '' '' @ [1085, 1072] @ lit '' %1''),
        (lit ''tr'', lit ''%1 boyunca hat'' @ [305] @ lit ''rla''),
        (lit ''zh'', [22312] @ lit '' %1 '' @ [20869, 35760, 20303])] lang)
       (lit ''Remember for %1'')"

definition localized :: "ustr \<Rightarrow> ustr \<rightharpoonup> ustr" where
  "localized lang =
     (if lang = lit ''de'' then ui_de
      else if lang = lit ''es'' then ui_es
      else if lang = lit ''fr'' then ui_fr
      else if lang = lit ''it'' then ui_it
      else if lang = lit ''ja'' then ui_ja
      else if lang = lit ''nl'' then ui_nl
      else if lang = lit ''pl'' then ui_pl
      else if lang = lit ''pt'' then ui_pt
      else if lang = lit ''ru'' then ui_ru
      else if lang = lit ''tr'' then ui_tr
      else if lang = lit ''zh'' then ui_zh
      else Map.empty)"

definition translate :: "ustr \<Rightarrow> ustr \<Rightarrow> ustr" where
  "translate key lang = unwrap_or (option_or (localized lang key) (ui_en key)) (lit ''?'')"

subsection \<open>Lemmas\<close>

text \<open>The keys the dialog uses.\<close>

definition ui_keys :: "ustr list" where
  "ui_keys = map lit
     [''allow'', ''deny'', ''show-details'', ''hide-details'', ''auto-deny-in'', ''title-default'',
      ''detail-action'', ''detail-command'', ''detail-pid'', ''detail-requested-by'', ''detail-cwd'']"

definition ui_langs :: "ustr list" where
  "ui_langs = map lit [''de'', ''es'', ''fr'', ''it'', ''ja'', ''nl'', ''pl'', ''pt'', ''ru'', ''tr'', ''zh'']"

text \<open>A complete table: exactly the keys, no marker among the texts, the number kept.\<close>

definition complete_table :: "(ustr \<rightharpoonup> ustr) \<Rightarrow> bool" where
  "complete_table t \<longleftrightarrow>
     dom t = set ui_keys \<and> lit ''?'' \<notin> ran t \<and>
     (\<exists>s. t (lit ''auto-deny-in'') = Some s \<and> contains (lit ''%1'') s)"

lemma ui_keys_distinct: "distinct ui_keys"
  by (simp add: ui_keys_def lit_eq_iff del: lit_simps)

lemma complete_tableI:
  assumes k: "map fst xs = ui_keys" and m: "lit ''?'' \<notin> set (map snd xs)" and n: "contains (lit ''%1'') (snd (xs ! 4))"
  shows "complete_table (map_of xs)"
proof -
  have d: "distinct (map fst xs)" using k ui_keys_distinct by simp
  have "length xs = length ui_keys" by (metis k length_map)
  then have len: "4 < length xs" by (simp add: ui_keys_def)
  have "fst (xs ! 4) = map fst xs ! 4" using len by simp
  also have "\<dots> = lit ''auto-deny-in''" unfolding k by (simp add: ui_keys_def del: lit_simps)
  finally have "(lit ''auto-deny-in'', snd (xs ! 4)) \<in> set xs" using len by (metis nth_mem prod.collapse)
  with d have "map_of xs (lit ''auto-deny-in'') = Some (snd (xs ! 4))" by simp
  moreover have "dom (map_of xs) = set ui_keys" using k by (simp add: dom_map_of_conv_image_fst flip: k)
  moreover have "lit ''?'' \<notin> ran (map_of xs)"
    using m map_of_SomeD by (force simp: ran_def simp del: lit_simps)
  ultimately show ?thesis using n by (simp add: complete_table_def del: lit_simps)
qed

lemma complete_tables:
  "complete_table ui_en" "complete_table ui_de" "complete_table ui_es" "complete_table ui_fr"
  "complete_table ui_it" "complete_table ui_ja" "complete_table ui_nl" "complete_table ui_pl"
  "complete_table ui_pt" "complete_table ui_ru" "complete_table ui_tr" "complete_table ui_zh"
  unfolding ui_en_def ui_de_def ui_es_def ui_fr_def ui_it_def ui_ja_def ui_nl_def ui_pl_def
    ui_pt_def ui_ru_def ui_tr_def ui_zh_def
  by (rule complete_tableI; simp add: ui_keys_def starts_with_def)+

lemma localized_complete: "lang \<in> set ui_langs \<Longrightarrow> complete_table (localized lang)"
  by (auto simp: ui_langs_def localized_def lit_eq_iff complete_tables simp del: lit_simps)

lemma localized_other: "lang \<notin> set ui_langs \<Longrightarrow> localized lang = Map.empty"
  by (simp add: ui_langs_def localized_def del: lit_simps)

lemma remember_template_counts: "contains (lit ''%1'') (remember_label_template lang)"
  by (simp add: remember_label_template_def starts_with_def)

subsection \<open>Properties\<close>

text \<open>No string of the dialog is ever missing: in every language a known key has a text and only an
  unknown key shows the marker; each of the eleven translated languages defines exactly the
  keys English defines; and the strings that carry a number keep its placeholder everywhere.\<close>

theorem translations_complete:
  "(translate key lang = lit ''?'' \<longleftrightarrow> key \<notin> set ui_keys) \<and>
   dom (localized lang) = (if lang \<in> set ui_langs then dom ui_en else {}) \<and>
   contains (lit ''%1'') (translate (lit ''auto-deny-in'') lang) \<and> contains (lit ''%1'') (remember_label_template lang)"
proof -
  have en: "dom ui_en = set ui_keys" "lit ''?'' \<notin> ran ui_en"
    "\<exists>s. ui_en (lit ''auto-deny-in'') = Some s \<and> contains (lit ''%1'') s"
    using complete_tables(1) unfolding complete_table_def by blast+
  show ?thesis
  proof (cases "lang \<in> set ui_langs")
    case True
    then have l: "dom (localized lang) = set ui_keys" "lit ''?'' \<notin> ran (localized lang)"
      "\<exists>s. localized lang (lit ''auto-deny-in'') = Some s \<and> contains (lit ''%1'') s"
      using localized_complete unfolding complete_table_def by blast+
    have "ui_en key = None \<longleftrightarrow> localized lang key = None" using l(1) en(1) by (metis domIff)
    then have "translate key lang = lit ''?'' \<longleftrightarrow> key \<notin> set ui_keys"
      unfolding l(1) [symmetric] domIff using l(2)
      by (cases "localized lang key") (auto simp: translate_def ran_def simp del: lit_simps)
    moreover have "contains (lit ''%1'') (translate (lit ''auto-deny-in'') lang)"
      using l(3) by (auto simp: translate_def simp del: lit_simps)
    ultimately show ?thesis using True l(1) en(1) remember_template_counts by (simp del: lit_simps)
  next
    case False
    note l = localized_other [OF False]
    have "translate key lang = lit ''?'' \<longleftrightarrow> key \<notin> set ui_keys"
      unfolding en(1) [symmetric] domIff using l en(2)
      by (cases "ui_en key") (auto simp: translate_def ran_def simp del: lit_simps)
    moreover have "contains (lit ''%1'') (translate (lit ''auto-deny-in'') lang)"
      using l en(3) by (auto simp: translate_def simp del: lit_simps)
    ultimately show ?thesis using False l remember_template_counts by (simp del: lit_simps)
  qed
qed

end
