(* ===== verification/Dialog.thy ===== *)
theory Dialog
  imports Cli F64 Ui_I18n Commands Wire_Verdict
begin

text \<open>
  The confirmation dialog (\<open>sentinel-shared/src/cli.rs\<close>, \<open>sentinel-helper-kde/src/bridge.rs\<close>
  and \<open>main.rs\<close>): its command-line arguments, the controller the interface drives, the
  verdict it ends with and the sound cue. The toolkit is a parameter: a run is the sequence
  of events it delivers. Times are \<open>i32\<close> milliseconds with their wrap-around and
  saturation; the progress bar and the countdown go through \<open>f64\<close> (\<open>F64\<close>).
\<close>

subsection \<open>The controller\<close>

definition i32_max :: int where
  "i32_max = 2147483647"

text \<open>The value an \<open>i32\<close> operation has in a build without overflow checks.\<close>

definition i32_wrap :: "int \<Rightarrow> int" where
  "i32_wrap x = (x + 2 ^ 31) mod 2 ^ 32 - 2 ^ 31"

definition TICK_MS :: int where
  "TICK_MS = 100"

definition clip :: "ustr \<Rightarrow> nat \<Rightarrow> ustr" where
  "clip s limit = (if length s \<le> limit then s else take limit s @ [8230])"

text \<open>\<open>str::replace\<close> for a pattern of two characters.\<close>

fun replace2 :: "uchar \<Rightarrow> uchar \<Rightarrow> ustr \<Rightarrow> ustr \<Rightarrow> ustr" where
  "replace2 p1 p2 by [] = []"
| "replace2 p1 p2 by [c] = [c]"
| "replace2 p1 p2 by (c # d # cs) =
     (if c = p1 \<and> d = p2 then by @ replace2 p1 p2 by cs else c # replace2 p1 p2 by (d # cs))"

record dialog =
  dc_title :: ustr
  dc_message :: ustr
  dc_secondary :: ustr
  dc_process_exe :: ustr
  dc_process_cmdline :: ustr
  dc_process_pid :: int
  dc_process_cwd :: ustr
  dc_requesting_user :: ustr
  dc_action :: ustr
  dc_icon_name :: ustr
  dc_has_details :: bool
  dc_allow_first :: bool
  dc_timeout_secs :: int
  dc_min_time_ms :: int
  dc_remaining_secs :: int
  dc_elapsed_ms :: int
  dc_progress_fraction :: rat
  dc_allow_enabled :: bool
  dc_show_details :: bool
  dc_remember_offered :: bool
  dc_remember_label :: ustr
  dc_remember_checked :: bool

definition i32_of_u64 :: "nat \<Rightarrow> int" where
  "i32_of_u64 n = (if int n \<le> i32_max then int n else i32_max)"

definition remember_label :: "ustr \<Rightarrow> nat \<Rightarrow> ustr" where
  "remember_label lang secs =
     (let dur = (if secs \<ge> 60 then show_nat (secs div 60) @ lit '' min'' else show_nat secs @ lit '' s'')
      in replace2 37 49 dur (remember_label_template lang))"

text \<open>\<open>Default\<close>: the initial state; \<open>coin\<close> is the random button order.\<close>

definition dialog_default :: "cli_args \<Rightarrow> bool \<Rightarrow> ustr \<Rightarrow> dialog" where
  "dialog_default a coin lang =
     \<lparr>dc_title = clip (ca_title a) 1024,
      dc_message = clip (ca_message a) 2048,
      dc_secondary = clip (ca_secondary a) 1024,
      dc_process_exe = clip (unwrap_or (ca_process_exe a) []) 512,
      dc_process_cmdline = clip (unwrap_or (ca_process_cmdline a) []) 4096,
      dc_process_pid = unwrap_or (ca_process_pid a) 0,
      dc_process_cwd = clip (unwrap_or (ca_process_cwd a) []) 4096,
      dc_requesting_user = clip (unwrap_or (ca_requesting_user a) []) 256,
      dc_action = clip (unwrap_or (ca_action a) []) 1024,
      dc_icon_name = unwrap_or (resolve_icon_name (ca_process_exe a)) [],
      dc_has_details =
        (ca_process_cmdline a \<noteq> None \<or> ca_process_pid a \<noteq> None \<or> ca_process_cwd a \<noteq> None \<or>
         ca_requesting_user a \<noteq> None \<or> ca_action a \<noteq> None),
      dc_allow_first = (if ca_randomize a then coin else True),
      dc_timeout_secs = i32_of_u64 (ca_timeout a),
      dc_min_time_ms = i32_of_u64 (ca_min_time a),
      dc_remaining_secs = i32_of_u64 (ca_timeout a),
      dc_elapsed_ms = 0,
      dc_progress_fraction = 0,
      dc_allow_enabled = (ca_min_time a = 0),
      dc_show_details = False,
      dc_remember_offered = (0 < ca_remember_secs a),
      dc_remember_label = (if 0 < ca_remember_secs a then remember_label lang (ca_remember_secs a) else []),
      dc_remember_checked = False\<rparr>"

definition saturating_mul_1000 :: "int \<Rightarrow> int" where
  "saturating_mul_1000 t = max (- (2 ^ 31)) (min (t * 1000) i32_max)"

text \<open>The result of an event: the dialog goes on, or the process ends with a verdict.\<close>

definition finish_outcome :: "outcome \<Rightarrow> verdict" where
  "finish_outcome v = \<lparr>v_outcome = v, v_remember = False\<rparr>"

definition tick :: "dialog \<Rightarrow> dialog + verdict" where
  "tick d =
     (let elapsed = i32_wrap (dc_elapsed_ms d + TICK_MS);
          d1 = d\<lparr>dc_elapsed_ms := elapsed\<rparr>;
          d2 = (if \<not> dc_allow_enabled d \<and> elapsed \<ge> dc_min_time_ms d then d1\<lparr>dc_allow_enabled := True\<rparr> else d1)
      in if dc_timeout_secs d > 0 then
           (let total = saturating_mul_1000 (dc_timeout_secs d);
                frac = f64_clamp01 (f64_div elapsed total);
                remaining = f64_as_i32 (of_int \<lceil>f64_div (max (i32_wrap (total - elapsed)) 0) 1000\<rceil>);
                d3 = d2\<lparr>dc_progress_fraction := frac, dc_remaining_secs := remaining\<rparr>
            in if elapsed \<ge> total then Inr (finish_outcome Timeout) else Inl d3)
         else Inl d2)"

definition allow :: "dialog \<Rightarrow> dialog + verdict" where
  "allow d =
     (if dc_allow_enabled d
      then Inr \<lparr>v_outcome = Allow, v_remember = (dc_remember_offered d \<and> dc_remember_checked d)\<rparr>
      else Inl d)"

definition deny :: "dialog \<Rightarrow> dialog + verdict" where
  "deny d = Inr (finish_outcome Deny)"

definition toggle_details :: "dialog \<Rightarrow> dialog + verdict" where
  "toggle_details d = Inl (d\<lparr>dc_show_details := \<not> dc_show_details d\<rparr>)"

subsection \<open>A run\<close>

text \<open>\<open>SetRemember\<close> is the interface writing the controller's checkbox property.\<close>

datatype dialog_event = Tick | PressAllow | PressDeny | ToggleDetails | SetRemember bool

fun dialog_step :: "dialog \<Rightarrow> dialog_event \<Rightarrow> dialog + verdict" where
  "dialog_step d Tick = tick d"
| "dialog_step d PressAllow = allow d"
| "dialog_step d PressDeny = deny d"
| "dialog_step d ToggleDetails = toggle_details d"
| "dialog_step d (SetRemember b) = Inl (d\<lparr>dc_remember_checked := b\<rparr>)"

fun dialog_run :: "dialog \<Rightarrow> dialog_event list \<Rightarrow> dialog + verdict" where
  "dialog_run d [] = Inl d"
| "dialog_run d (e # es) = (case dialog_step d e of Inr v \<Rightarrow> Inr v | Inl d' \<Rightarrow> dialog_run d' es)"

definition finish_deny :: verdict where
  "finish_deny = finish_outcome Deny"

text \<open>The text the interface shows for a key.\<close>

definition dialog_translate :: "(string \<Rightarrow> ustr option) \<Rightarrow> ustr \<Rightarrow> ustr" where
  "dialog_translate env key = translate key (ui_lang env)"

text \<open>\<open>finish\<close>: the line on standard output and the exit code.\<close>

definition finish :: "verdict \<Rightarrow> byte list \<times> int" where
  "finish v = (as_bytes (verdict_display v @ [10]), exit_code (v_outcome v))"

subsection \<open>The sound cue\<close>

definition sound_dirs :: "ustr list" where
  "sound_dirs = map lit
     [''/usr/share/sounds/freedesktop/stereo'', ''/usr/local/share/sounds/freedesktop/stereo'',
      ''/usr/share/sounds/Oxygen/stereo'']"

definition sound_candidates :: "ustr \<Rightarrow> ustr list" where
  "sound_candidates name =
     concat (map (\<lambda>dir. map (\<lambda>ext. dir @ lit ''/'' @ name @ lit ''.'' @ ext) (map lit [''oga'', ''ogg'', ''wav''])) sound_dirs)"

definition resolve_sound_file :: "(ustr \<Rightarrow> bool) \<Rightarrow> ustr \<Rightarrow> ustr option" where
  "resolve_sound_file is_file name =
     (if starts_with [47] name then (if is_file name then Some name else None)
      else find is_file (sound_candidates name))"

text \<open>\<open>spawn_detached\<close>: the absolute path first, then the bare name; \<open>spawn\<close> says which start.\<close>

definition spawn_detached :: "(ustr \<Rightarrow> ustr list \<Rightarrow> bool) \<Rightarrow> ustr \<Rightarrow> ustr list \<Rightarrow> ustr option" where
  "spawn_detached spawn bin args = find (\<lambda>prog. spawn prog args) [lit ''/usr/bin/'' @ bin, bin]"

definition players :: "ustr \<Rightarrow> (ustr \<times> ustr list) list" where
  "players file =
     [(lit ''pw-play'', [file]), (lit ''paplay'', [file]),
      (lit ''ffplay'', map lit [''-nodisp'', ''-autoexit'', ''-loglevel'', ''quiet''] @ [file]),
      (lit ''aplay'', [lit ''-q'', file])]"

fun first_player :: "(ustr \<Rightarrow> ustr list \<Rightarrow> bool) \<Rightarrow> (ustr \<times> ustr list) list \<Rightarrow> (ustr \<times> ustr list) option" where
  "first_player spawn [] = None"
| "first_player spawn ((p, as) # ps) =
     (case spawn_detached spawn p as of Some prog \<Rightarrow> Some (prog, as) | None \<Rightarrow> first_player spawn ps)"

text \<open>The program that plays the cue, if any.\<close>

definition play_sound ::
  "(ustr \<Rightarrow> ustr list \<Rightarrow> bool) \<Rightarrow> (ustr \<Rightarrow> bool) \<Rightarrow> ustr \<Rightarrow> (ustr \<times> ustr list) option" where
  "play_sound spawn is_file name =
     (if name = [] then None
      else
        (case spawn_detached spawn (lit ''canberra-gtk-play'') [lit ''-i'', name] of
           Some prog \<Rightarrow> Some (prog, [lit ''-i'', name])
         | None \<Rightarrow>
             (case resolve_sound_file is_file name of
                None \<Rightarrow> None
              | Some file \<Rightarrow> first_player spawn (players file))))"

subsection \<open>The process\<close>

text \<open>
  \<open>main\<close>: the cue, the variables set for the toolkit, the scene loaded and the verdict. Without
  a display, without its scene, or when the event loop ends without a verdict, the answer is
  Deny. \<open>env_os\<close> is the process environment (bytes;
  \<open>helper_env_var\<close> is \<open>std::env::var\<close>, which wants UTF-8), \<open>qml_ok\<close> says whether the scene loads and
  \<open>evs\<close> are the events of the loop.
\<close>

record helper_proc =
  hp_sound :: "(ustr \<times> ustr list) option"
  hp_set_vars :: "(ustr \<times> ustr) list"
  hp_entry :: "ustr option"
  hp_verdict :: verdict

definition helper_env_var :: "(string \<Rightarrow> byte list option) \<Rightarrow> string \<Rightarrow> ustr option" where
  "helper_env_var env_os name = Option.bind (env_os name) from_utf8"

definition qt_vars :: "render_mode \<Rightarrow> (string \<Rightarrow> byte list option) \<Rightarrow> (ustr \<times> ustr) list" where
  "qt_vars mode env_os =
     (if mode = LayerShell then [(lit ''QT_WAYLAND_SHELL_INTEGRATION'', lit ''layer-shell'')] else []) @
     (if env_os ''QT_LOGGING_RULES'' = None
      then [(lit ''QT_LOGGING_RULES'', lit ''kf.iconthemes.warning=false'')] else []) @
     (if env_os ''QSG_RENDER_LOOP'' = None then [(lit ''QSG_RENDER_LOOP'', lit ''basic'')] else [])"

definition qml_entry :: "render_mode \<Rightarrow> ustr" where
  "qml_entry mode =
     lit ''qrc:/qt/qml/org/sentinel/kde/qml/'' @
     (case mode of LayerShell \<Rightarrow> lit ''Main.qml'' | Windowed \<Rightarrow> lit ''Windowed.qml'')"

definition helper_main ::
  "(string \<Rightarrow> byte list option) \<Rightarrow> (ustr \<Rightarrow> ustr list \<Rightarrow> bool) \<Rightarrow> (ustr \<Rightarrow> bool) \<Rightarrow> bool \<Rightarrow> cli_args \<Rightarrow> bool \<Rightarrow>
   dialog_event list \<Rightarrow> helper_proc" where
  "helper_main env_os spawn is_file qml_ok a coin evs =
     (let mode = effective_render_mode a (helper_env_var env_os ''XDG_CURRENT_DESKTOP'') in
      if env_os ''WAYLAND_DISPLAY'' = None
      then \<lparr>hp_sound = None, hp_set_vars = [], hp_entry = None, hp_verdict = finish_deny\<rparr>
      else
        \<lparr>hp_sound = play_sound spawn is_file (ca_sound_name a),
         hp_set_vars = qt_vars mode env_os,
         hp_entry = Some (qml_entry mode),
         hp_verdict =
           (if \<not> qml_ok then finish_deny
            else (case dialog_run (dialog_default a coin (ui_lang (helper_env_var env_os))) evs of
                    Inr v \<Rightarrow> v
                  | Inl _ \<Rightarrow> finish_deny))\<rparr>)"

subsection \<open>The invariant of a run\<close>

definition ticks :: "dialog_event list \<Rightarrow> nat" where
  "ticks evs = length (filter (\<lambda>e. e = Tick) evs)"

fun checked :: "bool \<Rightarrow> dialog_event list \<Rightarrow> bool" where
  "checked b [] = b"
| "checked b (SetRemember c # es) = checked c es"
| "checked b (_ # es) = checked b es"

lemma ticks_simps [simp]:
  "ticks [] = 0" "ticks (Tick # es) = Suc (ticks es)" "e \<noteq> Tick \<Longrightarrow> ticks (e # es) = ticks es"
  by (simp_all add: ticks_def)

text \<open>What the controller knows after \<open>n\<close> ticks with the checkbox at \<open>b\<close>.\<close>

definition dialog_inv :: "cli_args \<Rightarrow> nat \<Rightarrow> bool \<Rightarrow> dialog \<Rightarrow> bool" where
  "dialog_inv a n b d \<longleftrightarrow>
     dc_elapsed_ms d = 100 * int n \<and>
     dc_min_time_ms d = i32_of_u64 (ca_min_time a) \<and>
     dc_timeout_secs d = i32_of_u64 (ca_timeout a) \<and>
     (dc_allow_enabled d \<longleftrightarrow> i32_of_u64 (ca_min_time a) \<le> 100 * int n) \<and>
     dc_remember_offered d = (0 < ca_remember_secs a) \<and>
     dc_remember_checked d = b \<and>
     (0 < ca_timeout a \<longrightarrow> 100 * int n < saturating_mul_1000 (i32_of_u64 (ca_timeout a)))"

lemma i32_of_u64_simps [simp]: "0 \<le> i32_of_u64 n" "0 < i32_of_u64 n \<longleftrightarrow> 0 < n" "i32_of_u64 n \<le> 0 \<longleftrightarrow> n = 0"
  by (auto simp: i32_of_u64_def i32_max_def)

lemma clip_length: "length (clip s m) \<le> m + 1"
  by (simp add: clip_def)

lemma i32_wrap_id: "- (2 ^ 31) \<le> x \<Longrightarrow> x < 2 ^ 31 \<Longrightarrow> i32_wrap x = x"
  by (simp add: i32_wrap_def)

lemma saturating_mul_1000_pos: "0 < t \<Longrightarrow> 0 < saturating_mul_1000 t"
  by (simp add: saturating_mul_1000_def i32_max_def less_max_iff_disj)

lemma dialog_inv_default: "dialog_inv a 0 False (dialog_default a coin lang)"
  by (auto simp: dialog_inv_def dialog_default_def saturating_mul_1000_pos)

lemma tick_ends:
  "tick d = Inr v \<longleftrightarrow>
     0 < dc_timeout_secs d \<and> saturating_mul_1000 (dc_timeout_secs d) \<le> i32_wrap (dc_elapsed_ms d + TICK_MS) \<and>
     v = finish_outcome Timeout"
  by (auto simp: tick_def Let_def)

lemma tick_goes_on:
  assumes "tick d = Inl d'"
  shows "dc_elapsed_ms d' = i32_wrap (dc_elapsed_ms d + TICK_MS)"
    and "dc_min_time_ms d' = dc_min_time_ms d" "dc_timeout_secs d' = dc_timeout_secs d"
    and "dc_allow_enabled d' = (dc_allow_enabled d \<or> dc_min_time_ms d \<le> i32_wrap (dc_elapsed_ms d + TICK_MS))"
    and "dc_remember_offered d' = dc_remember_offered d" "dc_remember_checked d' = dc_remember_checked d"
  using assms by (auto simp: tick_def Let_def split: if_splits)

lemma dialog_inv_tick:
  assumes inv: "dialog_inv a n b d" and bound: "100 * int (Suc n) < 2 ^ 31"
  shows "case dialog_step d Tick of
      Inl d' \<Rightarrow> dialog_inv a (Suc n) b d'
    | Inr v \<Rightarrow> v = finish_outcome Timeout \<and> 0 < ca_timeout a \<and>
        saturating_mul_1000 (i32_of_u64 (ca_timeout a)) \<le> 100 * int (Suc n)"
proof -
  have e: "i32_wrap (dc_elapsed_ms d + TICK_MS) = 100 * int (Suc n)"
    using inv bound by (simp add: dialog_inv_def TICK_MS_def i32_wrap_id)
  have enabled: "dc_allow_enabled d \<longrightarrow> i32_of_u64 (ca_min_time a) \<le> 100 * int (Suc n)"
    using inv by (simp add: dialog_inv_def)
  show ?thesis
  proof (cases "tick d")
    case (Inr v)
    then have "0 < dc_timeout_secs d" "saturating_mul_1000 (dc_timeout_secs d) \<le> 100 * int (Suc n)"
      "v = finish_outcome Timeout"
      by (simp_all add: tick_ends e del: of_nat_Suc)
    moreover have "dc_timeout_secs d = i32_of_u64 (ca_timeout a)" using inv by (simp add: dialog_inv_def)
    ultimately show ?thesis using Inr by (simp del: of_nat_Suc)
  next
    case (Inl d')
    then have "\<not> (0 < dc_timeout_secs d \<and> saturating_mul_1000 (dc_timeout_secs d) \<le> 100 * int (Suc n))"
      using tick_ends [of d "finish_outcome Timeout"] by (simp add: e del: of_nat_Suc)
    with inv enabled have "dialog_inv a (Suc n) b d'"
      unfolding dialog_inv_def tick_goes_on [OF Inl] e by (auto simp del: of_nat_Suc)
    with Inl show ?thesis by simp
  qed
qed

lemma dialog_inv_other:
  assumes "dialog_inv a n b d"
  shows "dialog_inv a n b (d\<lparr>dc_show_details := x\<rparr>)" "dialog_inv a n c (d\<lparr>dc_remember_checked := c\<rparr>)"
  using assms by (simp_all add: dialog_inv_def)

lemma dialog_run_allow:
  assumes "dialog_inv a n b d" "100 * int (n + length evs) < 2 ^ 31" "dialog_run d evs = Inr v" "v_outcome v = Allow"
  shows "\<exists>pre post. evs = pre @ PressAllow # post \<and> PressDeny \<notin> set pre \<and> i32_of_u64 (ca_min_time a) \<le> 100 * int (n + ticks pre) \<and>
     v_remember v = (0 < ca_remember_secs a \<and> checked b pre) \<and>
     (0 < ca_timeout a \<longrightarrow> 100 * int (n + ticks pre) < saturating_mul_1000 (i32_of_u64 (ca_timeout a)))"
  using assms
proof (induction evs arbitrary: n b d)
  case (Cons e es)
  have lift: ?case if "dialog_inv a n' b' d'" "dialog_run d' es = Inr v" "n' + length es \<le> n + length (e # es)"
      "\<And>pre. n + ticks (e # pre) = n' + ticks pre" "\<And>pre. checked b (e # pre) = checked b' pre"
      "e \<noteq> PressDeny" for n' b' d'
  proof -
    have "100 * int (n' + length es) < 2 ^ 31" using that(3) Cons.prems(2) by simp
    from Cons.IH [OF that(1) this that(2) Cons.prems(4)] obtain pre post where
      p: "es = pre @ PressAllow # post \<and> PressDeny \<notin> set pre \<and>
        i32_of_u64 (ca_min_time a) \<le> 100 * int (n' + ticks pre) \<and>
        v_remember v = (0 < ca_remember_secs a \<and> checked b' pre) \<and>
        (0 < ca_timeout a \<longrightarrow> 100 * int (n' + ticks pre) < saturating_mul_1000 (i32_of_u64 (ca_timeout a)))"
      by (elim exE)
    from p that(6) have "e # es = (e # pre) @ PressAllow # post" "PressDeny \<notin> set (e # pre)" by simp_all
    with p have "e # es = (e # pre) @ PressAllow # post \<and> PressDeny \<notin> set (e # pre) \<and>
        i32_of_u64 (ca_min_time a) \<le> 100 * int (n + ticks (e # pre)) \<and>
        v_remember v = (0 < ca_remember_secs a \<and> checked b (e # pre)) \<and>
        (0 < ca_timeout a \<longrightarrow> 100 * int (n + ticks (e # pre)) < saturating_mul_1000 (i32_of_u64 (ca_timeout a)))"
      unfolding that(4,5) by (elim conjE) (intro conjI; assumption)
    then show ?thesis by (intro exI)
  qed
  show ?case
  proof (cases e)
    case Tick
    have "100 * int (Suc n) < 2 ^ 31" using Cons.prems(2) by simp
    note t = dialog_inv_tick [OF Cons.prems(1) this]
    show ?thesis
    proof (cases "dialog_step d Tick")
      case (Inr w)
      with Tick Cons.prems(3) t have "v = finish_outcome Timeout" by (simp del: dialog_step.simps)
      with Cons.prems(4) show ?thesis by (simp add: finish_outcome_def)
    next
      case (Inl d')
      with t have "dialog_inv a (Suc n) b d'" by (simp del: dialog_step.simps)
      moreover from Inl Tick Cons.prems(3) have "dialog_run d' es = Inr v" by (simp del: dialog_step.simps)
      ultimately show ?thesis by (rule lift) (simp_all add: Tick)
    qed
  next
    case PressAllow
    show ?thesis
    proof (cases "dc_allow_enabled d")
      case True
      with PressAllow Cons.prems(3) Cons.prems(1) show ?thesis
        by (intro exI [of _ "[]"] exI [of _ es]) (auto simp: allow_def dialog_inv_def)
    next
      case False
      with PressAllow Cons.prems(1,3) show ?thesis by (intro lift [of n b d]) (auto simp: allow_def)
    qed
  next
    case PressDeny
    with Cons.prems(3,4) show ?thesis by (auto simp: deny_def finish_outcome_def)
  next
    case ToggleDetails
    with Cons.prems(1,3) dialog_inv_other(1) show ?thesis
      by (intro lift [of n b "d\<lparr>dc_show_details := \<not> dc_show_details d\<rparr>"]) (auto simp: toggle_details_def)
  next
    case (SetRemember c)
    with Cons.prems(1,3) dialog_inv_other(2) show ?thesis
      by (intro lift [of n c "d\<lparr>dc_remember_checked := c\<rparr>"]) auto
  qed
qed simp

lemma dialog_run_timeout:
  assumes "dialog_inv a n b d" "100 * int (n + length evs) < 2 ^ 31" "0 < ca_timeout a"
    "PressAllow \<notin> set evs" "PressDeny \<notin> set evs"
  shows "dialog_run d evs = Inr (finish_outcome Timeout) \<longleftrightarrow>
     saturating_mul_1000 (i32_of_u64 (ca_timeout a)) \<le> 100 * int (n + ticks evs)"
  using assms
proof (induction evs arbitrary: n b d)
  case Nil
  then show ?case by (simp add: dialog_inv_def)
next
  case (Cons e es)
  show ?case
  proof (cases e)
    case Tick
    have "100 * int (Suc n) < 2 ^ 31" using Cons.prems(2) by simp
    note t = dialog_inv_tick [OF Cons.prems(1) this]
    show ?thesis
    proof (cases "dialog_step d Tick")
      case (Inr v)
      with t Tick show ?thesis by (simp del: dialog_step.simps)
    next
      case (Inl d')
      have "100 * int (Suc n + length es) < 2 ^ 31" using Cons.prems(2) by simp
      with Inl t Tick Cons.IH [of "Suc n" b d'] Cons.prems(3,4,5) show ?thesis
        by (simp del: dialog_step.simps)
    qed
  next
    case ToggleDetails
    then show ?thesis
      using Cons.IH [OF dialog_inv_other(1) [OF Cons.prems(1)]] Cons.prems by (simp add: toggle_details_def)
  next
    case (SetRemember c)
    then show ?thesis
      using Cons.IH [OF dialog_inv_other(2) [OF Cons.prems(1)]] Cons.prems by simp
  qed (use Cons.prems in auto)
qed

text \<open>What the countdown and the bar show after \<open>n\<close> ticks.\<close>

definition display_inv :: "cli_args \<Rightarrow> nat \<Rightarrow> dialog \<Rightarrow> bool" where
  "display_inv a n d \<longleftrightarrow>
     (let total = saturating_mul_1000 (i32_of_u64 (ca_timeout a))
      in 0 < n \<and> 0 < ca_timeout a \<longrightarrow>
           dc_remaining_secs d = (total - 100 * int n + 999) div 1000 \<and>
           dc_progress_fraction d = f64_div (100 * int n) total)"

lemma saturating_mul_1000_bound: "saturating_mul_1000 t < 2 ^ 31"
  by (simp add: saturating_mul_1000_def i32_max_def)

lemma f64_as_i32_of_int: "- (2 ^ 31) \<le> k \<Longrightarrow> k < 2 ^ 31 \<Longrightarrow> f64_as_i32 (of_int k) = k"
  by (simp add: f64_as_i32_def)

lemma tick_display:
  assumes "dialog_inv a n b d" "100 * int (Suc n) < 2 ^ 31" "tick d = Inl d'"
  shows "display_inv a (Suc n) d'"
proof -
  define total where "total = saturating_mul_1000 (i32_of_u64 (ca_timeout a))"
  have e: "i32_wrap (dc_elapsed_ms d + TICK_MS) = 100 * int (Suc n)" and t: "dc_timeout_secs d = i32_of_u64 (ca_timeout a)"
    using assms(1,2) by (simp_all add: dialog_inv_def TICK_MS_def i32_wrap_id)
  show ?thesis
  proof (cases "0 < ca_timeout a")
    case True
    have lt: "100 * int (Suc n) < total"
      using assms(3) tick_ends [of d "finish_outcome Timeout"] True unfolding e t total_def by auto
    have b: "total < 2 ^ 31" unfolding total_def by (rule saturating_mul_1000_bound)
    have w: "max (i32_wrap (total - 100 * int (Suc n))) 0 = total - 100 * int (Suc n)"
      using lt b by (simp add: i32_wrap_id del: of_nat_Suc)
    have "f64_clamp01 (f64_div (100 * int (Suc n)) total) = f64_div (100 * int (Suc n)) total"
      using f64_div_fraction(1,2) [of "100 * int (Suc n)" total] lt b by (simp add: f64_clamp01_def del: of_nat_Suc)
    moreover have "\<lceil>f64_div (total - 100 * int (Suc n)) 1000\<rceil> = (total - 100 * int (Suc n) + 999) div 1000"
      using lt b by (intro ceiling_f64_div_1000) linarith+
    moreover have "f64_as_i32 (of_int ((total - 100 * int (Suc n) + 999) div 1000)) = (total - 100 * int (Suc n) + 999) div 1000"
      using lt b by (intro f64_as_i32_of_int) linarith+
    ultimately show ?thesis
      using assms(3) True lt unfolding tick_def e t total_def [symmetric] Let_def display_inv_def w
      by (auto simp del: of_nat_Suc split: if_splits)
  qed (simp add: display_inv_def)
qed

lemma dialog_run_inv:
  assumes "dialog_inv a n b d" "display_inv a n d" "100 * int (n + length evs) < 2 ^ 31" "dialog_run d evs = Inl d'"
  shows "dialog_inv a (n + ticks evs) (checked b evs) d' \<and> display_inv a (n + ticks evs) d'"
  using assms
proof (induction evs arbitrary: n b d)
  case (Cons e es)
  from Cons.prems(4) obtain d1 where d1: "dialog_step d e = Inl d1" "dialog_run d1 es = Inl d'"
    by (auto split: sum.splits)
  have "dialog_inv a (n + ticks [e]) (checked b [e]) d1 \<and> display_inv a (n + ticks [e]) d1"
  proof (cases "e = Tick")
    case True
    have "100 * int (Suc n) < 2 ^ 31" using Cons.prems(3) by simp
    with True d1(1) dialog_inv_tick [OF Cons.prems(1) this] tick_display [OF Cons.prems(1) this] show ?thesis by simp
  next
    case False
    with d1(1) Cons.prems(1,2) show ?thesis
      by (cases e) (auto simp: allow_def deny_def toggle_details_def dialog_inv_other display_inv_def split: if_splits)
  qed
  moreover have "ticks (e # es) = ticks [e] + ticks es" "checked b (e # es) = checked (checked b [e]) es"
    by (cases e; simp)+
  moreover have "100 * int (n + ticks [e] + length es) < 2 ^ 31" using Cons.prems(3) by (simp add: ticks_def)
  ultimately show ?case
    using Cons.IH [of "n + ticks [e]" "checked b [e]" d1] d1(2) by (simp only: add.assoc)
qed simp

lemma dialog_run_untimed:
  assumes "dc_timeout_secs d = 0" "PressAllow \<notin> set evs" "PressDeny \<notin> set evs"
  shows "\<exists>d'. dialog_run d evs = Inl d'"
  using assms
proof (induction evs arbitrary: d)
  case (Cons e es)
  then obtain d' where "dialog_step d e = Inl d'" "dc_timeout_secs d' = 0"
    by (cases e) (auto simp: tick_def Let_def toggle_details_def split: if_splits)
  with Cons show ?case by simp
qed simp

subsection \<open>Properties\<close>

lemma helper_main_Allow:
  "v_outcome (hp_verdict (helper_main env_os spawn is_file qml_ok a coin evs)) = Allow \<longleftrightarrow>
     env_os ''WAYLAND_DISPLAY'' \<noteq> None \<and> qml_ok \<and>
     (\<exists>v. dialog_run (dialog_default a coin (ui_lang (helper_env_var env_os))) evs = Inr v \<and> v_outcome v = Allow \<and>
        hp_verdict (helper_main env_os spawn is_file qml_ok a coin evs) = v)"
  by (auto simp: helper_main_def Let_def finish_deny_def finish_outcome_def split: sum.splits)

lemma helper_main_press:
  assumes "100 * int (length evs) < 2 ^ 31"
    and "v_outcome (hp_verdict (helper_main env_os spawn is_file qml_ok a coin evs)) = Allow"
  shows "env_os ''WAYLAND_DISPLAY'' \<noteq> None \<and> qml_ok \<and>
    (\<exists>pre post. evs = pre @ PressAllow # post \<and> PressDeny \<notin> set pre \<and>
       i32_of_u64 (ca_min_time a) \<le> 100 * int (ticks pre) \<and>
       (0 < ca_timeout a \<longrightarrow> 100 * int (ticks pre) < saturating_mul_1000 (i32_of_u64 (ca_timeout a))) \<and>
       v_remember (hp_verdict (helper_main env_os spawn is_file qml_ok a coin evs)) =
         (0 < ca_remember_secs a \<and> checked False pre))"
proof -
  obtain v where run: "dialog_run (dialog_default a coin (ui_lang (helper_env_var env_os))) evs = Inr v"
    and v: "v_outcome v = Allow" "hp_verdict (helper_main env_os spawn is_file qml_ok a coin evs) = v"
    and w: "env_os ''WAYLAND_DISPLAY'' \<noteq> None" "qml_ok"
    using assms(2) helper_main_Allow by blast
  have "100 * int (0 + length evs) < 2 ^ 31" using assms(1) by simp
  from dialog_run_allow [OF dialog_inv_default this run v(1)] show ?thesis
    using w unfolding v(2) add_0 by (elim exE conjE) (intro conjI exI; assumption)
qed

definition example_args :: cli_args where
  "example_args =
     \<lparr>ca_title = lit ''t'', ca_message = lit ''m'', ca_secondary = lit ''s'', ca_process_exe = None,
      ca_process_cmdline = None, ca_process_pid = None, ca_process_cwd = None, ca_requesting_user = None,
      ca_action = None, ca_timeout = 1, ca_min_time = 150, ca_randomize = False, ca_windowed = False,
      ca_layer_shell = False, ca_sound_name = [], ca_remember_secs = 300\<rparr>"

definition example_env_os :: "string \<Rightarrow> byte list option" where
  "example_env_os = [''WAYLAND_DISPLAY'' \<mapsto> []]"

text \<open>The dialog only ever answers Allow to a press of the Allow button that came after the minimum
  display time and before the countdown ran out, on a display whose scene loaded; and the answer
  carries the opt-in exactly when the checkbox was offered and ticked at that press. (The bound is
  the number of ticks an \<open>i32\<close> of milliseconds counts: 24 days.)\<close>

theorem dialog_allow_gated:
  assumes "100 * int (length evs) < 2 ^ 31"
    and "v_outcome (hp_verdict (helper_main env_os spawn is_file qml_ok a coin evs)) = Allow"
  shows "env_os ''WAYLAND_DISPLAY'' \<noteq> None \<and> qml_ok \<and>
    (\<exists>pre post. evs = pre @ PressAllow # post \<and> PressDeny \<notin> set pre \<and>
       i32_of_u64 (ca_min_time a) \<le> 100 * int (ticks pre) \<and>
       (0 < ca_timeout a \<longrightarrow> 100 * int (ticks pre) < saturating_mul_1000 (i32_of_u64 (ca_timeout a))) \<and>
       v_remember (hp_verdict (helper_main env_os spawn is_file qml_ok a coin evs)) =
         (0 < ca_remember_secs a \<and> checked False pre))"
  using assms by (rule helper_main_press)

theorem dialog_allow_gated_witness:
  "let evs = [Tick, SetRemember True, PressAllow, Tick, PressAllow];
       r = helper_main example_env_os (\<lambda>_ _. False) (\<lambda>_. False) True example_args True evs
   in v_outcome (hp_verdict r) = Allow \<and> v_remember (hp_verdict r) \<and>
      (\<exists>pre post. evs = pre @ PressAllow # post \<and> 150 \<le> 100 * int (ticks pre))"
proof -
  let ?evs = "[Tick, SetRemember True, PressAllow, Tick, PressAllow]"
  have r: "hp_verdict (helper_main example_env_os (\<lambda>_ _. False) (\<lambda>_. False) True example_args True ?evs) =
      \<lparr>v_outcome = Allow, v_remember = True\<rparr>"
    by (simp add: helper_main_def Let_def example_env_os_def example_args_def dialog_default_def tick_def allow_def
        i32_of_u64_def i32_max_def i32_wrap_def TICK_MS_def saturating_mul_1000_def)
  from dialog_allow_gated [of ?evs example_env_os "\<lambda>_ _. False" "\<lambda>_. False" True example_args True]
  have "\<exists>pre post. ?evs = pre @ PressAllow # post \<and> i32_of_u64 (ca_min_time example_args) \<le> 100 * int (ticks pre)"
    unfolding r by auto
  then show ?thesis unfolding Let_def r by (simp add: example_args_def i32_of_u64_def i32_max_def)
qed



text \<open>Whatever a requesting process puts in its name, command line or directory, no string shown in
  the dialog is longer than its limit and one ellipsis.\<close>

theorem dialog_strings_clipped:
  "length (dc_title (dialog_default a coin lang)) \<le> 1025 \<and>
   length (dc_message (dialog_default a coin lang)) \<le> 2049 \<and>
   length (dc_secondary (dialog_default a coin lang)) \<le> 1025 \<and>
   length (dc_process_exe (dialog_default a coin lang)) \<le> 513 \<and>
   length (dc_process_cmdline (dialog_default a coin lang)) \<le> 4097 \<and>
   length (dc_process_cwd (dialog_default a coin lang)) \<le> 4097 \<and>
   length (dc_requesting_user (dialog_default a coin lang)) \<le> 257 \<and>
   length (dc_action (dialog_default a coin lang)) \<le> 1025"
  using clip_length [of _ 1024] clip_length [of _ 2048] clip_length [of _ 512] clip_length [of _ 4096]
    clip_length [of _ 256]
  by (simp add: dialog_default_def)

text \<open>C22. The countdown is exact although it goes through floating point: while a timed dialog is open,
  the seconds it shows are the whole time less the ticks, rounded up, never zero; and the bar is
  within the rounding of one division of the true fraction and full only when the time is up.\<close>

theorem countdown_exact:
  assumes "dialog_run (dialog_default a coin lang) evs = Inl d" "0 < ca_timeout a" "0 < ticks evs"
    and "100 * int (length evs) < 2 ^ 31"
  shows "let total = saturating_mul_1000 (i32_of_u64 (ca_timeout a)); gone = 100 * int (ticks evs)
    in dc_remaining_secs d = \<lceil>of_int (total - gone) / (1000 :: rat)\<rceil> \<and> 0 < dc_remaining_secs d \<and>
       0 \<le> dc_progress_fraction d \<and> dc_progress_fraction d < 1 \<and>
       \<bar>dc_progress_fraction d - of_int gone / of_int total\<bar> \<le> 1 / 2 ^ 53"
proof -
  define total where "total = saturating_mul_1000 (i32_of_u64 (ca_timeout a))"
  define gone where "gone = 100 * int (ticks evs)"
  have "display_inv a 0 (dialog_default a coin lang)" by (simp add: display_inv_def)
  from dialog_run_inv [OF dialog_inv_default this _ assms(1)] assms(2,3,4)
  have d: "dc_remaining_secs d = (total - gone + 999) div 1000" "dc_progress_fraction d = f64_div gone total" "gone < total"
    by (simp_all add: display_inv_def dialog_inv_def total_def gone_def Let_def)
  have "0 \<le> gone" "total < 2 ^ 31" unfolding gone_def total_def by (simp, rule saturating_mul_1000_bound)
  note f = f64_div_fraction [OF this(1) d(3) this(2)]
  have "\<lceil>of_int (total - gone) / (1000 :: rat)\<rceil> = (total - gone + 999) div 1000"
    using ceiling_divide_eq_div [of "total - gone" 1000, where 'a = rat] by (simp add: div_minus_minus)
  moreover have "0 < (total - gone + 999) div 1000" using d(3) by linarith
  ultimately show ?thesis using f unfolding Let_def total_def [symmetric] gone_def [symmetric] d(1,2) by simp
qed

theorem countdown_exact_witness:
  "\<exists>d. dialog_run (dialog_default example_args True []) [Tick, Tick, Tick] = Inl d \<and>
     dc_remaining_secs d = 1 \<and> \<bar>dc_progress_fraction d - 3 / 10\<bar> \<le> 1 / 2 ^ 53"
proof -
  have t: "saturating_mul_1000 (i32_of_u64 (ca_timeout example_args)) = 1000"
    by (simp add: example_args_def saturating_mul_1000_def i32_of_u64_def i32_max_def)
  have "\<exists>d. dialog_run (dialog_default example_args True []) [Tick, Tick, Tick] = Inl d"
    by (simp add: dialog_default_def tick_def Let_def example_args_def saturating_mul_1000_def i32_of_u64_def i32_max_def
        i32_wrap_def TICK_MS_def)
  then obtain d where d: "dialog_run (dialog_default example_args True []) [Tick, Tick, Tick] = Inl d" ..
  moreover have "0 < ca_timeout example_args" by (simp add: example_args_def)
  moreover have "\<lceil>7 / 10 :: rat\<rceil> = 1" by (simp add: ceiling_unique)
  ultimately show ?thesis using countdown_exact [OF d] unfolding t by (simp add: Let_def del: dialog_run.simps)
qed

end
