(* ===== verification/Spawn.thy ===== *)
theory Spawn
  imports Cli Pam_Helper Agent_Session
begin

text \<open>
  The two programs that start the dialog and the command line they write: \<open>child_exec\<close> of
  \<open>pam-sentinel/src/helper.rs\<close> and \<open>run\<close> of \<open>sentinel-polkit-agent/src/helper_ui.rs\<close>, read back
  with the arguments \<open>sentinel-shared/src/cli.rs\<close> declares.
\<close>

text \<open>What each spawner means to tell the dialog.\<close>

definition request_args :: "helper_request \<Rightarrow> cli_args" where
  "request_args req =
     (let cfg = hr_cfg req; p = hr_process req;
          detail = (\<lambda>t. if show_process_info cfg then Some t else None)
      in \<lparr>ca_title = hr_formatted_title req,
          ca_message = hr_formatted_message req,
          ca_secondary = hr_formatted_secondary req,
          ca_process_exe = detail (pi_exe p),
          ca_process_cmdline = option_filter (\<lambda>t. t \<noteq> []) (detail (pi_cmdline p)),
          ca_process_pid = (if show_process_info cfg then Some (hr_requesting_pid req) else None),
          ca_process_cwd = option_filter (\<lambda>t. t \<noteq> []) (detail (pi_cwd p)),
          ca_requesting_user = detail (hr_user req),
          ca_action = detail (hr_service req),
          ca_timeout = unat (timeout cfg),
          ca_min_time = unat (min_display_time_ms cfg),
          ca_randomize = randomize_buttons cfg,
          ca_windowed = False,
          ca_layer_shell = False,
          ca_sound_name = hr_sound_name req,
          ca_remember_secs = unat (hr_remember_secs req)\<rparr>)"

definition ui_args :: "ui_request \<Rightarrow> cli_args" where
  "ui_args r =
     \<lparr>ca_title = ui_title r,
      ca_message = ui_message r,
      ca_secondary = ui_secondary r,
      ca_process_exe = ui_process_exe r,
      ca_process_cmdline = ui_process_cmdline r,
      ca_process_pid = ui_process_pid r,
      ca_process_cwd = ui_process_cwd r,
      ca_requesting_user = ui_requesting_user r,
      ca_action = ui_action r,
      ca_timeout = ui_timeout r,
      ca_min_time = ui_min_time r,
      ca_randomize = ui_randomize r,
      ca_windowed = False,
      ca_layer_shell = False,
      ca_sound_name = ui_sound_name r,
      ca_remember_secs = unat (ui_remember_secs r)\<rparr>"

text \<open>A text arrives when it has no NUL and is not mistaken for an option.\<close>

definition no_nul :: "ustr \<Rightarrow> bool" where
  "no_nul t \<longleftrightarrow> 0 \<notin> set t"

lemma no_nul_show_nat [simp]: "no_nul (show_nat n)"
  using show_nat_digits by (force simp: no_nul_def is_digit_def)

lemma no_nul_show_int [simp]: "no_nul (show_int i)"
  using no_nul_show_nat by (simp add: show_int_def no_nul_def)

lemma no_nul_long_name [simp]: "no_nul (long_name n) \<longleftrightarrow> no_nul n"
  by (simp add: no_nul_def long_name_def)

lemma long_name_lit: "lit (CHR ''-'' # CHR ''-'' # n) = long_name (lit n)"
  by (simp add: long_name_def)

lemma field_item_text:
  "concat (map item_words (case field_item (\<lambda>_. True) (lit n, text_field v) of None \<Rightarrow> [] | Some it \<Rightarrow> [it])) =
    opt_arg (''--'' @ n) v"
  by (cases v) (simp_all add: text_field_def text_item_def opt_arg_def long_name_lit del: lit_simps)

lemma cli_words_append [simp]: "cli_words (xs @ ys) = cli_words xs @ cli_words ys"
  by (simp add: cli_words_def)

lemma cli_words_fields:
  "cli_words (field_items (\<lambda>_. True) (cli_fields a)) =
     [lit ''--title'', ca_title a, lit ''--message'', ca_message a, lit ''--secondary'', ca_secondary a,
      lit ''--timeout'', show_nat (ca_timeout a), lit ''--min-time'', show_nat (ca_min_time a),
      lit ''--remember-secs'', show_nat (ca_remember_secs a)] @
     (if ca_sound_name a \<noteq> [] then [lit ''--sound-name'', ca_sound_name a] else []) @
     (if ca_randomize a then [lit ''--randomize''] else []) @
     opt_arg ''--process-exe'' (ca_process_exe a) @
     opt_arg ''--process-cmdline'' (ca_process_cmdline a) @
     opt_arg ''--process-pid'' (map_option show_int (ca_process_pid a)) @
     opt_arg ''--process-cwd'' (ca_process_cwd a) @
     opt_arg ''--requesting-user'' (ca_requesting_user a) @
     opt_arg ''--action'' (ca_action a)"
  unfolding cli_fields_def cli_words_def
  by (simp add: text_item_def long_name_lit field_item_text del: lit_simps)

lemma cli_words_no_nul:
  assumes "list_all (\<lambda>f. no_nul (fst f)) fs"
  shows "cli_words (field_items no_nul fs) = filter no_nul (cli_words (field_items (\<lambda>_. True) fs))"
  using assms
proof (induction fs)
  case (Cons f fs)
  then show ?case
    by (cases "(no_nul, f)" rule: field_item.cases) (auto simp: text_item_def)
qed simp

lemma cli_fields_no_nul: "list_all (\<lambda>f. no_nul (fst f)) (cli_fields a)"
  by (simp add: cli_fields_def no_nul_def)

lemma ui_argv_words: "ui_argv r = cli_words (field_items (\<lambda>_. True) (cli_fields (ui_args r)))"
  by (simp add: cli_words_fields ui_argv_def ui_args_def show_u32_def del: lit_simps)

lemma helper_argv_words:
  assumes "no_nul path"
  shows "helper_argv path req = path # cli_words (field_items no_nul (cli_fields (request_args req)))"
proof -
  have "helper_argv path req = filter no_nul (path # cli_words (field_items (\<lambda>_. True) (cli_fields (request_args req))))"
    unfolding helper_argv_def foldl_push_arg cli_words_fields Let_def no_nul_def [symmetric]
    by (simp add: request_args_def Let_def opt_arg_def show_u32_def del: lit_simps)
  with assms show ?thesis by (simp add: cli_words_no_nul [OF cli_fields_no_nul])
qed

text \<open>What each spawner's command line is read as, text by text.\<close>

lemma spawnable_request:
  "- (2 ^ 31) \<le> hr_requesting_pid req \<Longrightarrow> hr_requesting_pid req < 2 ^ 31 \<Longrightarrow> spawnable (request_args req)"
  using unat_u32_bound [of "timeout (hr_cfg req)"] unat_u32_bound [of "min_display_time_ms (hr_cfg req)"]
    unat_u32_bound [of "hr_remember_secs req"]
  by (simp add: spawnable_def request_args_def Let_def)

lemma spawnable_action:
  assumes "pred_option (\<lambda>p. - (2 ^ 31) \<le> p \<and> p < 2 ^ 31) (in_process_pid i)"
  shows "spawnable (ui_args (for_action i w))"
  using assms unat_u32_bound [of "timeout (in_cfg i)"] unat_u32_bound [of "min_display_time_ms (in_cfg i)"]
    unat_u32_bound [of w]
  by (simp add: spawnable_def ui_args_def for_action_def Let_def)

definition arrives :: "cli_args \<Rightarrow> bool" where
  "arrives a \<longleftrightarrow> list_all (\<lambda>t. no_nul t \<and> cli_value t) (cli_texts a)"

lemma helper_reads_request_eq:
  assumes "clap_reads clap cli_decls" "no_nul path"
    and "- (2 ^ 31) \<le> hr_requesting_pid req" "hr_requesting_pid req < 2 ^ 31"
  shows "parse_cli clap (tl (helper_argv path req)) = (if arrives (request_args req) then Some (request_args req) else None)"
  using parse_cli_words [OF assms(1) spawnable_request [OF assms(3,4)], of no_nul]
  by (simp add: helper_argv_words [OF assms(2)] arrives_def list_all_iff) (simp add: no_nul_def)

lemma helper_reads_action_eq:
  assumes "clap_reads clap cli_decls" "pred_option (\<lambda>p. - (2 ^ 31) \<le> p \<and> p < 2 ^ 31) (in_process_pid i)"
  shows "parse_cli clap (ui_argv (for_action i w)) =
    (if list_all cli_value (cli_texts (ui_args (for_action i w))) then Some (ui_args (for_action i w)) else None)"
  using parse_cli_words [OF assms(1) spawnable_action [OF assms(2)], of "\<lambda>_. True"]
  by (simp add: ui_argv_words list_all_iff)

text \<open>A template that does not start with a token or a hyphen gets through, whatever is filled in.\<close>

lemma format_no_nul: "no_nul t \<Longrightarrow> no_nul u \<Longrightarrow> no_nul s \<Longrightarrow> no_nul p \<Longrightarrow> no_nul (format_message t u s p)"
  by (induction t u s p rule: format_message.induct) (auto simp: no_nul_def split: list.splits)

lemma format_cli_value: "hd t \<noteq> 37 \<Longrightarrow> hd t \<noteq> 45 \<Longrightarrow> cli_value (format_message t u s p)"
  by (cases t) (auto simp: cli_value_def)

lemma default_texts:
  "no_nul DEFAULT_TITLE" "no_nul DEFAULT_MESSAGE" "no_nul DEFAULT_SECONDARY" "no_nul default_sound_name" "cli_value default_sound_name"
  "cli_value (format_message DEFAULT_TITLE u s p)" "cli_value (format_message DEFAULT_MESSAGE u s p)"
  "cli_value (format_message DEFAULT_SECONDARY u s p)"
  by (simp_all add: no_nul_def cli_value_def DEFAULT_TITLE_def DEFAULT_MESSAGE_def DEFAULT_SECONDARY_def
      default_sound_name_def format_cli_value)

section \<open>Properties\<close>

text \<open>C18. The dialog is told what the module asked for: whatever the texts of a request are, the
  command line the module's child executes is read back by the dialog as exactly the title,
  texts, times, window and process details of the request, or, when one of the texts holds a
  NUL or starts like an option, is refused as a whole. No text can set another option.\<close>

theorem helper_reads_request:
  assumes "clap_reads clap cli_decls" "no_nul path"
    and "- (2 ^ 31) \<le> hr_requesting_pid req" "hr_requesting_pid req < 2 ^ 31"
  shows "hd (helper_argv path req) = path \<and>
    parse_cli clap (tl (helper_argv path req)) = (if arrives (request_args req) then Some (request_args req) else None)"
  using helper_reads_request_eq [OF assms] by (simp add: helper_argv_words [OF assms(2)])

theorem helper_reads_request_witness:
  "parse_cli example_clap (tl (helper_argv (lit ''/h'') example_request)) = Some (request_args example_request)"
proof -
  have "no_nul (lit ''/h'')" "- (2 ^ 31) \<le> hr_requesting_pid example_request" "hr_requesting_pid example_request < 2 ^ 31"
    by (simp_all add: no_nul_def example_request_def)
  note helper_reads_request [OF example_clap_reads this]
  moreover have "arrives (request_args example_request)"
    by (simp add: arrives_def cli_texts_def request_args_def example_request_def Let_def List.map_filter_def
        no_nul_def cli_value_def example_process_def for_service_def document_defaults_def base_config_def show_int_def show_nat.simps)
  ultimately show ?thesis by simp
qed

text \<open>The agent's command line is read back as the request it built for the action, or refused as
  a whole when one of its texts starts like an option.\<close>

theorem helper_reads_action:
  assumes "clap_reads clap cli_decls" "pred_option (\<lambda>p. - (2 ^ 31) \<le> p \<and> p < 2 ^ 31) (in_process_pid i)"
  shows "parse_cli clap (ui_argv (for_action i w)) =
    (if list_all cli_value (cli_texts (ui_args (for_action i w))) then Some (ui_args (for_action i w)) else None)"
  using assms by (rule helper_reads_action_eq)

theorem helper_reads_action_witness:
  "\<exists>a. parse_cli example_clap (ui_argv (for_action (example_inputs [] (lit ''true'')) 300)) = Some a \<and>
    ca_remember_secs a = 300 \<and> ca_process_cmdline a = Some (lit ''true'')"
proof -
  let ?r = "for_action (example_inputs [] (lit ''true'')) 300"
  have "pred_option (\<lambda>p. - (2 ^ 31) \<le> p \<and> p < 2 ^ 31) (in_process_pid (example_inputs [] (lit ''true'')))"
    by (simp add: example_inputs_def)
  note helper_reads_action [OF example_clap_reads this, of 300]
  moreover have "ca_remember_secs (ui_args ?r) = 300" "ca_process_cmdline (ui_args ?r) = Some (lit ''true'')"
    by (simp_all add: ui_args_def for_action_def example_inputs_def Let_def)
  moreover have "list_all cli_value (cli_texts (ui_args ?r))"
    by (simp add: cli_texts_def ui_args_def for_action_def example_inputs_def Let_def List.map_filter_def cli_value_def
        for_service_def document_defaults_def base_config_def appearance_default_def audio_default_def
        default_sound_name_def DEFAULT_TITLE_def DEFAULT_MESSAGE_def DEFAULT_SECONDARY_def)
  ultimately show ?thesis by (auto simp del: lit_simps)
qed

end
