(* ===== verification/Tests_Shared.thy ===== *)
theory Tests_Shared
  imports Config Wire_Verdict Cli Ui_I18n Procfs
begin

text \<open>
  The unit tests of the shared crate (\<open>sentinel-shared/src/lib.rs\<close>, \<open>cli.rs\<close> and
  \<open>ui_i18n.rs\<close>), transcribed: one bool-valued definition per test function, under its name,
  with its inputs and the answers it asserts. That they all hold of the model says that the model
  answers the program's own examples the way the program does. Tests that parse a configuration
  text or a command line take the parser as an argument, and hold for every parser that reads the
  texts of the tests as TOML and \<open>clap\<close> are documented to. The two tests left out assert only that
  the TOML library refuses a malformed text, and the default of an enumeration.
\<close>

subsection \<open>Policy\<close>

definition test_policy :: "string list \<Rightarrow> string list \<Rightarrow> policy" where
  "test_policy allow deny = \<lparr>p_allow = map lit allow, p_deny = map lit deny\<rparr>"

definition doc_with_services :: "(ustr \<rightharpoonup> service_override) \<Rightarrow> document" where
  "doc_with_services services =
     \<lparr>d_general = general_default, d_appearance = appearance_default, d_audio = audio_default,
      d_services = services, d_policy = policy_default, d_notifications = notifications_default\<rparr>"

definition policy_empty_always_asks :: bool where
  "policy_empty_always_asks \<longleftrightarrow>
     decide policy_default (Some (lit ''/usr/bin/pacman'')) None = PAsk \<and>
      decide policy_default (Some (lit ''/usr/bin/x'')) (Some (lit ''org.example.act'')) = PAsk"

definition policy_allow_matches_basename_and_full_path :: bool where
  "policy_allow_matches_basename_and_full_path \<longleftrightarrow>
     (let p = test_policy [''pacman'', ''/usr/bin/topgrade''] []
      in list_all (\<lambda>(exe, r). decide p (Some (lit exe)) None = r)
           [(''/usr/bin/pacman'', PAllow), (''/usr/bin/topgrade'', PAllow),
            (''/opt/evil/pacman'', PAllow), (''/opt/topgrade'', PAsk)])"

definition policy_deny_wins_over_allow :: bool where
  "policy_deny_wins_over_allow \<longleftrightarrow>
     decide (test_policy [''pacman''] [''pacman'']) (Some (lit ''/usr/bin/pacman'')) None = PDeny"

definition policy_matches_polkit_action_id :: bool where
  "policy_matches_polkit_action_id \<longleftrightarrow>
     (let p = test_policy [''org.freedesktop.policykit.exec''] []
      in decide p (Some (lit ''/usr/bin/pkexec'')) (Some (lit ''org.freedesktop.policykit.exec'')) = PAllow \<and>
         decide p (Some (lit ''/usr/bin/other'')) None = PAsk)"

subsection \<open>Sessions of logind\<close>

definition parse_kv_ignores_comments_and_blanks :: bool where
  "parse_kv_ignores_comments_and_blanks \<longleftrightarrow>
     (let kv = parse_kv (join [10] (map lit [''# header'', ''FOO=bar'', [], ''BAZ=qux'', ''# tail'']))
      in kv (lit ''FOO'') = Some (lit ''bar'') \<and> kv (lit ''BAZ'') = Some (lit ''qux'') \<and> card (dom kv) = 2)"

definition parse_kv_handles_values_with_equals :: bool where
  "parse_kv_handles_values_with_equals \<longleftrightarrow> parse_kv (lit ''KEY=a=b=c'') (lit ''KEY'') = Some (lit ''a=b=c'')"

definition safe_session_id_accepts_typical :: bool where
  "safe_session_id_accepts_typical \<longleftrightarrow> list_all (\<lambda>s. is_safe_session_id (lit s)) [''1'', ''42'', ''c1'', ''session-1'']"

definition safe_session_id_rejects_path_traversal_and_garbage :: bool where
  "safe_session_id_rejects_path_traversal_and_garbage \<longleftrightarrow>
     list_all (\<lambda>s. \<not> is_safe_session_id s)
       [[], lit ''../etc/shadow'', lit ''1/../foo'', replicate 17 120, lit ''a b'']"

subsection \<open>Message templates\<close>

definition format_message_substitutes_all_tokens :: bool where
  "format_message_substitutes_all_tokens \<longleftrightarrow>
     format_message (lit ''%u %s %p'') (lit ''alice'') (lit ''sudo'') (lit ''/usr/bin/cat'') = lit ''alice sudo /usr/bin/cat''"

definition format_message_handles_literal_percent :: bool where
  "format_message_handles_literal_percent \<longleftrightarrow>
     format_message (lit ''100%% done by %u'') (lit ''alice'') (lit ''sudo'') (lit ''cat'') = lit ''100% done by alice''"

definition format_message_preserves_unknown_tokens :: bool where
  "format_message_preserves_unknown_tokens \<longleftrightarrow>
     format_message (lit ''%x %u'') (lit ''alice'') (lit ''sudo'') (lit ''cat'') = lit ''%x alice''"

definition format_message_trailing_percent_is_kept :: bool where
  "format_message_trailing_percent_is_kept \<longleftrightarrow>
     format_message (lit ''hello %'') (lit ''u'') (lit ''s'') (lit ''p'') = lit ''hello %''"

definition format_message_empty_template :: bool where
  "format_message_empty_template \<longleftrightarrow>
     format_message ([]) (lit ''u'') (lit ''s'') (lit ''p'') = []"

definition format_message_no_substitutions :: bool where
  "format_message_no_substitutions \<longleftrightarrow>
     format_message (lit ''plain text'') (lit ''u'') (lit ''s'') (lit ''p'') = lit ''plain text''"

subsection \<open>Services\<close>

definition service_config_uses_general_defaults_for_unknown_service :: bool where
  "service_config_uses_general_defaults_for_unknown_service \<longleftrightarrow>
     (let cfg = for_service (doc_with_services Map.empty) (lit ''anything'')
      in enabled cfg \<and> timeout cfg = 30 \<and> randomize_buttons cfg)"

definition service_config_per_service_override_wins :: bool where
  "service_config_per_service_override_wins \<longleftrightarrow>
     (let services = [lit ''sudo'' \<mapsto>
        \<lparr>o_enabled = Some False, o_timeout = Some 99, o_randomize = Some False,
          o_remember_seconds = None, o_remember_scope = None\<rparr>];
          cfg = for_service (doc_with_services services) (lit ''sudo'')
      in \<not> enabled cfg \<and> timeout cfg = 99 \<and> \<not> randomize_buttons cfg)"

definition service_config_partial_override_inherits_rest :: bool where
  "service_config_partial_override_inherits_rest \<longleftrightarrow>
     (let services = [lit ''su'' \<mapsto>
        \<lparr>o_enabled = Some False, o_timeout = None, o_randomize = None,
          o_remember_seconds = None, o_remember_scope = None\<rparr>];
          cfg = for_service (doc_with_services services) (lit ''su'')
      in \<not> enabled cfg \<and> timeout cfg = 30 \<and> randomize_buttons cfg)"

definition service_config_other_services_unaffected :: bool where
  "service_config_other_services_unaffected \<longleftrightarrow>
     (let services = [lit ''sudo'' \<mapsto>
        \<lparr>o_enabled = Some False, o_timeout = Some 1, o_randomize = Some False,
          o_remember_seconds = None, o_remember_scope = None\<rparr>];
          cfg = for_service (doc_with_services services) (lit ''polkit-1'')
      in enabled cfg \<and> timeout cfg = 30 \<and> randomize_buttons cfg)"

definition remember_default_is_300_on_gui_path :: bool where
  "remember_default_is_300_on_gui_path \<longleftrightarrow>
     g_remember_seconds (d_general document_defaults) = 300 \<and>
      remember_seconds (for_service document_defaults POLKIT_PAM_SERVICE) = 300"

definition remember_terminal_paths_default_off :: bool where
  "remember_terminal_paths_default_off \<longleftrightarrow>
     list_all (\<lambda>s. remember_seconds (for_service document_defaults (lit s)) = 0)
       [''sudo'', ''su'', ''sudo-i'', ''anything'']"

definition remember_terminal_opt_in_via_service_override :: bool where
  "remember_terminal_opt_in_via_service_override \<longleftrightarrow>
     (let doc = doc_with_services [lit ''sudo'' \<mapsto>
        \<lparr>o_enabled = None, o_timeout = None, o_randomize = None,
          o_remember_seconds = Some 60, o_remember_scope = None\<rparr>]
      in remember_seconds (for_service doc (lit ''sudo'')) = 60 \<and>
         remember_seconds (for_service doc (lit ''su'')) = 0)"

definition remember_gui_off_switch_via_service_override :: bool where
  "remember_gui_off_switch_via_service_override \<longleftrightarrow>
     (let doc = doc_with_services [POLKIT_PAM_SERVICE \<mapsto>
        \<lparr>o_enabled = None, o_timeout = None, o_randomize = None,
          o_remember_seconds = Some 0, o_remember_scope = None\<rparr>]
      in remember_seconds (for_service doc POLKIT_PAM_SERVICE) = 0)"

subsection \<open>Quoting\<close>

definition log_kv_bare_token_unquoted :: bool where
  "log_kv_bare_token_unquoted \<longleftrightarrow>
     quote (lit ''alice'') = lit ''alice'' \<and>
      quote (lit ''/usr/bin/sudo'') = lit ''/usr/bin/sudo'' \<and>
      quote (lit ''polkit-1'') = lit ''polkit-1''"

definition log_kv_whitespace_gets_quoted :: bool where
  "log_kv_whitespace_gets_quoted \<longleftrightarrow>
     quote (lit ''hello world'') = [34] @ lit ''hello world'' @ [34] \<and>
      quote (lit ''a'' @ [9] @ lit ''b'') = [34] @ lit ''a'' @ [9] @ lit ''b'' @ [34]"

definition log_kv_internal_quotes_escaped :: bool where
  "log_kv_internal_quotes_escaped \<longleftrightarrow>
     quote (lit ''a'' @ [34] @ lit ''b'') = [34] @ lit ''a'' @ [92, 34] @ lit ''b'' @ [34]"

definition log_kv_empty_becomes_quoted_empty :: bool where
  "log_kv_empty_becomes_quoted_empty \<longleftrightarrow>
     quote [] = [34, 34]"

definition log_kv_equals_sign_gets_quoted :: bool where
  "log_kv_equals_sign_gets_quoted \<longleftrightarrow>
     quote (lit ''a=b'') = [34] @ lit ''a=b'' @ [34]"

definition log_kv_backslash_escaped :: bool where
  "log_kv_backslash_escaped \<longleftrightarrow>
     quote (lit ''a'' @ [92] @ lit ''b'') = lit ''a'' @ [92] @ lit ''b'' \<and>
      quote (lit ''a b'' @ [92] @ lit ''c'') = [34] @ lit ''a b'' @ [92, 92] @ lit ''c'' @ [34]"

subsection \<open>Outcomes and verdicts\<close>

definition outcome_display_strings_are_stable_protocol :: bool where
  "outcome_display_strings_are_stable_protocol \<longleftrightarrow>
     outcome_display Allow = lit ''ALLOW'' \<and> outcome_display Deny = lit ''DENY'' \<and>
      outcome_display Timeout = lit ''TIMEOUT''"

definition outcome_round_trips_through_str :: bool where
  "outcome_round_trips_through_str \<longleftrightarrow>
     list_all (\<lambda>v. outcome_from_str (outcome_display v) = Some v) [Allow, Deny, Timeout]"

definition outcome_from_str_strips_whitespace :: bool where
  "outcome_from_str_strips_whitespace \<longleftrightarrow>
     outcome_from_str (lit ''ALLOW'' @ [10]) = Some Allow \<and> outcome_from_str (lit '' DENY '') = Some Deny"

definition outcome_unknown_is_error :: bool where
  "outcome_unknown_is_error \<longleftrightarrow>
     outcome_from_str (lit ''MAYBE'') = None \<and> outcome_from_str [] = None \<and>
      outcome_from_str (lit ''allow'') = None"

definition outcome_exit_code_allow_is_zero :: bool where
  "outcome_exit_code_allow_is_zero \<longleftrightarrow>
     exit_code Allow = 0 \<and> exit_code Deny = 1 \<and> exit_code Timeout = 1"

definition outcome_is_allow_helper :: bool where
  "outcome_is_allow_helper \<longleftrightarrow>
     is_allow Allow \<and> \<not> is_allow Deny \<and> \<not> is_allow Timeout"

definition verdict_wire_round_trips_and_is_backward_compatible :: bool where
  "verdict_wire_round_trips_and_is_backward_compatible \<longleftrightarrow>
     verdict_from_str (lit ''ALLOW'') = Some \<lparr>v_outcome = Allow, v_remember = False\<rparr> \<and>
      map_option v_remember (verdict_from_str (lit ''ALLOW REMEMBER'')) = Some True \<and>
      map_option verdict_display (verdict_from_str (lit ''ALLOW REMEMBER'')) = Some (lit ''ALLOW REMEMBER'') \<and>
      verdict_display \<lparr>v_outcome = Deny, v_remember = True\<rparr> = lit ''DENY'' \<and>
      map_option v_outcome (verdict_from_str (lit ''  DENY  '')) = Some Deny \<and>
      verdict_from_str (lit ''NONSENSE'') = None"

subsection \<open>Programs and elevation prefixes\<close>

definition process_basename_strips_dirname :: bool where
  "process_basename_strips_dirname \<longleftrightarrow>
     process_basename (lit ''/usr/bin/firefox'') = Some (lit ''firefox'') \<and>
      process_basename (lit ''/bin/true'') = Some (lit ''true'')"

definition process_basename_handles_no_directory :: bool where
  "process_basename_handles_no_directory \<longleftrightarrow>
     process_basename (lit ''bash'') = Some (lit ''bash'')"

definition process_basename_returns_none_for_path_only_dots :: bool where
  "process_basename_returns_none_for_path_only_dots \<longleftrightarrow>
     process_basename (lit ''/'') = None \<and> process_basename [] = None"

definition strip_elevation_passes_through_non_elevation_cmdline :: bool where
  "strip_elevation_passes_through_non_elevation_cmdline \<longleftrightarrow>
     list_all (\<lambda>(c, r). strip_elevation_prefix (lit c) = lit r)
       [(''ls -la'', ''ls -la''), (''/usr/bin/firefox'', ''/usr/bin/firefox'')]"

definition strip_elevation_handles_pkexec :: bool where
  "strip_elevation_handles_pkexec \<longleftrightarrow>
     list_all (\<lambda>(c, r). strip_elevation_prefix (lit c) = lit r)
       [(''pkexec true'', ''true''),
        (''pkexec /usr/bin/cat /etc/hosts'', ''/usr/bin/cat /etc/hosts''),
        (''pkexec --user root systemctl restart foo'', ''systemctl restart foo''),
        (''pkexec --disable-internal-agent --user root /bin/sh'', ''/bin/sh'')]"

definition strip_elevation_handles_sudo :: bool where
  "strip_elevation_handles_sudo \<longleftrightarrow>
     list_all (\<lambda>(c, r). strip_elevation_prefix (lit c) = lit r)
       [(''sudo true'', ''true''), (''sudo-rs true'', ''true''),
        (''sudo systemctl restart foo'', ''systemctl restart foo''),
        (''sudo -u root /bin/sh'', ''/bin/sh''),
        (''sudo -E -u root systemctl daemon-reload'', ''systemctl daemon-reload''),
        (''sudo --user root --group docker docker ps'', ''docker ps'')]"

definition strip_elevation_skips_chroot_value :: bool where
  "strip_elevation_skips_chroot_value \<longleftrightarrow>
     list_all (\<lambda>(c, r). strip_elevation_prefix (lit c) = lit r)
       [(''sudo -R /srv pacman -U /tmp/x'', ''pacman -U /tmp/x''),
        (''sudo --chroot /srv systemctl restart foo'', ''systemctl restart foo'')]"

definition strip_elevation_handles_su :: bool where
  "strip_elevation_handles_su \<longleftrightarrow>
     list_all (\<lambda>(c, r). strip_elevation_prefix (lit c) = lit r)
       [(''su -c whoami'', ''whoami'')]"

definition strip_elevation_handles_doas :: bool where
  "strip_elevation_handles_doas \<longleftrightarrow>
     list_all (\<lambda>(c, r). strip_elevation_prefix (lit c) = lit r)
       [(''doas pacman -Syu'', ''pacman -Syu'')]"

definition strip_elevation_with_absolute_path :: bool where
  "strip_elevation_with_absolute_path \<longleftrightarrow>
     list_all (\<lambda>(c, r). strip_elevation_prefix (lit c) = lit r)
       [(''/usr/bin/sudo true'', ''true''),
        (''/usr/bin/pkexec /usr/bin/gparted'', ''/usr/bin/gparted'')]"

definition strip_elevation_returns_empty_for_no_command :: bool where
  "strip_elevation_returns_empty_for_no_command \<longleftrightarrow>
     list_all (\<lambda>(c, r). strip_elevation_prefix (lit c) = lit r)
       [(''sudo -i'', ''''), (''sudo'', ''''), (''pkexec'', '''')]"

definition strip_elevation_empty_input :: bool where
  "strip_elevation_empty_input \<longleftrightarrow>
     list_all (\<lambda>(c, r). strip_elevation_prefix (lit c) = lit r)
       [('''', '''')]"

subsection \<open>Eligible commands and scopes\<close>

definition remember_eligible_accepts_concrete_commands :: bool where
  "remember_eligible_accepts_concrete_commands \<longleftrightarrow>
     list_all (\<lambda>c. remember_eligible_command (lit c))
       [''pacman -Syu'', ''systemctl restart nginx'', ''/usr/bin/pacman -Syu'', ''id'',
        ''cat /etc/hosts'']"

definition remember_eligible_rejects_shells_interpreters_nesting :: bool where
  "remember_eligible_rejects_shells_interpreters_nesting \<longleftrightarrow>
     list_all (\<lambda>c. \<not> remember_eligible_command (lit c))
       [''bash'', ''sh -c whoami'', ''/usr/bin/zsh'', ''fish'', ''python3 -c x'', ''perl -e x'',
        ''node app.js'', ''su'', ''sudo bash'', ''pkexec id'', ''doas sh'', ''env X=1 evil'']"

definition remember_eligible_rejects_shell_escapers :: bool where
  "remember_eligible_rejects_shell_escapers \<longleftrightarrow>
     list_all (\<lambda>c. \<not> remember_eligible_command (lit c))
       [''vim /etc/hosts'', ''less /var/log/x'', ''man 5 sudoers'', ''find / -exec sh ;'',
        ''nano /etc/fstab'']"

definition remember_eligible_rejects_empty :: bool where
  "remember_eligible_rejects_empty \<longleftrightarrow>
     list_all (\<lambda>c. \<not> remember_eligible_command (lit c))
       ['''', ''   '']"

definition remember_key_command_scopes :: bool where
  "remember_key_command_scopes \<longleftrightarrow>
     list_all (\<lambda>(c, s, r). remember_key_command (lit c) s = lit r)
       [('' zypper dist-upgrade '', ScopeCommand, ''zypper dist-upgrade''),
        (''zypper dist-upgrade'', ScopeProgram, ''zypper''),
        (''zypper refresh'', ScopeProgram, ''zypper''),
        (''/usr/bin/zypper ref'', ScopeProgram, ''/usr/bin/zypper''), ('''', ScopeProgram, '''')]"

definition remember_eligible_matches_by_basename_not_substring :: bool where
  "remember_eligible_matches_by_basename_not_substring \<longleftrightarrow>
     \<not> remember_eligible_command (lit ''/usr/bin/bash -l'') \<and>
      list_all (\<lambda>c. remember_eligible_command (lit c)) [''bashtop'', ''shellcheck x'', ''findutils-thing'']"

subsection \<open>Configuration texts\<close>

text \<open>The texts the tests parse, and the trees TOML gives them.\<close>

definition toml_lines :: "string list \<Rightarrow> ustr" where
  "toml_lines ls = concat (map (\<lambda>l. lit l @ [10]) ls)"

definition policy_text :: ustr where
  "policy_text = toml_lines ['''', ''            [policy]'']
     @ lit ''            allow = ['' @ [34] @ lit ''pacman'' @ [34] @ lit '', '' @ [34] @ lit ''/usr/bin/topgrade'' @ [34] @ lit '']'' @ [10]
     @ lit ''            deny = ['' @ [34] @ lit ''org.freedesktop.systemd1.manage-units'' @ [34] @ lit '']'' @ [10]
     @ lit ''            ''"

definition timeout_text :: ustr where
  "timeout_text = toml_lines [''[general]'', ''timeout = 30'']"

definition zero_text :: ustr where
  "zero_text = toml_lines [''[general]'', ''remember_seconds = 0'']"

definition typo_text :: ustr where
  "typo_text = toml_lines [''[services.sudo]'', ''ramdomize = true'']"

definition full_text :: ustr where
  "full_text = toml_lines ['''', ''            [general]'', ''            enabled = true'', ''            timeout = 45'',
       ''            randomize_buttons = false'']
     @ lit ''            headless_action = '' @ [34] @ lit ''deny'' @ [34, 10]
     @ toml_lines [''            min_display_time_ms = 1000'', '''', ''            [appearance]'']
     @ lit ''            title = '' @ [34] @ lit ''Custom'' @ [34, 10]
     @ lit ''            message = '' @ [34] @ lit ''msg %u'' @ [34, 10]
     @ toml_lines ['''', ''            [services.sudo]'', ''            timeout = 5''] @ lit ''        ''"

definition file_text :: ustr where
  "file_text = toml_lines [''[general]'', ''timeout = 12'']"

definition general_text :: ustr where
  "general_text = toml_lines [''[general]'']"

definition program_text :: ustr where
  "program_text = toml_lines [''[general]''] @ lit ''remember_scope = '' @ [34] @ lit ''program'' @ [34, 10]"

definition scoped_text :: ustr where
  "scoped_text = toml_lines [''[general]''] @ lit ''remember_scope = '' @ [34] @ lit ''program'' @ [34, 10]
     @ toml_lines [''[services.sudo]''] @ lit ''remember_scope = '' @ [34] @ lit ''command'' @ [34, 10]"

definition prgram_text :: ustr where
  "prgram_text = toml_lines [''[general]''] @ lit ''remember_scope = '' @ [34] @ lit ''prgram'' @ [34, 10]"

definition table_of :: "string \<Rightarrow> (string \<times> toml) list \<Rightarrow> ustr \<times> toml" where
  "table_of name fs = (lit name, TTable (map (\<lambda>(k, v). (lit k, v)) fs))"

definition toml_texts :: "(ustr \<times> toml) list" where
  "toml_texts =
     [(policy_text, TTable [table_of ''policy''
        [(''allow'', TArray [TString (lit ''pacman''), TString (lit ''/usr/bin/topgrade'')]),
         (''deny'', TArray [TString (lit ''org.freedesktop.systemd1.manage-units'')])]]),
      (timeout_text, TTable [table_of ''general'' [(''timeout'', TInteger 30)]]),
      (zero_text, TTable [table_of ''general'' [(''remember_seconds'', TInteger 0)]]),
      (typo_text, TTable [(lit ''services'', TTable [table_of ''sudo'' [(''ramdomize'', TBoolean True)]])]),
      (full_text, TTable [table_of ''general''
         [(''enabled'', TBoolean True), (''timeout'', TInteger 45), (''randomize_buttons'', TBoolean False),
          (''headless_action'', TString (lit ''deny'')), (''min_display_time_ms'', TInteger 1000)],
        table_of ''appearance'' [(''title'', TString (lit ''Custom'')), (''message'', TString (lit ''msg %u''))],
        (lit ''services'', TTable [table_of ''sudo'' [(''timeout'', TInteger 5)]])]),
      (file_text, TTable [table_of ''general'' [(''timeout'', TInteger 12)]]),
      (general_text, TTable [table_of ''general'' []]),
      (program_text, TTable [table_of ''general'' [(''remember_scope'', TString (lit ''program''))]]),
      (scoped_text, TTable [table_of ''general'' [(''remember_scope'', TString (lit ''program''))],
        (lit ''services'', TTable [table_of ''sudo'' [(''remember_scope'', TString (lit ''command''))]])]),
      (prgram_text, TTable [table_of ''general'' [(''remember_scope'', TString (lit ''prgram''))]])]"

type_synonym toml_parser = "ustr \<Rightarrow> ustr + toml"

definition toml_reads :: "toml_parser \<Rightarrow> bool" where
  "toml_reads parse = list_all (\<lambda>(s, t). parse s = Inr t) toml_texts"

definition from_toml :: "toml_parser \<Rightarrow> ustr \<Rightarrow> (document \<Rightarrow> bool) \<Rightarrow> bool" where
  "from_toml parse s P = (case schema_from_str [] parse s of Inr doc \<Rightarrow> P doc | Inl e \<Rightarrow> False)"

definition policy_parses_from_toml :: "toml_parser \<Rightarrow> bool" where
  "policy_parses_from_toml parse \<longleftrightarrow>
     from_toml parse policy_text (\<lambda>doc. length (p_allow (d_policy doc)) = 2 \<and>
       decide (d_policy doc) None (Some (lit ''org.freedesktop.systemd1.manage-units'')) = PDeny)"

definition remember_serde_default_applies_when_key_absent :: "toml_parser \<Rightarrow> bool" where
  "remember_serde_default_applies_when_key_absent parse \<longleftrightarrow>
     from_toml parse timeout_text (\<lambda>doc. g_remember_seconds (d_general doc) = 300 \<and>
       remember_seconds (for_service doc POLKIT_PAM_SERVICE) = 300 \<and>
       remember_seconds (for_service doc (lit ''sudo'')) = 0)"

definition remember_explicit_zero_is_preserved :: "toml_parser \<Rightarrow> bool" where
  "remember_explicit_zero_is_preserved parse \<longleftrightarrow>
     from_toml parse zero_text (\<lambda>doc. g_remember_seconds (d_general doc) = 0 \<and>
       remember_seconds (for_service doc POLKIT_PAM_SERVICE) = 0)"

definition service_override_unknown_field_is_a_parse_error :: "toml_parser \<Rightarrow> bool" where
  "service_override_unknown_field_is_a_parse_error parse \<longleftrightarrow>
     (case schema_from_str [] parse typo_text of Inl e \<Rightarrow> True | Inr doc \<Rightarrow> False)"

definition parses_full_config_toml :: "toml_parser \<Rightarrow> bool" where
  "parses_full_config_toml parse \<longleftrightarrow>
     from_toml parse full_text (\<lambda>doc. let cfg = for_service doc (lit ''sudo'')
       in timeout cfg = 5 \<and> headless_action cfg = HDeny \<and> \<not> randomize_buttons cfg \<and>
          min_display_time_ms cfg = 1000 \<and> title cfg = lit ''Custom'')"

definition load_from_missing_file_returns_defaults :: "toml_parser \<Rightarrow> bool" where
  "load_from_missing_file_returns_defaults parse \<longleftrightarrow>
     (let doc = fst (load_from (schema_from_str [] parse) (\<lambda>_. Inl (NotFound [])) (lit ''/nonexistent/sentinel.conf''))
      in g_timeout (d_general doc) = 30 \<and> d_services doc = Map.empty)"

definition load_from_real_file_round_trips :: "toml_parser \<Rightarrow> ustr \<Rightarrow> bool" where
  "load_from_real_file_round_trips parse path \<longleftrightarrow>
     (let doc = fst (load_from (schema_from_str [] parse) (\<lambda>p. if p = path then Inr file_text else Inl (NotFound [])) path)
      in g_timeout (d_general doc) = 12)"

definition remember_scope_parses_and_inherits :: "toml_parser \<Rightarrow> bool" where
  "remember_scope_parses_and_inherits parse \<longleftrightarrow>
     from_toml parse general_text (\<lambda>doc. g_remember_scope (d_general doc) = ScopeCommand \<and>
       remember_scope (for_service doc (lit ''sudo'')) = ScopeCommand) \<and>
     from_toml parse program_text (\<lambda>doc. remember_scope (for_service doc (lit ''sudo'')) = ScopeProgram \<and>
       remember_scope (for_service doc POLKIT_PAM_SERVICE) = ScopeProgram) \<and>
     from_toml parse scoped_text (\<lambda>doc. remember_scope (for_service doc (lit ''sudo'')) = ScopeCommand \<and>
       remember_scope (for_service doc POLKIT_PAM_SERVICE) = ScopeProgram) \<and>
     (case schema_from_str [] parse prgram_text of Inl e \<Rightarrow> True | Inr doc \<Rightarrow> False)"

subsection \<open>Render mode\<close>

definition args_with_flags :: "bool \<Rightarrow> bool \<Rightarrow> cli_args" where
  "args_with_flags windowed layer_shell =
     \<lparr>ca_title = [], ca_message = [], ca_secondary = [], ca_process_exe = None, ca_process_cmdline = None,
      ca_process_pid = None, ca_process_cwd = None, ca_requesting_user = None, ca_action = None,
      ca_timeout = 30, ca_min_time = 500, ca_randomize = False, ca_windowed = windowed,
      ca_layer_shell = layer_shell, ca_sound_name = [], ca_remember_secs = 0\<rparr>"

definition windowed_flag_wins :: bool where
  "windowed_flag_wins \<longleftrightarrow>
     list_all (\<lambda>(d, r). effective_render_mode (args_with_flags True False) (Some (lit d)) = r)
       [(''COSMIC'', Windowed), (''GNOME'', Windowed)]"

definition layer_shell_flag_overrides_heuristic :: bool where
  "layer_shell_flag_overrides_heuristic \<longleftrightarrow>
     list_all (\<lambda>(d, r). effective_render_mode (args_with_flags False True) (Some (lit d)) = r)
       [(''GNOME'', LayerShell)]"

definition auto_falls_back_on_mutter :: bool where
  "auto_falls_back_on_mutter \<longleftrightarrow>
     list_all (\<lambda>(d, r). effective_render_mode (args_with_flags False False) (Some (lit d)) = r)
       [(''GNOME'', Windowed), (''ubuntu:GNOME'', Windowed), (''Pantheon'', Windowed)]"

definition auto_uses_layer_shell_on_wlroots_family :: bool where
  "auto_uses_layer_shell_on_wlroots_family \<longleftrightarrow>
     list_all (\<lambda>(d, r). effective_render_mode (args_with_flags False False) (Some (lit d)) = r)
       [(''COSMIC'', LayerShell), (''Hyprland'', LayerShell), (''KDE'', LayerShell)]"

definition missing_env_treats_as_unknown_layer_shell :: bool where
  "missing_env_treats_as_unknown_layer_shell \<longleftrightarrow>
     effective_render_mode (args_with_flags False False) None = LayerShell"

definition desktop_blocklist_matches_gnome :: bool where
  "desktop_blocklist_matches_gnome \<longleftrightarrow>
     desktop_lacks_layer_shell (lit ''GNOME'') \<and> desktop_lacks_layer_shell (lit ''ubuntu:GNOME'')"

definition desktop_blocklist_allows_wlroots :: bool where
  "desktop_blocklist_allows_wlroots \<longleftrightarrow>
     list_all (\<lambda>x. \<not> desktop_lacks_layer_shell (lit x)) [''COSMIC'', ''Hyprland'', ''KDE'']"

subsection \<open>Command lines\<close>

definition parses_minimal_invocation :: "arg_parser \<Rightarrow> bool" where
  "parses_minimal_invocation clap \<longleftrightarrow>
     (case parse_cli clap (map lit [''--title'', ''T'', ''--message'', ''M'']) of
        Some a \<Rightarrow> ca_title a = lit ''T'' \<and> ca_message a = lit ''M'' \<and> ca_timeout a = 30 \<and>
          ca_min_time a = 500 \<and> \<not> ca_randomize a
      | None \<Rightarrow> False)"

definition layer_shell_conflicts_with_windowed :: "arg_parser \<Rightarrow> bool" where
  "layer_shell_conflicts_with_windowed clap \<longleftrightarrow>
     parse_cli clap (map lit [''--windowed'', ''--layer-shell'']) = None"

subsection \<open>Interface texts\<close>

definition english_is_source_and_fallback :: bool where
  "english_is_source_and_fallback \<longleftrightarrow>
     translate (lit ''allow'') (lit ''en'') = lit ''Allow'' \<and> translate (lit ''allow'') (lit ''xx'') = lit ''Allow'' \<and>
      translate (lit ''nope'') (lit ''de'') = lit ''?''"

definition localized_strings_resolve :: bool where
  "localized_strings_resolve \<longleftrightarrow>
     translate (lit ''allow'') (lit ''de'') = lit ''Erlauben'' \<and> translate (lit ''deny'') (lit ''es'') = lit ''Denegar'' \<and>
      translate (lit ''detail-cwd'') (lit ''de'') = lit ''Arbeitsverzeichnis'' \<and>
      contains (lit ''%1'') (translate (lit ''auto-deny-in'') (lit ''es''))"

definition every_locale_covers_all_keys :: bool where
  "every_locale_covers_all_keys \<longleftrightarrow>
     (let locales = [ui_en, ui_de, ui_es, ui_fr, ui_it, ui_ja, ui_nl, ui_pl, ui_pt, ui_ru, ui_tr, ui_zh]
      in list_all (\<lambda>key.
           list_all (\<lambda>f. f key \<noteq> None) locales \<and>
           (key = lit ''auto-deny-in'' \<longrightarrow>
              list_all (\<lambda>f. case f key of Some s \<Rightarrow> contains (lit ''%1'') s | None \<Rightarrow> False) locales))
         (map lit [''allow'', ''deny'', ''show-details'', ''hide-details'', ''auto-deny-in'', ''title-default'',
            ''detail-action'', ''detail-command'', ''detail-pid'', ''detail-requested-by'', ''detail-cwd'']))"

definition ui_lang_parses_posix_locale :: bool where
  "ui_lang_parses_posix_locale \<longleftrightarrow>
     to_ascii_lowercase (hd (split_on (\<lambda>c. c \<in> {95, 46, 64}) (lit ''pt_BR.UTF-8''))) = lit ''pt''"

subsection \<open>Lemmas\<close>

named_theorems test_eval \<open>definitions the tests evaluate\<close>

declare test_policy_def [test_eval] doc_with_services_def [test_eval] decide_def [test_eval]
  list_matches_def [test_eval] entry_matches_def [test_eval] process_basename_def [test_eval]
  default_defs [test_eval] for_service_def [test_eval] base_config_def [test_eval]
  apply_override_def [test_eval] POLKIT_PAM_SERVICE_def [test_eval] quote_def [test_eval]
  needs_quoting_def [test_eval] outcome_from_str_def [test_eval] is_allow_def [test_eval]
  verdict_from_str_def [test_eval] verdict_display_def [test_eval] REMEMBER_TOKEN_def [test_eval]
  strip_elevation_prefix_def [test_eval] leading_basename_def [test_eval] ELEVATION_TOOLS_def [test_eval]
  ELEVATION_FLAGS_WITH_VALUE_def [test_eval] remember_eligible_command_def [test_eval]
  REMEMBER_INELIGIBLE_def [test_eval] remember_key_command_def [test_eval]
  args_with_flags_def [test_eval] effective_render_mode_def [test_eval]
  desktop_lacks_layer_shell_def [test_eval] mutter_desktops_def [test_eval]
  eq_ignore_ascii_case_def [test_eval] to_ascii_lowercase_def [test_eval]

lemma policy_tests:
  policy_empty_always_asks policy_allow_matches_basename_and_full_path
  policy_deny_wins_over_allow policy_matches_polkit_action_id
  by (simp_all add: str_eval test_eval
      policy_empty_always_asks_def policy_allow_matches_basename_and_full_path_def
      policy_deny_wins_over_allow_def policy_matches_polkit_action_id_def)

lemma format_message_tests:
  format_message_substitutes_all_tokens format_message_handles_literal_percent
  format_message_preserves_unknown_tokens format_message_trailing_percent_is_kept
  format_message_empty_template format_message_no_substitutions
  by (simp_all add: str_eval test_eval
      format_message_substitutes_all_tokens_def format_message_handles_literal_percent_def
      format_message_preserves_unknown_tokens_def format_message_trailing_percent_is_kept_def
      format_message_empty_template_def format_message_no_substitutions_def)

lemma service_tests:
  service_config_uses_general_defaults_for_unknown_service
  service_config_per_service_override_wins service_config_partial_override_inherits_rest
  service_config_other_services_unaffected remember_default_is_300_on_gui_path
  remember_terminal_paths_default_off remember_terminal_opt_in_via_service_override
  remember_gui_off_switch_via_service_override
  by (simp_all add: str_eval test_eval
      service_config_uses_general_defaults_for_unknown_service_def
      service_config_per_service_override_wins_def
      service_config_partial_override_inherits_rest_def
      service_config_other_services_unaffected_def remember_default_is_300_on_gui_path_def
      remember_terminal_paths_default_off_def
      remember_terminal_opt_in_via_service_override_def
      remember_gui_off_switch_via_service_override_def)

lemma quote_tests:
  log_kv_bare_token_unquoted log_kv_whitespace_gets_quoted log_kv_internal_quotes_escaped
  log_kv_empty_becomes_quoted_empty log_kv_equals_sign_gets_quoted log_kv_backslash_escaped
  by (simp_all add: str_eval test_eval
      log_kv_bare_token_unquoted_def log_kv_whitespace_gets_quoted_def
      log_kv_internal_quotes_escaped_def log_kv_empty_becomes_quoted_empty_def
      log_kv_equals_sign_gets_quoted_def log_kv_backslash_escaped_def)

lemma verdict_tests:
  outcome_display_strings_are_stable_protocol outcome_round_trips_through_str
  outcome_from_str_strips_whitespace outcome_unknown_is_error outcome_exit_code_allow_is_zero
  outcome_is_allow_helper verdict_wire_round_trips_and_is_backward_compatible
  by (simp_all add: str_eval test_eval
      outcome_display_strings_are_stable_protocol_def outcome_round_trips_through_str_def
      outcome_from_str_strips_whitespace_def outcome_unknown_is_error_def
      outcome_exit_code_allow_is_zero_def outcome_is_allow_helper_def
      verdict_wire_round_trips_and_is_backward_compatible_def)

lemma elevation_tests:
  process_basename_strips_dirname process_basename_handles_no_directory
  process_basename_returns_none_for_path_only_dots
  strip_elevation_passes_through_non_elevation_cmdline strip_elevation_handles_pkexec
  strip_elevation_handles_sudo strip_elevation_skips_chroot_value strip_elevation_handles_su
  strip_elevation_handles_doas strip_elevation_with_absolute_path
  strip_elevation_returns_empty_for_no_command strip_elevation_empty_input
  by (simp_all add: str_eval test_eval
      process_basename_strips_dirname_def process_basename_handles_no_directory_def
      process_basename_returns_none_for_path_only_dots_def
      strip_elevation_passes_through_non_elevation_cmdline_def
      strip_elevation_handles_pkexec_def strip_elevation_handles_sudo_def
      strip_elevation_skips_chroot_value_def strip_elevation_handles_su_def
      strip_elevation_handles_doas_def strip_elevation_with_absolute_path_def
      strip_elevation_returns_empty_for_no_command_def strip_elevation_empty_input_def)

lemma eligible_tests:
  remember_eligible_accepts_concrete_commands
  remember_eligible_rejects_shells_interpreters_nesting
  remember_eligible_rejects_shell_escapers remember_eligible_rejects_empty
  remember_key_command_scopes remember_eligible_matches_by_basename_not_substring
  by (simp_all add: str_eval test_eval
      remember_eligible_accepts_concrete_commands_def
      remember_eligible_rejects_shells_interpreters_nesting_def
      remember_eligible_rejects_shell_escapers_def remember_eligible_rejects_empty_def
      remember_key_command_scopes_def remember_eligible_matches_by_basename_not_substring_def)

lemma render_mode_tests:
  windowed_flag_wins layer_shell_flag_overrides_heuristic auto_falls_back_on_mutter
  auto_uses_layer_shell_on_wlroots_family missing_env_treats_as_unknown_layer_shell
  desktop_blocklist_matches_gnome desktop_blocklist_allows_wlroots
  by (simp_all add: str_eval test_eval
      windowed_flag_wins_def layer_shell_flag_overrides_heuristic_def
      auto_falls_back_on_mutter_def auto_uses_layer_shell_on_wlroots_family_def
      missing_env_treats_as_unknown_layer_shell_def desktop_blocklist_matches_gnome_def
      desktop_blocklist_allows_wlroots_def)

lemma complete_tables_cover:
  assumes "list_all complete_table fs"
  shows "list_all (\<lambda>key. list_all (\<lambda>f. f key \<noteq> None) fs \<and>
     (key = lit ''auto-deny-in'' \<longrightarrow>
        list_all (\<lambda>f. case f key of Some s \<Rightarrow> contains (lit ''%1'') s | None \<Rightarrow> False) fs)) ui_keys"
  using assms by (fastforce simp: list_all_iff complete_table_def simp del: lit_simps)

lemma locale_tests: every_locale_covers_all_keys
  unfolding every_locale_covers_all_keys_def Let_def
  by (rule complete_tables_cover [unfolded ui_keys_def]) (simp add: complete_tables)

lemma text_tests: english_is_source_and_fallback localized_strings_resolve ui_lang_parses_posix_locale
  by (simp_all add: english_is_source_and_fallback_def localized_strings_resolve_def
    ui_lang_parses_posix_locale_def translate_def localized_def ui_en_def ui_de_def ui_es_def str_eval to_ascii_lowercase_def)

lemma logind_tests:
  "parse_kv_ignores_comments_and_blanks" "parse_kv_handles_values_with_equals"
  "safe_session_id_accepts_typical" "safe_session_id_rejects_path_traversal_and_garbage"
proof -
  have "parse_kv (join [10] (map lit [''# header'', ''FOO=bar'', [], ''BAZ=qux'', ''# tail''])) =
      [lit ''FOO'' \<mapsto> lit ''bar'', lit ''BAZ'' \<mapsto> lit ''qux'']"
    by (simp add: parse_kv_def str_eval List.map_filter_simps)
  then show "parse_kv_ignores_comments_and_blanks"
    unfolding parse_kv_ignores_comments_and_blanks_def by (simp add: Let_def)
  show "parse_kv_handles_values_with_equals"
    by (simp add: parse_kv_handles_values_with_equals_def parse_kv_def str_eval List.map_filter_simps)
  show "safe_session_id_accepts_typical" "safe_session_id_rejects_path_traversal_and_garbage"
    by (simp_all add: safe_session_id_accepts_typical_def safe_session_id_rejects_path_traversal_and_garbage_def
        is_safe_session_id_def is_ascii_alphanumeric_def str_len_def len_utf8_def numeral_eq_Suc)
qed

lemmas shared_tests = policy_tests logind_tests format_message_tests service_tests quote_tests verdict_tests
  elevation_tests eligible_tests render_mode_tests locale_tests text_tests

lemma toml_tree:
  assumes "toml_reads parse" "(s, t) \<in> set toml_texts"
  shows "schema_from_str [] parse s = (case document_of_toml t of None \<Rightarrow> Inl [] | Some d \<Rightarrow> Inr d)"
  using assms by (auto simp: toml_reads_def list_all_iff schema_from_str_def)

lemma toml_trees:
  assumes "toml_reads parse"
  shows "list_all (\<lambda>(s, t). schema_from_str [] parse s =
     (case document_of_toml t of None \<Rightarrow> Inl [] | Some d \<Rightarrow> Inr d)) toml_texts"
  using toml_tree [OF assms] by (auto simp: list_all_iff)

lemmas toml_eval = toml_texts_def from_toml_def table_of_def field_or_def field_opt_def override_keys_def
  toml_remember_scope_def toml_headless_action_def load_from_def

lemma toml_tests:
  assumes "toml_reads parse"
  shows "policy_parses_from_toml parse" "remember_serde_default_applies_when_key_absent parse"
    "remember_explicit_zero_is_preserved parse" "service_override_unknown_field_is_a_parse_error parse"
    "parses_full_config_toml parse" "load_from_missing_file_returns_defaults parse"
    "load_from_real_file_round_trips parse path" "remember_scope_parses_and_inherits parse"
  using toml_trees [OF assms]
  by (simp_all add: toml_eval test_eval policy_parses_from_toml_def
      remember_serde_default_applies_when_key_absent_def remember_explicit_zero_is_preserved_def
      service_override_unknown_field_is_a_parse_error_def parses_full_config_toml_def
      load_from_missing_file_returns_defaults_def load_from_real_file_round_trips_def
      remember_scope_parses_and_inherits_def)

lemma cli_tests:
  assumes "clap_reads clap cli_decls"
  shows "parses_minimal_invocation clap" "layer_shell_conflicts_with_windowed clap"
proof -
  let ?m = "[Given (lit ''title'') (lit ''T''), Given (lit ''message'') (lit ''M'')]"
    and ?c = "[Alone (lit ''windowed''), Alone (lit ''layer-shell'')]"
  have read: "declared cli_decls is \<Longrightarrow> clap cli_decls (cli_words is) =
      (if list_all (item_ok cli_decls) is \<and> no_conflict cli_decls (map item_name is)
       then Some (map_of (map item_entry is)) else None)" for "is"
    using assms by (simp add: clap_reads_def)
  note defs = cli_words_def long_name_def declared_def no_conflict_def cli_decls_def value_arg_def flag_arg_def cli_value_def
  have "declared cli_decls ?m" "declared cli_decls ?c" by (simp_all add: defs)
  note r = this [THEN read]
  have "map lit [''--title'', ''T'', ''--message'', ''M''] = cli_words ?m" by (simp add: defs)
  moreover have "clap cli_decls (cli_words ?m) = Some (map_of (map item_entry ?m))"
    unfolding r(1) by (simp add: defs)
  ultimately show "parses_minimal_invocation clap"
    by (simp add: parses_minimal_invocation_def parse_cli_def args_of_matches_def if_given_def with_default_def)
  have "map lit [''--windowed'', ''--layer-shell''] = cli_words ?c" by (simp add: defs)
  moreover have "clap cli_decls (cli_words ?c) = None" unfolding r(2) by (simp add: defs)
  ultimately show "layer_shell_conflicts_with_windowed clap"
    by (simp add: layer_shell_conflicts_with_windowed_def parse_cli_def)
qed

subsection \<open>Properties\<close>

text \<open>The model passes the unit tests of the shared crate: every assertion of the policy, session, template,
  service, quoting, verdict, elevation, eligibility, render mode and translation tests holds of
  the definitions that stand for the tested functions.\<close>

theorem shared_suite_passes:
  "list_all (\<lambda>test. test)
     [policy_empty_always_asks, policy_allow_matches_basename_and_full_path,
      policy_deny_wins_over_allow, policy_matches_polkit_action_id,
      parse_kv_ignores_comments_and_blanks, parse_kv_handles_values_with_equals,
      safe_session_id_accepts_typical, safe_session_id_rejects_path_traversal_and_garbage,
      format_message_substitutes_all_tokens, format_message_handles_literal_percent,
      format_message_preserves_unknown_tokens, format_message_trailing_percent_is_kept,
      format_message_empty_template, format_message_no_substitutions,
      service_config_uses_general_defaults_for_unknown_service,
      service_config_per_service_override_wins, service_config_partial_override_inherits_rest,
      service_config_other_services_unaffected, remember_default_is_300_on_gui_path,
      remember_terminal_paths_default_off, remember_terminal_opt_in_via_service_override,
      remember_gui_off_switch_via_service_override, log_kv_bare_token_unquoted,
      log_kv_whitespace_gets_quoted, log_kv_internal_quotes_escaped,
      log_kv_empty_becomes_quoted_empty, log_kv_equals_sign_gets_quoted,
      log_kv_backslash_escaped, outcome_display_strings_are_stable_protocol,
      outcome_round_trips_through_str, outcome_from_str_strips_whitespace,
      outcome_unknown_is_error, outcome_exit_code_allow_is_zero, outcome_is_allow_helper,
      verdict_wire_round_trips_and_is_backward_compatible, process_basename_strips_dirname,
      process_basename_handles_no_directory, process_basename_returns_none_for_path_only_dots,
      strip_elevation_passes_through_non_elevation_cmdline, strip_elevation_handles_pkexec,
      strip_elevation_handles_sudo, strip_elevation_skips_chroot_value,
      strip_elevation_handles_su, strip_elevation_handles_doas,
      strip_elevation_with_absolute_path, strip_elevation_returns_empty_for_no_command,
      strip_elevation_empty_input, remember_eligible_accepts_concrete_commands,
      remember_eligible_rejects_shells_interpreters_nesting,
      remember_eligible_rejects_shell_escapers, remember_eligible_rejects_empty,
      remember_key_command_scopes, remember_eligible_matches_by_basename_not_substring,
      windowed_flag_wins, layer_shell_flag_overrides_heuristic, auto_falls_back_on_mutter,
      auto_uses_layer_shell_on_wlroots_family, missing_env_treats_as_unknown_layer_shell,
      desktop_blocklist_matches_gnome, desktop_blocklist_allows_wlroots,
      english_is_source_and_fallback, localized_strings_resolve, every_locale_covers_all_keys,
      ui_lang_parses_posix_locale]"
  by (simp only: list.pred_inject shared_tests simp_thms)

text \<open>The tests that parse a configuration text or a command line hold for every parser that reads
  their texts as documented.\<close>

theorem parser_suite_passes:
  assumes "toml_reads parse" "clap_reads clap cli_decls"
  shows "list_all (\<lambda>test. test)
     [policy_parses_from_toml parse, remember_serde_default_applies_when_key_absent parse,
      remember_explicit_zero_is_preserved parse, service_override_unknown_field_is_a_parse_error parse,
      parses_full_config_toml parse, load_from_missing_file_returns_defaults parse,
      load_from_real_file_round_trips parse path, remember_scope_parses_and_inherits parse,
      parses_minimal_invocation clap, layer_shell_conflicts_with_windowed clap]"
  by (simp only: list.pred_inject toml_tests [OF assms(1)] cli_tests [OF assms(2)] simp_thms)

lemma toml_texts_distinct: "distinct (map fst toml_texts)"
  by (simp add: toml_texts_def policy_text_def timeout_text_def zero_text_def typo_text_def full_text_def
      file_text_def general_text_def program_text_def scoped_text_def prgram_text_def toml_lines_def)

text \<open>A parser that knows the texts.\<close>

definition example_toml :: toml_parser where
  "example_toml s = (case map_of toml_texts s of Some t \<Rightarrow> Inr t | None \<Rightarrow> Inl [])"

lemma example_toml_reads: "toml_reads example_toml"
  using toml_texts_distinct by (auto simp: toml_reads_def list_all_iff example_toml_def)

theorem parser_suite_passes_witness:
  "parses_full_config_toml example_toml \<and> remember_scope_parses_and_inherits example_toml \<and>
   parses_minimal_invocation example_clap"
  using parser_suite_passes [OF example_toml_reads example_clap_reads] by simp

end
