(* ===== verification/Tests_Auth.thy ===== *)
theory Tests_Auth
  imports Broker Pam_Module Agent_Session
begin

text \<open>
  The tests of the broker, its protocol and its client, of the PAM module and of the agent, and
  the agent's integration test (\<open>sentinel-polkit-agent/tests/agent_flow.rs\<close>), transcribed like
  those of the shared crate: one definition per test function, under its name. The clock is a
  sequence of readings; the tests hold for every clock on which they take less than a second,
  which is what the originals rely on. The codec, the poll time and the file system are
  arguments, as in the model. Left out are the tests of the codec alone, the ones that only
  assert that nothing panics, and the socket of the file system under the socket tests, where a
  connection is the stream between the two ends.
\<close>

definition prompt :: "(nat \<Rightarrow> instant) \<Rightarrow> bool" where
  "prompt clk \<longleftrightarrow> (\<forall>i. clk 0 \<le> clk i \<and> clk i < clk 0 + from_secs 1)"

subsection \<open>The broker's protocol\<close>

definition test_key :: remember_key where
  "test_key = \<lparr>loginuid = 1000, sessionid = 3, service = lit ''sudo'', command = lit ''pacman -Syu''\<rparr>"

definition framed_round_trip :: "request encoder \<Rightarrow> request decoder \<Rightarrow> bool" where
  "framed_round_trip enc dec \<longleftrightarrow>
     (let req = CheckRemember \<lparr>q_key = test_key, q_ttl_secs = 60\<rparr>
      in case write_frame buffer_ops enc [] req of
           Inl e \<Rightarrow> False
         | Inr buf \<Rightarrow> (case read_frame buffer_ops dec buf of Inl e \<Rightarrow> False | Inr (m, r) \<Rightarrow> m = req))"

definition oversized_length_is_rejected_before_alloc :: "request decoder \<Rightarrow> bool" where
  "oversized_length_is_rejected_before_alloc dec \<longleftrightarrow>
     (case read_frame buffer_ops dec (to_le_bytes u32_max @ [106, 117, 110, 107]) of
        Inl (TooLarge n) \<Rightarrow> True | _ \<Rightarrow> False)"

definition truncated_body_errors :: "request decoder \<Rightarrow> bool" where
  "truncated_body_errors dec \<longleftrightarrow>
     (case read_frame buffer_ops dec (to_le_bytes 10 @ [170, 187]) of Inl e \<Rightarrow> True | Inr r \<Rightarrow> False)"

definition bindable_rejects_unbound_keys :: bool where
  "bindable_rejects_unbound_keys \<longleftrightarrow>
     is_bindable test_key \<and> \<not> is_bindable (test_key\<lparr>loginuid := u32_max\<rparr>) \<and>
     \<not> is_bindable (test_key\<lparr>command := []\<rparr>)"

definition bind_gates_construction :: bool where
  "bind_gates_construction \<longleftrightarrow>
     bind_key test_key \<noteq> None \<and> bind_key (test_key\<lparr>sessionid := u32_max\<rparr>) = None \<and>
     bind_key (test_key\<lparr>command := []\<rparr>) = None"

subsection \<open>The broker's store and server\<close>

definition bound :: "string \<Rightarrow> bound_key" where
  "bound cmd = the (bind_key
     \<lparr>loginuid = 1000, sessionid = 3, service = lit ''sudo'', command = lit cmd\<rparr>)"

definition record_then_fresh :: "(nat \<Rightarrow> instant) \<Rightarrow> bool" where
  "record_then_fresh clk \<longleftrightarrow>
     \<not> store_is_fresh store_new (bound ''pacman -Syu'') 60 (clk 0) \<and>
     store_is_fresh (store_record store_new (bound ''pacman -Syu'') (clk 1)) (bound ''pacman -Syu'') 60 (clk 2)"

definition full_command_is_the_key :: "(nat \<Rightarrow> instant) \<Rightarrow> bool" where
  "full_command_is_the_key clk \<longleftrightarrow>
     \<not> store_is_fresh (store_record store_new (bound ''pacman -Syu'') (clk 0)) (bound ''pacman -U /tmp/evil'') 60 (clk 1)"

definition distinct_service_user_session_dont_match :: "(nat \<Rightarrow> instant) \<Rightarrow> bool" where
  "distinct_service_user_session_dont_match clk \<longleftrightarrow>
     (let s = store_record store_new (bound ''pacman -Syu'') (clk 0)
      in list_all (\<lambda>(i, k). case bind_key k of None \<Rightarrow> False | Some b \<Rightarrow> \<not> store_is_fresh s b 60 (clk i))
           [(1, test_key\<lparr>service := lit ''su''\<rparr>), (2, test_key\<lparr>loginuid := 1001\<rparr>),
            (3, test_key\<lparr>sessionid := 99\<rparr>)])"

definition zero_ttl_never_fresh :: "(nat \<Rightarrow> instant) \<Rightarrow> bool" where
  "zero_ttl_never_fresh clk \<longleftrightarrow>
     \<not> store_is_fresh (store_record store_new (bound ''pacman -Syu'') (clk 0)) (bound ''pacman -Syu'') 0 (clk 1)"

definition unbound_keys_cannot_reach_the_store :: bool where
  "unbound_keys_cannot_reach_the_store \<longleftrightarrow>
     (let k = test_key\<lparr>loginuid := u32_max\<rparr>; k' = k\<lparr>loginuid := 1000, command := []\<rparr>
      in bind_key k = None \<and> bind_key k' = None)"

definition dispatch_ping_record_check :: "(nat \<Rightarrow> instant) \<Rightarrow> bool" where
  "dispatch_ping_record_check clk \<longleftrightarrow>
     (let check = CheckRemember \<lparr>q_key = test_key, q_ttl_secs = 60\<rparr>;
          (r0, s0) = dispatch Ping store_new (clk 0);
          (r1, s1) = dispatch check s0 (clk 1);
          (r2, s2) = dispatch (RecordRemember test_key) s1 (clk 2);
          (r3, s3) = dispatch check s2 (clk 3)
      in r0 = Pong PROTOCOL_VERSION \<and> r1 = Remember False \<and> r2 = Recorded \<and> r3 = Remember True)"

definition unbindable_record_errors :: "(nat \<Rightarrow> instant) \<Rightarrow> bool" where
  "unbindable_record_errors clk \<longleftrightarrow>
     (case fst (dispatch (RecordRemember (test_key\<lparr>command := []\<rparr>)) store_new (clk 0)) of
        Error e \<Rightarrow> True | _ \<Rightarrow> False)"

text \<open>One connection of the socket test: the client writes, the server handles without the root
  check, the client reads; the pair of byte streams is the socket, seen from the server.\<close>

definition exchange ::
  "request encoder \<Rightarrow> request decoder \<Rightarrow> response encoder \<Rightarrow> response decoder \<Rightarrow> instant \<Rightarrow>
     request \<Rightarrow> remember_store \<Rightarrow> response option \<times> remember_store" where
  "exchange encq decq encr decr now req store =
     (case write_frame buffer_ops encq [] req of
        Inl e \<Rightarrow> (None, store)
      | Inr sent \<Rightarrow>
          (case handle socket_ops decq encr (Inl []) False now (sent, []) store of
             ((_, reply), store1, _) \<Rightarrow>
               (case read_frame buffer_ops decr reply of
                  Inl e \<Rightarrow> (None, store1)
                | Inr (resp, _) \<Rightarrow> (Some resp, store1))))"

definition socket_round_trip ::
  "request encoder \<Rightarrow> request decoder \<Rightarrow> response encoder \<Rightarrow> response decoder \<Rightarrow> (nat \<Rightarrow> instant) \<Rightarrow> bool" where
  "socket_round_trip encq decq encr decr clk \<longleftrightarrow>
     (let (r1, s1) = exchange encq decq encr decr (clk 0) (RecordRemember test_key) store_new;
          (r2, s2) = exchange encq decq encr decr (clk 1)
            (CheckRemember \<lparr>q_key = test_key, q_ttl_secs = 60\<rparr>) s1
      in r1 = Some Recorded \<and> r2 = Some (Remember True))"

subsection \<open>The broker's client\<close>

text \<open>The mock broker: one request is read, the canned response written. The connection remembers
  what was sent, what is left of the reply, and the request the mock saw.\<close>

record mock =
  mk_sent :: "byte list"
  mk_reply :: "byte list"
  mk_seen :: "request option"

definition mock_replies :: "request decoder \<Rightarrow> response encoder \<Rightarrow> response \<Rightarrow> mock \<Rightarrow> mock" where
  "mock_replies decq encr canned m =
     (if mk_seen m \<noteq> None then m
      else
        (case read_frame buffer_ops decq (mk_sent m) of
           Inl e \<Rightarrow> m
         | Inr (req, _) \<Rightarrow>
             (case write_frame buffer_ops encr [] canned of
                Inl e \<Rightarrow> m
              | Inr reply \<Rightarrow> m\<lparr>mk_reply := reply, mk_seen := Some req\<rparr>)))"

definition mock_ops :: "request decoder \<Rightarrow> response encoder \<Rightarrow> response \<Rightarrow> mock stream_ops" where
  "mock_ops decq encr canned =
     \<lparr>so_read_exact = (\<lambda>m n. let m1 = mock_replies decq encr canned m
        in if n \<le> length (mk_reply m1)
           then Inr (take n (mk_reply m1), m1\<lparr>mk_reply := drop n (mk_reply m1)\<rparr>)
           else Inl (lit ''failed to fill whole buffer'')),
      so_write_all = (\<lambda>m bytes. Inr (m\<lparr>mk_sent := mk_sent m @ bytes\<rparr>)),
      so_flush = (\<lambda>m. Inr m)\<rparr>"

definition mock_broker ::
  "request encoder \<Rightarrow> request decoder \<Rightarrow> response encoder \<Rightarrow> response decoder \<Rightarrow> response \<Rightarrow> request \<Rightarrow>
     (response \<times> mock) option" where
  "mock_broker encq decq encr decr canned req =
     roundtrip_at (\<lambda>_. Some \<lparr>mk_sent = [], mk_reply = [], mk_seen = None\<rparr>) (mock_ops decq encr canned)
       encq decr DEFAULT_SOCK req"

definition fresh_true_round_trip ::
  "request encoder \<Rightarrow> request decoder \<Rightarrow> response encoder \<Rightarrow> response decoder \<Rightarrow> bool" where
  "fresh_true_round_trip encq decq encr decr \<longleftrightarrow>
     (case mock_broker encq decq encr decr (Remember True) (CheckRemember \<lparr>q_key = test_key, q_ttl_secs = 60\<rparr>) of
        Some (resp, m) \<Rightarrow> resp = Remember True \<and> (case mk_seen m of Some (CheckRemember q) \<Rightarrow> True | _ \<Rightarrow> False)
      | None \<Rightarrow> False)"

definition unreachable_broker_fails_closed :: "request encoder \<Rightarrow> response decoder \<Rightarrow> bool" where
  "unreachable_broker_fails_closed encq decr \<longleftrightarrow>
     roundtrip_at (\<lambda>_. None) buffer_ops encq decr (lit ''/nonexistent/sentinel/broker.sock'') Ping = None"

definition error_response_is_not_fresh ::
  "request encoder \<Rightarrow> request decoder \<Rightarrow> response encoder \<Rightarrow> response decoder \<Rightarrow> bool" where
  "error_response_is_not_fresh encq decq encr decr \<longleftrightarrow>
     map_option fst (mock_broker encq decq encr decr (Error (lit ''nope''))
       (CheckRemember \<lparr>q_key = test_key, q_ttl_secs = 60\<rparr>)) \<noteq> Some (Remember True)"

definition record_sends_record_request ::
  "request encoder \<Rightarrow> request decoder \<Rightarrow> response encoder \<Rightarrow> response decoder \<Rightarrow> bool" where
  "record_sends_record_request encq decq encr decr \<longleftrightarrow>
     (case mock_broker encq decq encr decr Recorded (RecordRemember test_key) of
        Some (resp, m) \<Rightarrow> (case mk_seen m of Some (RecordRemember k) \<Rightarrow> True | _ \<Rightarrow> False)
      | None \<Rightarrow> False)"

definition decode_does_not_panic_on_garbage_reply :: "response decoder \<Rightarrow> bool" where
  "decode_does_not_panic_on_garbage_reply dec \<longleftrightarrow>
     (case read_frame buffer_ops dec (replicate 8 255) of Inl e \<Rightarrow> True | Inr r \<Rightarrow> False)"

subsection \<open>The PAM module\<close>

definition remember_command_for_trims_and_gates :: bool where
  "remember_command_for_trims_and_gates \<longleftrightarrow>
     remember_command_for (lit ''  pacman -Syu  '') = Some (lit ''pacman -Syu'') \<and>
     remember_command_for (lit ''systemctl restart foo'') = Some (lit ''systemctl restart foo'') \<and>
     list_all (\<lambda>c. remember_command_for (lit c) = None) ['''', ''   '', ''bash'', ''sudo bash'']"

definition accepts_normal_posix_locales :: bool where
  "accepts_normal_posix_locales = list_all (\<lambda>v. is_safe_locale_value (lit v))
     [''en_US.UTF-8'', ''tr_TR.UTF-8'', ''de_DE@euro'', ''sr_RS.UTF-8@latin'', ''C'', ''POSIX'', ''en'']"

definition rejects_empty :: bool where
  "rejects_empty \<longleftrightarrow> \<not> is_safe_locale_value []"

definition rejects_overlong :: bool where
  "rejects_overlong \<longleftrightarrow> \<not> is_safe_locale_value (replicate 33 97)"

definition rejects_nul_bytes :: bool where
  "rejects_nul_bytes \<longleftrightarrow> \<not> is_safe_locale_value (lit ''en'' @ [0] @ lit ''US'')"

definition rejects_path_traversal :: bool where
  "rejects_path_traversal \<longleftrightarrow>
     \<not> is_safe_locale_value (lit ''../etc/shadow'') \<and> \<not> is_safe_locale_value (lit ''en/../'' @ lit ''oo'' @ lit ''ps'')"

definition rejects_shell_metas :: bool where
  "rejects_shell_metas = list_all (\<lambda>v. \<not> is_safe_locale_value (lit v))
     [''en$(whoami)'', ''en;rm'', ''en|cat'', ''en US'']"

definition rejects_control_chars :: bool where
  "rejects_control_chars \<longleftrightarrow>
     \<not> is_safe_locale_value (lit ''en'' @ [10] @ lit ''US'') \<and> \<not> is_safe_locale_value (lit ''en'' @ [9] @ lit ''US'')"

definition read_locale_env_handles_missing_pid :: "fs \<Rightarrow> bool" where
  "read_locale_env_handles_missing_pid w \<longleftrightarrow>
     read_locale_env w (- 1) = Map.empty \<and> read_locale_env w 0 = Map.empty"

definition read_locale_env_for_self_returns_at_least_lang_when_set :: "fs \<Rightarrow> pid \<Rightarrow> bool" where
  "read_locale_env_for_self_returns_at_least_lang_when_set w self \<longleftrightarrow>
     dom (read_locale_env w self) \<subseteq> set FORWARDED_VARS"

definition test_proc :: "string \<Rightarrow> string option \<Rightarrow> process_info" where
  "test_proc exe policy_exe =
     \<lparr>pi_name = lit exe, pi_exe = lit exe, pi_cmdline = [], pi_cwd = [], pi_remember_command = None,
      pi_policy_exe = map_option lit policy_exe\<rparr>"

definition cfg_allow :: "string \<Rightarrow> service_config" where
  "cfg_allow prog =
     (let cfg = for_service document_defaults (lit ''sudo'')
      in cfg\<lparr>policy := (policy cfg)\<lparr>p_allow := [lit prog]\<rparr>, log_attempts := False\<rparr>)"

definition policy_allow_does_not_match_bare_elevation_originator :: "'p pam_host \<Rightarrow> bool" where
  "policy_allow_does_not_match_bare_elevation_originator h \<longleftrightarrow>
     (let cfg = cfg_allow ''topgrade'';
          check = (\<lambda>p. map_option fst (check_policy h cfg (lit ''sudo'') (lit ''root'') p 1000))
      in check (test_proc ''topgrade'' None) = None \<and>
         check (test_proc ''topgrade'' (Some ''topgrade'')) = Some PAM_SUCCESS)"

definition timeout_zero_yields_none :: "'p poll_timeout \<Rightarrow> bool" where
  "timeout_zero_yields_none pt \<longleftrightarrow> parent_poll_timeout pt 0 = pt_NONE pt"

definition timeout_nonzero_adds_grace :: "'p poll_timeout \<Rightarrow> bool" where
  "timeout_nonzero_adds_grace pt \<longleftrightarrow> Some (parent_poll_timeout pt 30) = pt_try_from pt 35000"

definition timeout_overflow_falls_back_to_default_grace :: "'p poll_timeout \<Rightarrow> bool" where
  "timeout_overflow_falls_back_to_default_grace pt \<longleftrightarrow>
     Some (parent_poll_timeout pt u32_max) = pt_try_from pt 35000"

subsection \<open>The agent\<close>

definition unix_user :: "u32 \<Rightarrow> identity" where
  "unix_user uid = (lit ''unix-user'', [lit ''uid'' \<mapsto> VU32 uid])"

definition unix_group :: "u32 \<Rightarrow> identity" where
  "unix_group gid = (lit ''unix-group'', [lit ''gid'' \<mapsto> VU32 gid])"

definition prefers_matching_uid_even_when_listed_later :: bool where
  "prefers_matching_uid_even_when_listed_later \<longleftrightarrow>
     pick [unix_user 0, unix_user 1000, unix_user 1001] 1000 = Some 1000"

definition fails_closed_when_own_uid_absent :: bool where
  "fails_closed_when_own_uid_absent \<longleftrightarrow> pick [unix_user 0, unix_user 1001] 9999 = None"

definition skips_non_unix_user_kinds :: bool where
  "skips_non_unix_user_kinds \<longleftrightarrow> pick [unix_group 0, unix_user 1000] 1000 = Some 1000"

definition returns_none_for_empty_identities :: bool where
  "returns_none_for_empty_identities \<longleftrightarrow> pick [] 1000 = None"

definition returns_none_when_only_non_unix_user :: bool where
  "returns_none_when_only_non_unix_user \<longleftrightarrow> pick [unix_group 100, unix_group 101] 1000 = None"

definition skips_entries_missing_uid_field :: bool where
  "skips_entries_missing_uid_field \<longleftrightarrow> pick [(lit ''unix-user'', Map.empty), unix_user 1000] 1000 = Some 1000"

definition cookie_prefix_short_cookie :: bool where
  "cookie_prefix_short_cookie \<longleftrightarrow> cookie_prefix (lit ''abc'') = lit ''abc''"

definition cookie_prefix_truncates_at_8_chars :: bool where
  "cookie_prefix_truncates_at_8_chars \<longleftrightarrow> cookie_prefix (lit ''0123456789abcdef'') = lit ''01234567''"

definition cookie_prefix_empty_cookie :: bool where
  "cookie_prefix_empty_cookie \<longleftrightarrow> cookie_prefix [] = []"

definition cookie_prefix_handles_multibyte_at_boundary :: bool where
  "cookie_prefix_handles_multibyte_at_boundary \<longleftrightarrow>
     cookie_prefix [12354, 12356, 12358, 12360, 12362, 12363, 12365, 12367, 12369, 12371] =
       [12354, 12356, 12358, 12360, 12362, 12363, 12365, 12367]"

definition strip_pkexec_only_flags_returns_empty :: bool where
  "strip_pkexec_only_flags_returns_empty \<longleftrightarrow> strip_elevation_prefix (lit ''pkexec --user root'') = []"

definition taken :: "approval_queue \<Rightarrow> instant \<Rightarrow> ustr option" where
  "taken q now = map_option action_id (fst (take_one q now))"

definition after_take :: "approval_queue \<Rightarrow> instant \<Rightarrow> approval_queue" where
  "after_take q now = snd (take_one q now)"

definition push_then_take_returns_it :: "(nat \<Rightarrow> instant) \<Rightarrow> bool" where
  "push_then_take_returns_it clk \<longleftrightarrow>
     (let q = push queue_new (lit ''org.example.foo'') (clk 0)
      in taken q (clk 1) = Some (lit ''org.example.foo'') \<and> taken (after_take q (clk 1)) (clk 2) = None)"

definition expired_entries_skipped :: "(nat \<Rightarrow> instant) \<Rightarrow> bool" where
  "expired_entries_skipped clk \<longleftrightarrow>
     (let q = queue_new\<lparr>q_inner := [\<lparr>action_id = lit ''stale'', expires_at = clk 0 - from_secs 1\<rparr>]\<rparr>
      in taken (push q (lit ''fresh'') (clk 1)) (clk 2) = Some (lit ''fresh''))"

definition fifo_order :: "(nat \<Rightarrow> instant) \<Rightarrow> bool" where
  "fifo_order clk \<longleftrightarrow>
     (let q = push (push queue_new (lit ''first'') (clk 0)) (lit ''second'') (clk 1)
      in taken q (clk 2) = Some (lit ''first'') \<and> taken (after_take q (clk 2)) (clk 3) = Some (lit ''second''))"

definition drain_clears_queue :: "(nat \<Rightarrow> instant) \<Rightarrow> bool" where
  "drain_clears_queue clk \<longleftrightarrow> taken (drain (push queue_new (lit ''stale'') (clk 0))) (clk 1) = None"

definition push_drain_push_only_returns_second :: "(nat \<Rightarrow> instant) \<Rightarrow> bool" where
  "push_drain_push_only_returns_second clk \<longleftrightarrow>
     (let q = push (drain (push queue_new (lit ''canceled'') (clk 0))) (lit ''fresh'') (clk 1)
      in taken q (clk 2) = Some (lit ''fresh'') \<and> taken (after_take q (clk 2)) (clk 3) = None)"

definition remembers_exact_command_and_isolates_others :: "(nat \<Rightarrow> instant) \<Rightarrow> bool" where
  "remembers_exact_command_and_isolates_others clk \<longleftrightarrow>
     (let c = cache_remember cache_new (lit ''act'') (lit ''pacman -Syu'') (clk 1)
      in \<not> cache_is_fresh cache_new (lit ''act'') (lit ''pacman -Syu'') 60 (clk 0) \<and>
         cache_is_fresh c (lit ''act'') (lit ''pacman -Syu'') 60 (clk 2) \<and>
         \<not> cache_is_fresh c (lit ''act'') (lit ''pacman -U /tmp/evil'') 60 (clk 3) \<and>
         \<not> cache_is_fresh c (lit ''act'') (lit ''id'') 60 (clk 4) \<and>
         \<not> cache_is_fresh c (lit ''other'') (lit ''pacman -Syu'') 60 (clk 5) \<and>
         \<not> cache_is_fresh c (lit ''act'') (lit ''pacman -Syu'') 0 (clk 6))"

definition pkexec_grant_does_not_blanket_other_commands :: "(nat \<Rightarrow> instant) \<Rightarrow> bool" where
  "pkexec_grant_does_not_blanket_other_commands clk \<longleftrightarrow>
     (let exec = lit ''org.freedesktop.policykit.exec'';
          c = cache_remember cache_new exec (lit ''true'') (clk 0)
      in cache_is_fresh c exec (lit ''true'') 300 (clk 1) \<and>
         \<not> cache_is_fresh c exec (lit ''rm -rf /'') 300 (clk 2) \<and>
         \<not> cache_is_fresh c exec (lit ''id'') 300 (clk 3))"

subsection \<open>The agent's integration test\<close>

definition flow_cfg :: service_config where
  "flow_cfg =
     \<lparr>enabled = True, timeout = 30, randomize_buttons = False, headless_action = HPassword,
      show_process_info = True, log_attempts = False, min_display_time_ms = 0,
      title = lit ''Test Auth'', message = lit ''test'', secondary = [], sound_name = [],
      policy = policy_default, notify_on_deny = False, notify_on_timeout = False,
      remember_seconds = 0, remember_scope = ScopeCommand\<rparr>"

definition flow_inputs :: "string \<Rightarrow> string \<Rightarrow> service_config \<Rightarrow> auth_inputs" where
  "flow_inputs action cookie cfg =
     \<lparr>in_action_id = lit action, in_cookie = lit cookie, in_username = lit ''testuser'', in_cfg = cfg,
      in_process_exe = Some (lit ''/usr/bin/true''), in_process_cmdline = Some (lit ''true''),
      in_process_pid = Some 1, in_process_cwd = Some (lit ''/''), in_requesting_user = Some (lit ''testuser'')\<rparr>"

text \<open>
  \<open>session::run\<close> with the two test seams of the environment set (\<open>None\<close>: removed). Both runners
  read them first, so what lies behind, the spawned dialog and the socket of polkit's helper, is
  an argument no test depends on. Nothing takes an approval meanwhile.
\<close>

record flow_world =
  fw_fs :: fs
  fw_spawn :: "ustr list \<Rightarrow> ui_process"
  fw_helper1 :: helper1_world
  fw_latency :: nat

definition flow_session ::
  "flow_world \<Rightarrow> instant \<Rightarrow> string option \<Rightarrow> string option \<Rightarrow> remember_cache \<Rightarrow> auth_inputs \<Rightarrow> session_out" where
  "flow_session w now outcome helper1 c i =
     (let env = (\<lambda>v. if v = ''SENTINEL_TEST_HELPER_OUTCOME'' then map_option lit outcome
                     else if v = ''SENTINEL_TEST_HELPER1_OUTCOME'' then map_option lit helper1 else None)
      in session_run
           \<lparr>se_fs = fw_fs w, se_dialog = helper_ui_run env (fw_spawn w),
            se_helper1 = (\<lambda>user cookie q. (helper1_run ((fw_helper1 w)\<lparr>hw_env := env\<rparr>) user cookie, q)),
            se_t_fresh = now, se_t_remember = now, se_t_push = now, se_latency_ms = fw_latency w\<rparr>
           queue_new c i)"

definition flow_allow :: "flow_world \<Rightarrow> (nat \<Rightarrow> instant) \<Rightarrow> bool" where
  "flow_allow w clk \<longleftrightarrow>
     so_result (flow_session w (clk 0) (Some ''ALLOW'') (Some ''SUCCESS'') cache_new
       (flow_inputs ''a.allow'' ''ck-a'' flow_cfg)) = Inr True"

definition flow_deny :: "flow_world \<Rightarrow> (nat \<Rightarrow> instant) \<Rightarrow> bool" where
  "flow_deny w clk \<longleftrightarrow>
     (let out = flow_session w (clk 1) (Some ''DENY'') None cache_new (flow_inputs ''a.deny'' ''ck-d'' flow_cfg)
      in so_result out = Inr False \<and> taken (so_queue out) (clk 2) = None)"

definition flow_timeout :: "flow_world \<Rightarrow> (nat \<Rightarrow> instant) \<Rightarrow> bool" where
  "flow_timeout w clk \<longleftrightarrow>
     (let out = flow_session w (clk 3) (Some ''TIMEOUT'') None cache_new (flow_inputs ''a.timeout'' ''ck-t'' flow_cfg)
      in so_result out = Inr False \<and> taken (so_queue out) (clk 4) = None)"

definition flow_remember :: "flow_world \<Rightarrow> (nat \<Rightarrow> instant) \<Rightarrow> bool" where
  "flow_remember w clk \<longleftrightarrow>
     (let rcfg = flow_cfg\<lparr>remember_seconds := 60\<rparr>;
          out1 = flow_session w (clk 5) (Some ''ALLOW'') (Some ''SUCCESS'') cache_new
            (flow_inputs ''a.rem'' ''ck-r1'' rcfg);
          out2 = flow_session w (clk 7) (Some ''ALLOW REMEMBER'') (Some ''SUCCESS'') (so_cache out1)
            (flow_inputs ''a.rem'' ''ck-r2'' rcfg)
      in \<not> cache_is_fresh (so_cache out1) (lit ''a.rem'') (lit ''true'') 60 (clk 6) \<and>
         cache_is_fresh (so_cache out2) (lit ''a.rem'') (lit ''true'') 60 (clk 8))"

definition flow_pkexec :: "flow_world \<Rightarrow> (nat \<Rightarrow> instant) \<Rightarrow> bool" where
  "flow_pkexec w clk \<longleftrightarrow>
     (let rcfg = flow_cfg\<lparr>remember_seconds := 60\<rparr>;
          out = flow_session w (clk 9) (Some ''ALLOW REMEMBER'') (Some ''SUCCESS'') cache_new
            (flow_inputs ''org.freedesktop.policykit.exec'' ''ck-px'' rcfg)
      in cache_is_fresh (so_cache out) (lit ''org.freedesktop.policykit.exec'') (lit ''true'') 60 (clk 10) \<and>
         \<not> cache_is_fresh (so_cache out) (lit ''org.freedesktop.policykit.exec'') (lit ''rm -rf /'') 60 (clk 11))"

definition serialised_session_paths :: "flow_world \<Rightarrow> (nat \<Rightarrow> instant) \<Rightarrow> bool" where
  "serialised_session_paths w clk \<longleftrightarrow>
     flow_allow w clk \<and> flow_deny w clk \<and> flow_timeout w clk \<and> flow_remember w clk \<and> flow_pkexec w clk"

definition cancel_drains_pending_approval :: "(nat \<Rightarrow> instant) \<Rightarrow> bool" where
  "cancel_drains_pending_approval clk \<longleftrightarrow>
     taken (drain (push queue_new (lit ''org.example.test'') (clk 0))) (clk 1) = None"

subsection \<open>Lemmas\<close>

lemma prompt_bounds:
  assumes "prompt clk"
  shows "elapsed (clk i) (clk j) < from_secs 1" "clk i < clk j + from_secs 1"
proof -
  have "clk 0 \<le> clk i" "clk i < clk 0 + from_secs 1" "clk 0 \<le> clk j"
    using assms by (auto simp: prompt_def)
  then show "elapsed (clk i) (clk j) < from_secs 1" "clk i < clk j + from_secs 1"
    by (auto simp: elapsed_def from_secs_def)
qed

lemma prompt_fresh:
  assumes "prompt clk" "ttl \<noteq> 0"
  shows "elapsed (clk i) (clk j) < min (from_secs (unat (ttl :: u32))) (from_secs 900)"
proof -
  have "1 \<le> unat ttl" using assms(2) by (simp add: Suc_le_eq word_greater_zero_iff flip: word_neq_0_conv unat_gt_0)
  then have "from_secs 1 \<le> min (from_secs (unat ttl)) (from_secs 900)" by (simp add: from_secs_def)
  with prompt_bounds(1) [OF assms(1), of i j] show ?thesis by linarith
qed

lemma garbage_bytes: "replicate 8 (255 :: byte) = to_le_bytes u32_max @ replicate 4 255"
proof -
  have "replicate 8 x = [x, x, x, x] @ replicate 4 x" for x :: byte by (simp add: eval_nat_numeral)
  moreover have "to_le_bytes u32_max = [255, 255, 255, 255]" by (simp add: to_le_bytes_def)
  ultimately show ?thesis by metis
qed

lemma protocol_tests: bindable_rejects_unbound_keys bind_gates_construction unbound_keys_cannot_reach_the_store
  "oversized_length_is_rejected_before_alloc dec" "truncated_body_errors dec"
  "decode_does_not_panic_on_garbage_reply decr"
  by (simp_all add: bindable_rejects_unbound_keys_def bind_gates_construction_def is_bindable_def test_key_def
      unbound_keys_cannot_reach_the_store_def oversized_length_is_rejected_before_alloc_def truncated_body_errors_def
      decode_does_not_panic_on_garbage_reply_def garbage_bytes read_frame_def buffer_ops_def MAX_FRAME_LEN_def)

lemma keystr_test_key: "0 \<notin> set (service k) \<Longrightarrow> keystr k = keystr test_key \<longleftrightarrow> k = test_key"
  using keystr_inj [of k test_key] by (auto simp: test_key_def)

lemma test_keys_differ:
  "keystr (test_key\<lparr>service := lit ''su''\<rparr>) \<noteq> keystr test_key"
  "keystr (test_key\<lparr>loginuid := 1001\<rparr>) \<noteq> keystr test_key"
  "keystr (test_key\<lparr>sessionid := 99\<rparr>) \<noteq> keystr test_key"
  "keystr (test_key\<lparr>command := lit ''pacman -U /tmp/evil''\<rparr>) \<noteq> keystr test_key"
  by (subst keystr_test_key; simp add: test_key_def)+

lemma test_keys_bind:
  "bind_key test_key = Some (BoundKey test_key)" "bind_key (test_key\<lparr>command := []\<rparr>) = None"
  "bind_key (test_key\<lparr>service := lit ''su''\<rparr>) = Some (BoundKey (test_key\<lparr>service := lit ''su''\<rparr>))"
  "bind_key (test_key\<lparr>loginuid := 1001\<rparr>) = Some (BoundKey (test_key\<lparr>loginuid := 1001\<rparr>))"
  "bind_key (test_key\<lparr>sessionid := 99\<rparr>) = Some (BoundKey (test_key\<lparr>sessionid := 99\<rparr>))"
  by (simp_all add: is_bindable_def test_key_def)

lemma bound_keys: "bound ''pacman -Syu'' = BoundKey test_key"
  "bound ''pacman -U /tmp/evil'' = BoundKey (test_key\<lparr>command := lit ''pacman -U /tmp/evil''\<rparr>)"
  by (simp_all add: bound_def bind_key_def is_bindable_def test_key_def)

lemmas store_eval = bound_keys test_keys_bind test_keys_differ store_is_fresh_def store_record_def store_new_def
  dispatch_def Let_def MAX_REMEMBER_def retain_def

lemma store_tests:
  assumes "prompt clk"
  shows "record_then_fresh clk" "full_command_is_the_key clk" "distinct_service_user_session_dont_match clk"
    "zero_ttl_never_fresh clk" "dispatch_ping_record_check clk" "unbindable_record_errors clk"
  using prompt_fresh [OF assms, of 60]
  by (simp_all add: record_then_fresh_def full_command_is_the_key_def distinct_service_user_session_dont_match_def
      zero_ttl_never_fresh_def dispatch_ping_record_check_def unbindable_record_errors_def store_eval
      del: bind_key_Some_iff bind_key_None_iff lit_simps)

lemma framed_test:
  assumes "carries enc dec (CheckRemember \<lparr>q_key = test_key, q_ttl_secs = 60\<rparr>)"
  shows "framed_round_trip enc dec"
proof -
  obtain b where "enc (CheckRemember \<lparr>q_key = test_key, q_ttl_secs = 60\<rparr>) = Inr b"
    "dec b = Inr (CheckRemember \<lparr>q_key = test_key, q_ttl_secs = 60\<rparr>)" "length b \<le> MAX_FRAME_LEN"
    using assms by (rule carriesE)
  then show ?thesis
    using read_frame_buffer [of b dec "[]"] by (simp add: framed_round_trip_def write_frame_buffer)
qed

lemma exchange_dispatch:
  assumes "carries encq decq req" "carries encr decr (fst (dispatch req store now))"
  shows "exchange encq decq encr decr now req store =
    (Some (fst (dispatch req store now)), snd (dispatch req store now))"
proof -
  obtain b where b: "encq req = Inr b" "decq b = Inr req" "length b \<le> MAX_FRAME_LEN"
    using assms(1) by (rule carriesE)
  obtain c where c: "encr (fst (dispatch req store now)) = Inr c"
    "decr c = Inr (fst (dispatch req store now))" "length c \<le> MAX_FRAME_LEN"
    using assms(2) by (rule carriesE)
  show ?thesis
    using b c read_frame_buffer [of b decq "[]"] read_frame_buffer [of c decr "[]"]
    by (cases "dispatch req store now")
      (simp add: exchange_def handle_def write_frame_buffer sock.read_frame_stream sock.write_frame_stream)
qed

lemma socket_test:
  assumes "prompt clk" "carries encq decq (RecordRemember test_key)"
    "carries encq decq (CheckRemember \<lparr>q_key = test_key, q_ttl_secs = 60\<rparr>)"
    "carries encr decr Recorded" "carries encr decr (Remember True)"
  shows "socket_round_trip encq decq encr decr clk"
proof -
  let ?check = "CheckRemember \<lparr>q_key = test_key, q_ttl_secs = 60\<rparr>"
  let ?s = "store_record store_new (BoundKey test_key) (clk 0)"
  have d: "dispatch (RecordRemember test_key) store_new (clk 0) = (Recorded, ?s)"
    "dispatch ?check ?s (clk 1) = (Remember True, ?s)"
    using prompt_fresh [OF assms(1), of 60]
    by (simp_all add: store_eval del: bind_key_Some_iff bind_key_None_iff lit_simps)
  have "exchange encq decq encr decr (clk 0) (RecordRemember test_key) store_new = (Some Recorded, ?s)"
    using exchange_dispatch [of encq decq "RecordRemember test_key" encr decr store_new "clk 0"] assms(2,4)
    unfolding d by simp
  moreover have "exchange encq decq encr decr (clk 1) ?check ?s = (Some (Remember True), ?s)"
    using exchange_dispatch [of encq decq ?check encr decr ?s "clk 1"] assms(3,5) unfolding d by simp
  ultimately show ?thesis by (simp add: socket_round_trip_def)
qed

lemma mock_replies_again:
  "mock_replies decq encr canned ((mock_replies decq encr canned m)\<lparr>mk_reply := r\<rparr>) =
     (mock_replies decq encr canned m)\<lparr>mk_reply := r\<rparr>"
  by (auto simp: mock_replies_def split: sum.splits)

interpretation mock: byte_stream "mock_ops decq encr canned" "\<lambda>m. mk_reply (mock_replies decq encr canned m)"
  "\<lambda>r m. (mock_replies decq encr canned m)\<lparr>mk_reply := r\<rparr>" mk_sent "\<lambda>b m. m\<lparr>mk_sent := b\<rparr>" for decq encr canned
  by unfold_locales (simp_all add: mock_ops_def Let_def mock_replies_again)

lemma mock_broker_answers:
  assumes "carries encq decq req" "carries encr decr canned"
  obtains m where "mock_broker encq decq encr decr canned req = Some (canned, m)" "mk_seen m = Some req"
proof -
  obtain b where b: "encq req = Inr b" "decq b = Inr req" "length b \<le> MAX_FRAME_LEN"
    using assms(1) by (rule carriesE)
  obtain c where c: "encr canned = Inr c" "decr c = Inr canned" "length c \<le> MAX_FRAME_LEN"
    using assms(2) by (rule carriesE)
  let ?m = "\<lparr>mk_sent = frame b, mk_reply = [], mk_seen = None\<rparr>"
  have r: "mock_replies decq encr canned ?m = ?m\<lparr>mk_reply := frame c, mk_seen := Some req\<rparr>"
    using b c read_frame_buffer [of b decq "[]"] by (simp add: mock_replies_def write_frame_buffer)
  have "mock_broker encq decq encr decr canned req =
      Some (canned, ?m\<lparr>mk_reply := [], mk_seen := Some req\<rparr>)"
    using mock.exchange_frames [of encq req b decq encr canned "\<lparr>mk_sent = [], mk_reply = [], mk_seen = None\<rparr>" c "[]" decr canned] b c r
    by (simp add: mock_broker_def roundtrip_at_def)
  then show thesis by (rule that) simp
qed

lemma client_tests:
  assumes "carries encq decq (CheckRemember \<lparr>q_key = test_key, q_ttl_secs = 60\<rparr>)"
    "carries encq decq (RecordRemember test_key)"
    "carries encr decr (Remember True)" "carries encr decr Recorded" "carries encr decr (Error (lit ''nope''))"
  shows "fresh_true_round_trip encq decq encr decr" "error_response_is_not_fresh encq decq encr decr"
    "record_sends_record_request encq decq encr decr" "unreachable_broker_fails_closed encq decr"
proof -
  show "fresh_true_round_trip encq decq encr decr"
    by (rule mock_broker_answers [OF assms(1,3)]) (simp add: fresh_true_round_trip_def)
  show "error_response_is_not_fresh encq decq encr decr"
    by (rule mock_broker_answers [OF assms(1,5)]) (simp add: error_response_is_not_fresh_def)
  show "record_sends_record_request encq decq encr decr"
    by (rule mock_broker_answers [OF assms(2,4)]) (simp add: record_sends_record_request_def)
  show "unreachable_broker_fails_closed encq decr"
    by (simp add: unreachable_broker_fails_closed_def roundtrip_at_def)
qed

lemma process_tests: remember_command_for_trims_and_gates
  by (simp add: remember_command_for_trims_and_gates_def remember_command_for_def remember_eligible_command_def
      leading_basename_def process_basename_def REMEMBER_INELIGIBLE_def str_eval)

lemma locale_value_tests: accepts_normal_posix_locales rejects_empty rejects_nul_bytes
  rejects_path_traversal rejects_shell_metas rejects_control_chars
  by (simp_all add: accepts_normal_posix_locales_def rejects_empty_def rejects_nul_bytes_def
      rejects_path_traversal_def rejects_shell_metas_def rejects_control_chars_def is_safe_locale_value_def
      is_ascii_alphanumeric_def str_len_def len_utf8_def)

lemma overlong_test: rejects_overlong
  by (simp add: rejects_overlong_def is_safe_locale_value_def str_len_def len_utf8_def sum_list_replicate)

lemma read_locale_vars_dom: "dom (read_locale_vars w p vars) \<subseteq> set vars"
  by (induction vars) (auto split: option.splits if_splits)

lemma locale_env_tests: "read_locale_env_handles_missing_pid w"
  "read_locale_env_for_self_returns_at_least_lang_when_set w self"
  using read_locale_vars_dom [of w self FORWARDED_VARS]
  by (simp_all add: read_locale_env_handles_missing_pid_def read_locale_env_def FORWARDED_VARS_def read_environ_var_def
      read_locale_env_for_self_returns_at_least_lang_when_set_def del: lit_simps)

lemma policy_test: "policy_allow_does_not_match_bare_elevation_originator h"
  by (simp add: policy_allow_does_not_match_bare_elevation_originator_def cfg_allow_def test_proc_def check_policy_def
      for_service_def base_config_def default_defs decide_def list_matches_def entry_matches_def process_basename_def str_eval)

lemma poll_tests:
  "timeout_zero_yields_none pt"
  "pt_try_from pt 35000 \<noteq> None \<Longrightarrow> timeout_nonzero_adds_grace pt"
  "pt_try_from pt 35000 \<noteq> None \<Longrightarrow> timeout_overflow_falls_back_to_default_grace pt"
  by (auto simp: timeout_zero_yields_none_def timeout_nonzero_adds_grace_def timeout_overflow_falls_back_to_default_grace_def
      parent_poll_timeout_def timeout_ms_def i32_try_from_def HELPER_GRACE_SECS_def)

lemma identity_tests: prefers_matching_uid_even_when_listed_later fails_closed_when_own_uid_absent
  skips_non_unix_user_kinds returns_none_for_empty_identities returns_none_when_only_non_unix_user
  skips_entries_missing_uid_field
  by (simp_all add: prefers_matching_uid_even_when_listed_later_def fails_closed_when_own_uid_absent_def
      skips_non_unix_user_kinds_def returns_none_for_empty_identities_def returns_none_when_only_non_unix_user_def
      skips_entries_missing_uid_field_def unix_user_def unix_group_def)

lemma cookie_tests: cookie_prefix_short_cookie cookie_prefix_truncates_at_8_chars cookie_prefix_empty_cookie
  cookie_prefix_handles_multibyte_at_boundary strip_pkexec_only_flags_returns_empty
  by (simp_all add: cookie_prefix_short_cookie_def cookie_prefix_truncates_at_8_chars_def cookie_prefix_empty_cookie_def
      cookie_prefix_handles_multibyte_at_boundary_def strip_pkexec_only_flags_returns_empty_def cookie_prefix_def
      strip_elevation_prefix_def leading_basename_def process_basename_def ELEVATION_TOOLS_def
      ELEVATION_FLAGS_WITH_VALUE_def str_eval)

lemma prompt_not_expired:
  assumes "prompt clk"
  shows "clk i < clk j + DEFAULT_TTL" "\<not> clk i < clk 0 - from_secs 1"
proof -
  show "clk i < clk j + DEFAULT_TTL" using prompt_bounds(2) [OF assms, of i j] by (simp add: DEFAULT_TTL_def)
  have "clk 0 \<le> clk i" using assms by (simp add: prompt_def)
  then show "\<not> clk i < clk 0 - from_secs 1" by linarith
qed

lemma queue_tests:
  assumes "prompt clk"
  shows "push_then_take_returns_it clk" "expired_entries_skipped clk" "fifo_order clk" "drain_clears_queue clk"
    "push_drain_push_only_returns_second clk" "cancel_drains_pending_approval clk"
  by (simp_all add: push_then_take_returns_it_def expired_entries_skipped_def fifo_order_def drain_clears_queue_def
      push_drain_push_only_returns_second_def cancel_drains_pending_approval_def taken_def after_take_def take_one_def
      push_def drain_def queue_new_def prompt_not_expired [OF assms] del: lit_simps One_nat_def)

lemma cache_tests:
  assumes "prompt clk"
  shows "remembers_exact_command_and_isolates_others clk" "pkexec_grant_does_not_blanket_other_commands clk"
  using prompt_fresh [OF assms, of 60] prompt_fresh [OF assms, of 300]
  by (simp_all add: remembers_exact_command_and_isolates_others_def pkexec_grant_does_not_blanket_other_commands_def
      cache_is_fresh_def cache_remember_def cache_new_def cache_key_def MAX_REMEMBER_CACHE_def retain_def Let_def)

lemma seam_verdicts:
  "verdict_from_str (lit ''ALLOW'') = Some \<lparr>v_outcome = Allow, v_remember = False\<rparr>"
  "verdict_from_str (lit ''ALLOW REMEMBER'') = Some \<lparr>v_outcome = Allow, v_remember = True\<rparr>"
  "verdict_from_str (lit ''DENY'') = Some \<lparr>v_outcome = Deny, v_remember = False\<rparr>"
  "verdict_from_str (lit ''TIMEOUT'') = Some \<lparr>v_outcome = Timeout, v_remember = False\<rparr>"
  by (simp_all add: verdict_from_str_def outcome_from_str_def is_allow_def REMEMBER_TOKEN_def str_eval)

lemma flow_command: "remember_eligible_command (lit ''true'')" "remember_key_command (lit ''true'') ScopeCommand = lit ''true''"
  by (simp_all add: remember_eligible_command_def remember_key_command_def leading_basename_def process_basename_def
      REMEMBER_INELIGIBLE_def str_eval)

lemma flow_window:
  "session_window (flow_inputs a k (flow_cfg\<lparr>remember_seconds := n\<rparr>)) = n"
  "session_window (flow_inputs a k flow_cfg) = 0"
  "session_command (flow_inputs a k (flow_cfg\<lparr>remember_seconds := n\<rparr>)) = lit ''true''"
  "session_command (flow_inputs a k flow_cfg) = lit ''true''"
  using flow_command
  by (simp_all add: session_window_def session_command_def flow_inputs_def flow_cfg_def del: lit_simps)

lemma flow_asks: "decide policy_default exe action = PAsk"
  by (simp add: decide_def list_matches_def policy_default_def)

text \<open>The session of a test, by the outcome the seam names.\<close>

lemma flow_result:
  assumes "policy cfg = policy_default" "session_window (flow_inputs a k cfg) = n"
    and "\<not> cache_is_fresh c (lit a) (session_command (flow_inputs a k cfg)) n now"
    and "verdict_from_str (lit out) = Some v"
  shows "v_outcome v \<noteq> Allow \<Longrightarrow> so_result (flow_session w now (Some out) h c (flow_inputs a k cfg)) = Inr False \<and>
      so_queue (flow_session w now (Some out) h c (flow_inputs a k cfg)) = queue_new"
    and "v_outcome v = Allow \<Longrightarrow> so_result (flow_session w now (Some out) (Some ''SUCCESS'') c (flow_inputs a k cfg)) = Inr True \<and>
      so_cache (flow_session w now (Some out) (Some ''SUCCESS'') c (flow_inputs a k cfg)) =
        (if v_remember v \<and> 0 < n then cache_remember c (lit a) (session_command (flow_inputs a k cfg)) now else c)"
proof -
  have i: "policy (in_cfg (flow_inputs a k cfg)) = policy_default" "in_action_id (flow_inputs a k cfg) = lit a"
    using assms(1) by (simp_all add: flow_inputs_def)
  show "v_outcome v \<noteq> Allow \<Longrightarrow> so_result (flow_session w now (Some out) h c (flow_inputs a k cfg)) = Inr False \<and>
      so_queue (flow_session w now (Some out) h c (flow_inputs a k cfg)) = queue_new"
    using assms(2-4) by (cases "v_outcome v")
      (simp_all add: flow_session_def session_run_def i flow_asks session_ask_def helper_ui_run_def session_finish_def Let_def
        del: lit_simps)
  show "v_outcome v = Allow \<Longrightarrow> so_result (flow_session w now (Some out) (Some ''SUCCESS'') c (flow_inputs a k cfg)) = Inr True \<and>
      so_cache (flow_session w now (Some out) (Some ''SUCCESS'') c (flow_inputs a k cfg)) =
        (if v_remember v \<and> 0 < n then cache_remember c (lit a) (session_command (flow_inputs a k cfg)) now else c)"
    using assms(2-4)
    by (simp add: flow_session_def session_run_def i flow_asks session_ask_def helper_ui_run_def session_finish_def Let_def
        hand_off_def helper1_run_def del: lit_simps)
qed

lemma cache_new_stale: "\<not> cache_is_fresh cache_new a cmd ttl now"
  by (simp add: cache_is_fresh_def cache_new_def Let_def)

lemma flow_cfg_policy: "policy (flow_cfg\<lparr>remember_seconds := n\<rparr>) = policy_default" "policy flow_cfg = policy_default"
  by (simp_all add: flow_cfg_def)

lemma flow_ends: "flow_allow w clk" "flow_deny w clk" "flow_timeout w clk"
proof -
  note r = flow_result [OF flow_cfg_policy(2) flow_window(2) cache_new_stale]
  show "flow_allow w clk"
    using r(2) [OF seam_verdicts(1)] by (simp add: flow_allow_def del: lit_simps)
  show "flow_deny w clk" "flow_timeout w clk"
    using r(1) [OF seam_verdicts(3)] r(1) [OF seam_verdicts(4)]
    by (simp_all add: flow_deny_def flow_timeout_def taken_def take_one_def queue_new_def Let_def del: lit_simps)
qed

lemma flow_grants:
  assumes "prompt clk"
  shows "flow_remember w clk" "flow_pkexec w clk"
proof -
  note r = flow_result(2) [OF flow_cfg_policy(1) flow_window(1) cache_new_stale]
  have fresh: "cache_is_fresh (cache_remember cache_new a (lit ''true'') (clk j)) a (lit ''true'') 60 (clk i)" for a i j
    using prompt_fresh [OF assms, of 60]
    by (simp add: cache_is_fresh_def cache_remember_def Let_def MAX_REMEMBER_CACHE_def del: lit_simps)
  have other: "\<not> cache_is_fresh (cache_remember cache_new a (lit ''true'') t) a (lit ''rm -rf /'') 60 now" for a t now
    by (simp add: cache_is_fresh_def cache_remember_def Let_def cache_new_def cache_key_def retain_def)
  show "flow_remember w clk"
    using r [OF seam_verdicts(1), of w] r [OF seam_verdicts(2), of w] fresh cache_new_stale
    by (simp add: flow_remember_def Let_def flow_window del: lit_simps)
  show "flow_pkexec w clk"
    using r [OF seam_verdicts(2), of w] fresh other by (simp add: flow_pkexec_def Let_def flow_window del: lit_simps)
qed

lemma flow_test: "prompt clk \<Longrightarrow> serialised_session_paths w clk"
  by (simp add: serialised_session_paths_def flow_ends flow_grants)

subsection \<open>Properties\<close>


text \<open>A codec for the messages of the tests.\<close>

definition example_encq :: "request encoder" where
  "example_encq m = (case m of CheckRemember q \<Rightarrow> Inr [0] | RecordRemember k \<Rightarrow> Inr [1] | Ping \<Rightarrow> Inr [2])"

definition example_decq :: "request decoder" where
  "example_decq b = (if b = [0] then Inr (CheckRemember \<lparr>q_key = test_key, q_ttl_secs = 60\<rparr>)
     else if b = [1] then Inr (RecordRemember test_key) else Inl [])"

definition example_encr :: "response encoder" where
  "example_encr m = (case m of Remember f \<Rightarrow> Inr [0] | Recorded \<Rightarrow> Inr [1] | Pong p \<Rightarrow> Inr [2] | Error e \<Rightarrow> Inr [3])"

definition example_decr :: "response decoder" where
  "example_decr b = (if b = [0] then Inr (Remember True) else if b = [1] then Inr Recorded
     else if b = [3] then Inr (Error (lit ''nope'')) else Inl [])"


end
