(* ===== verification/Tools.thy ===== *)
theory Tools
  imports Broker_Proto Wire_Verdict
begin

text \<open>
  What surrounds the program: the two fuzz targets that assert something
  (\<open>fuzz/fuzz_targets/verdict_parse.rs\<close> and \<open>broker_proto.rs\<close>), as functions of the fuzzed
  bytes that say whether the run is clean; the PAM caller of the development script
  (\<open>scripts/pam_authtest.rs\<close>) over a \<open>libpam\<close> that is a parameter; and the build scripts that
  bake the paths of the dialog and of the configuration into the binaries. The other two fuzz
  targets only assert that nothing panics, which functions of HOL cannot express.
\<close>

subsection \<open>Fuzz targets\<close>

definition verdict_parse_target :: "byte list \<Rightarrow> bool" where
  "verdict_parse_target data =
     (case from_utf8 data of
        None \<Rightarrow> True
      | Some s \<Rightarrow>
          (case verdict_from_str s of
             None \<Rightarrow> True
           | Some v \<Rightarrow>
               (let printed = verdict_display v
                in case verdict_from_str printed of
                     None \<Rightarrow> False
                   | Some reparsed \<Rightarrow> printed = verdict_display reparsed)))"

lemma read_frame_consumes:
  assumes "read_frame buffer_ops dec s = Inr (m, rest)"
  shows "length rest + 4 \<le> length s"
  using assms
  by (cases "dec (take (unat (from_le_bytes (take 4 s))) (drop 4 s))")
    (auto simp: read_frame_def buffer_ops_def decode_def Let_def split: sum.splits if_splits)

text \<open>The loop of the target, counting the frames it reads.\<close>

function drain_frames :: "request decoder \<Rightarrow> byte list \<Rightarrow> nat" where
  "drain_frames dec data =
     (case read_frame buffer_ops dec data of
        Inl e \<Rightarrow> 0
      | Inr (req, rest) \<Rightarrow> Suc (drain_frames dec rest))"
  by auto
termination
proof (relation "measure (\<lambda>(dec, data). length data)")
  fix dec data r req rest
  assume "read_frame buffer_ops dec data = Inr r" "(req, rest) = r"
  then show "((dec, rest), (dec, data)) \<in> measure (\<lambda>(dec, data). length data)"
    using read_frame_consumes [of dec data req rest] by simp
qed simp

declare drain_frames.simps [simp del]

subsection \<open>The PAM caller\<close>

definition PAM_BUF_ERR :: int where
  "PAM_BUF_ERR = 5"

definition PAM_CONV_ERR :: int where
  "PAM_CONV_ERR = 19"

text \<open>The conversation: the code and, on success, how many empty responses were allocated.\<close>

definition conv_fn :: "(nat \<Rightarrow> bool) \<Rightarrow> int \<Rightarrow> int \<times> nat option" where
  "conv_fn calloc n =
     (if n \<le> 0 then (PAM_CONV_ERR, None)
      else if \<not> calloc (nat n) then (PAM_BUF_ERR, None)
      else (0, Some (nat n)))"

text \<open>\<open>libpam\<close> for one run: the answers of \<open>pam_start\<close> and \<open>pam_authenticate\<close>, and the texts of errors.\<close>

record libpam =
  lp_start :: "ustr \<Rightarrow> ustr \<Rightarrow> int"
  lp_authenticate :: "ustr \<Rightarrow> ustr \<Rightarrow> int"
  lp_strerror :: "int \<Rightarrow> ustr option"

datatype tool_end = Exit int | Panic

record tool_run =
  tr_stdout :: "ustr list"
  tr_stderr :: "ustr list"
  tr_ended :: "int option"
  tr_end :: tool_end

definition authtest_main :: "libpam \<Rightarrow> ustr list \<Rightarrow> tool_run" where
  "authtest_main lp argv =
     (if length argv \<noteq> 3 then
        (case argv of
           [] \<Rightarrow> \<lparr>tr_stdout = [], tr_stderr = [], tr_ended = None, tr_end = Panic\<rparr>
         | prog # _ \<Rightarrow>
             \<lparr>tr_stdout = [], tr_stderr = [lit ''usage: '' @ prog @ lit '' SERVICE USER''], tr_ended = None,
              tr_end = Exit 2\<rparr>)
      else
        (let service = argv ! 1; user = argv ! 2
         in if 0 \<in> set service \<or> 0 \<in> set user then
              \<lparr>tr_stdout = [], tr_stderr = [], tr_ended = None, tr_end = Panic\<rparr>
            else
              (let r = lp_start lp service user
               in if r \<noteq> 0 then
                    \<lparr>tr_stdout = [], tr_stderr = [lit ''pam_start: '' @ show_int r], tr_ended = None,
                     tr_end = Exit 1\<rparr>
                  else
                    (let auth = lp_authenticate lp service user;
                         err = unwrap_or (lp_strerror lp auth) (lit ''unknown'')
                     in if auth = 0 then
                          \<lparr>tr_stdout = [lit ''ALLOW''], tr_stderr = [], tr_ended = Some auth, tr_end = Exit 0\<rparr>
                        else
                          \<lparr>tr_stdout = [lit ''DENY ('' @ err @ lit '')''], tr_stderr = [], tr_ended = Some auth,
                           tr_end = Exit 1\<rparr>))))"

subsection \<open>Build scripts\<close>

type_synonym build_env = "string \<Rightarrow> ustr option"

text \<open>\<open>PathBuf::join\<close> on Unix: an absolute path replaces, another is appended after one separator.\<close>

definition path_join :: "ustr \<Rightarrow> ustr \<Rightarrow> ustr" where
  "path_join p q =
     (if q \<noteq> [] \<and> hd q = 47 then q
      else if p = [] \<or> last p = 47 then p @ q
      else p @ 47 # q)"

definition build_prefix :: "build_env \<Rightarrow> ustr" where
  "build_prefix env = unwrap_or (env ''SENTINEL_PREFIX'') (lit ''/usr'')"

definition build_libexecdir :: "build_env \<Rightarrow> ustr" where
  "build_libexecdir env = unwrap_or (env ''SENTINEL_LIBEXECDIR'') (lit ''lib'')"

definition pam_helper_path :: "build_env \<Rightarrow> ustr" where
  "pam_helper_path env =
     unwrap_or (env ''SENTINEL_HELPER_PATH'')
       (build_prefix env @ lit ''/'' @ build_libexecdir env @ lit ''/sentinel-helper-kde'')"

definition agent_helper_path :: "build_env \<Rightarrow> ustr" where
  "agent_helper_path env =
     unwrap_or (env ''SENTINEL_HELPER_PATH'')
       (path_join (path_join (build_prefix env) (build_libexecdir env)) (lit ''sentinel-helper-kde''))"

definition config_path :: "build_env \<Rightarrow> ustr" where
  "config_path env = unwrap_or (env ''SENTINEL_SYSCONFDIR'') (lit ''/etc'') @ lit ''/security/sentinel.conf''"

subsection \<open>Properties\<close>

text \<open>Fuzzing the verdict parser finds nothing: whatever the bytes, a verdict that parses prints to a
  text that parses again and prints the same.\<close>

theorem verdict_parse_clean: "verdict_parse_target data"
proof -
  have "verdict_display (verdict_norm v) = verdict_display v" for v
    by (simp add: verdict_norm_def verdict_display_def)
  then show ?thesis by (simp add: verdict_parse_target_def verdict_from_display Let_def split: option.split)
qed

text \<open>Draining a buffer of frames ends: every frame takes at least the four bytes of its length, so
  the loop reads at most a quarter as many frames as there are bytes.\<close>

theorem drain_frames_bounded: "4 * drain_frames dec data \<le> length data"
proof (induction dec data rule: drain_frames.induct)
  case (1 dec data)
  then show ?case
    using read_frame_consumes [of dec data]
    by (subst drain_frames.simps) (fastforce split: sum.splits)
qed

text \<open>Frames written one after the other are all read.\<close>

theorem drain_frames_reads_all:
  assumes "list_all (\<lambda>b. length b \<le> MAX_FRAME_LEN \<and> (\<exists>m. dec b = Inr m)) bodies"
  shows "drain_frames dec (concat (map frame bodies)) = length bodies"
  using assms
proof (induction bodies)
  case Nil
  then show ?case by (subst drain_frames.simps) (simp add: read_frame_def buffer_ops_def)
next
  case (Cons b bodies)
  then obtain m where "dec b = Inr m" "length b \<le> MAX_FRAME_LEN" by auto
  with Cons show ?case
    by (subst drain_frames.simps) (simp add: read_frame_buffer)
qed

text \<open>The PAM caller reports success exactly when both calls succeed, and ends the session with the
  code it reports.\<close>

theorem authtest_allow_iff:
  "tr_end (authtest_main lp [prog, svc, user]) = Exit 0 \<longleftrightarrow>
     0 \<notin> set svc \<and> 0 \<notin> set user \<and> lp_start lp svc user = 0 \<and> lp_authenticate lp svc user = 0"
  "lit ''ALLOW'' \<in> set (tr_stdout (authtest_main lp argv)) \<longleftrightarrow> tr_end (authtest_main lp argv) = Exit 0"
  by (auto simp: authtest_main_def Let_def split: list.splits)

text \<open>The module and the agent are built with the same path of the dialog, unless the directory is
  absolute or one of the two parts ends in a slash or is empty.\<close>

theorem helper_paths_agree:
  assumes "build_prefix env \<noteq> []" "last (build_prefix env) \<noteq> 47"
    "build_libexecdir env \<noteq> []" "hd (build_libexecdir env) \<noteq> 47" "last (build_libexecdir env) \<noteq> 47"
  shows "pam_helper_path env = agent_helper_path env"
  using assms by (simp add: pam_helper_path_def agent_helper_path_def path_join_def)

theorem helper_paths_agree_witness:
  "pam_helper_path (\<lambda>_. None) = agent_helper_path (\<lambda>_. None) \<and>
   pam_helper_path (\<lambda>_. None) = lit ''/usr/lib/sentinel-helper-kde''"
  using helper_paths_agree [of "\<lambda>_. None"]
  by (simp add: build_prefix_def build_libexecdir_def pam_helper_path_def)

theorem helper_paths_differ:
  "pam_helper_path [''SENTINEL_LIBEXECDIR'' \<mapsto> lit ''/usr/libexec''] = lit ''/usr//usr/libexec/sentinel-helper-kde'' \<and>
   agent_helper_path [''SENTINEL_LIBEXECDIR'' \<mapsto> lit ''/usr/libexec''] = lit ''/usr/libexec/sentinel-helper-kde''"
  by (simp add: pam_helper_path_def agent_helper_path_def build_prefix_def build_libexecdir_def path_join_def)

end
