(* ===== verification/Spec2Isabelle.thy ===== *)
theory Spec2Isabelle
  imports Pam_Entry Agent_System Broker_Threads Startup Dialog Spawn Tests_Shared Tests_Auth Tools
begin

text \<open>
  Sentinel asks a user to confirm privileged actions. Its parts, under \<open>crates/\<close>:

  \<^item> \<open>pam-sentinel\<close>, a PAM module that \<open>sudo\<close>, \<open>su\<close> and polkit's helper load as root. It decides
    by configuration and policy, by a grant the broker remembers, or by running the dialog as
    the requesting user.
  \<^item> \<open>sentinel-polkit-agent\<close>, the user's polkit agent. It runs the dialog for polkit actions, pushes
    a one-shot approval and starts polkit's helper, in which the PAM module asks the agent
    over the system bus for that approval instead of showing a second dialog.
  \<^item> \<open>sentinel-broker\<close> with \<open>sentinel-broker-proto\<close>, a daemon that remembers grants for the PAM
    module over a framed socket protocol.
  \<^item> \<open>sentinel-helper-kde\<close>, the dialog: a process that prints one verdict line.
  \<^item> \<open>sentinel-shared\<close>, the verdict protocol, configuration and policy, command lines, \<open>/proc\<close>
    readers, audit lines, dialog arguments and texts.

  Theories and sources. Definitions keep the source's names; a suffix or prefix tells two of
  one name apart (\<open>store_is_fresh\<close>, \<open>cache_is_fresh\<close>).

  \<^item> \<open>Sentinel_Prelude\<close>: types (\<open>ustr\<close>, a string as its Unicode scalar values; \<open>u32\<close> and
    \<open>byte\<close> as words; instants and durations in nanoseconds), literals, option helpers and the
    development's named collections. \<open>Rust_Str\<close>: the operations of Rust's \<open>str\<close>, \<open>Path\<close> and
    UTF-8 that the code uses, with the round trip of the encoding.
  \<^item> \<open>Wire_Verdict\<close>, \<open>Commands\<close>, \<open>Logfmt\<close>, \<open>Config\<close>, \<open>Procfs\<close>: \<open>sentinel-shared/src/lib.rs\<close>.
    \<open>Ui_I18n\<close>: \<open>ui_i18n.rs\<close>. \<open>Cli\<close>: \<open>cli.rs\<close>, with what the \<open>clap\<close> parser promises as the
    predicate \<open>clap_reads\<close>. \<open>Dialog\<close>: \<open>sentinel-helper-kde/src\<close>, over the double precision
    arithmetic of \<open>F64\<close>.
  \<^item> \<open>Broker_Proto\<close>: \<open>sentinel-broker-proto\<close>, with the contract of a byte stream as a locale that the
    buffer, the socket, the daemon's connection and the tests' mock interpret. \<open>Grant_Store\<close>: the contract of a remember store as a
    locale, with the lemma that any store that keeps it answers like a log of its grants.
    \<open>Broker\<close>: \<open>store.rs\<close>, \<open>server.rs\<close>, the accept loop and the client \<open>broker_client.rs\<close>;
    the store interprets the locale. \<open>Broker_Threads\<close>: one thread per connection.
  \<^item> \<open>Event_System\<close>: the interface of a transition system, its runs, reachable states and invariants;
    the broker's threads and the agent's tasks interpret it.
  \<^item> \<open>Approval\<close>: \<open>approval_queue.rs\<close>, \<open>bypass_service.rs\<close> and \<open>remember.rs\<close> of the agent; the queue
    interprets the contract of an approval channel, the cache that of a remember store.
    \<open>Agent_Session\<close>: \<open>session.rs\<close>, \<open>helper_ui.rs\<close>, \<open>helper1.rs\<close>, \<open>identity.rs\<close>, \<open>subject.rs\<close>, and
    the call in \<open>agent.rs\<close> by itself. \<open>Agent_System\<close>: concurrent calls,
    cancellation and \<open>TakeApproval\<close> as a transition system.
  \<^item> \<open>Pam_Process\<close>: \<open>proc_info.rs\<close>, \<open>display.rs\<close>, \<open>locale.rs\<close>. \<open>Pam_Helper\<close>: \<open>helper.rs\<close>.
    \<open>Pam_Module\<close>: \<open>lib.rs\<close> and \<open>agent_bypass.rs\<close>. \<open>Pam_Entry\<close>: the hook as the host program calls it,
    with the module's arguments, the logger of the process and the broker's address.
  \<^item> \<open>Spawn\<close>: the command lines both callers of the dialog write, read back by \<open>Cli\<close>.
  \<^item> \<open>Startup\<close>: \<open>audit.rs\<close>, the two \<open>main.rs\<close> of broker and agent, with the registration loop, the
    calls of \<open>authority.rs\<close> and the generator subcommands.
  \<^item> \<open>Tests_Shared\<close> and \<open>Tests_Auth\<close>: the repository's unit tests and the agent's integration
    test, each a definition that the model is shown to satisfy. \<open>Tools\<close>: fuzz targets, the PAM
    caller of the development script, and the paths the build scripts bake in.

  State and effects. Functions of the code that read the world take it as an argument: files
  and links (\<open>fs\<close>), the environment, the clock, the password database, the answers of system
  calls, of the bus, of the broker and of polkit. What a run does outside is returned in
  order: PAM calls and log lines (\<open>pam_result\<close>), system calls of the dialog's child
  (\<open>child_action\<close>), effects of a session (\<open>session_effect\<close>), file and bus operations at start-up.
  Errors are values of sum types. Structures behind a mutex change by whole operations,
  because each operation holds the mutex throughout; tasks of the agent interleave at their
  awaits (\<open>sys_step\<close>), threads of the broker between reading, answering and writing
  (\<open>broker_step\<close>). \<open>i32\<close> and \<open>u32\<close> arithmetic wraps where the code's does, as in a release build.

  What is shown.

  \<^item> Decisions: exactly when the PAM module succeeds, its failures are closed, a bare elevation
    always asks; exactly when an agent session approves.
  \<^item> The hook in its host program: over any sequence of calls, syslog has a line that says a
    request was let in exactly for the calls that succeeded, unless the host registered a logger
    of its own, when none of them arrives; the environment of the host chooses the broker; and a
    grant and the policy see an argument vector only as its white-space words.
  \<^item> End to end, in this theory: a press of the Allow button, after the display time, decides
    the PAM path and the polkit path, from the command line the dialog is started with to the
    verdict it prints; a request whose texts look like an option is refused, which denies
    \<open>sudo -i\<close> from a login shell; a remembered success, frames on the wire included,
    has a recent record of the same key in the daemon; a bypass has a push by the user's own agent less than a second old.
  \<^item> Grants: broker and cache answer like logs; the broker's threads are serialisable; grants
    are recorded only for a ticked box; the shim and the daemon understand each other's frames.
  \<^item> Approvals: one-shot, one per session, one session at a time, every call ends, and none is
    left or made by a session after its cancellation.
  \<^item> The dialog's gate and its countdown; privileges dropped before the dialog runs; bounds of
    frames and deadlines; round trips of verdicts, frames and quoted values; templates read
    once; a configuration is accepted exactly when it has the type of the schema, and loaded whole
    or not at all; start-up order and socket mode.
  \<^item> The model against the program's own examples: every transcribed test holds.

  Bounds. All functions are total: loops run over the finite input they consume, and no fuel
  is used. The dialog's properties assume fewer than \<open>2^31 / 100\<close> events, the ticks an \<open>i32\<close> of
  milliseconds can count in 24 days; the properties about keys assume service names and action
  ids without NUL, which PAM and D-Bus guarantee.

  Parameters, not modelled: the TOML parser, the postcard codec, the D-Bus library, the
  command-line parser, the kernel, polkit and the toolkit; what a property needs of them is a
  hypothesis, met by a concrete function in its witness. The schema is read from tables, the form
  the documentation gives; that the TOML library also takes an array for a structure is left out.
  Not modelled: the QML scenes, the agent's debug messages and its warnings about what polkit's
  helper writes, the fuzz targets that only look
  for panics, the build script of the dialog, which configures a C++ build, packaging and
  installers.
\<close>

section \<open>The dialog and the PAM module\<close>

text \<open>
  The dialog as a process: it reads its command line and runs, or the parser ends it before
  it prints anything.
\<close>

definition helper_process ::
  "arg_parser \<Rightarrow> (string \<Rightarrow> byte list option) \<Rightarrow> (ustr \<Rightarrow> ustr list \<Rightarrow> bool) \<Rightarrow> (ustr \<Rightarrow> bool) \<Rightarrow> bool \<Rightarrow> bool \<Rightarrow>
   dialog_event list \<Rightarrow> ustr list \<Rightarrow> helper_proc option" where
  "helper_process clap env_os spawn is_file qml_ok coin evs words =
     map_option (\<lambda>a. helper_main env_os spawn is_file qml_ok a coin evs) (parse_cli clap words)"

definition helper_stdout :: "helper_proc option \<Rightarrow> byte list" where
  "helper_stdout p = (case p of None \<Rightarrow> [] | Some r \<Rightarrow> fst (finish (hp_verdict r)))"

text \<open>
  The pipe between the dialog and the module: the first sixteen bytes of the dialog's
  output are what the module's one read returns.
\<close>

definition pipe_read :: "helper_proc option \<Rightarrow> read_result" where
  "pipe_read p = ReadOk (take 16 (helper_stdout p))"

lemma verdict_line_fits: "length (fst (finish v)) \<le> 16" "fst (finish v) \<noteq> []"
proof -
  have len: "length (fst (finish v)) = str_len (verdict_display v @ [10])"
    by (simp add: finish_def as_bytes_def length_encode_utf8)
  have "str_len (verdict_display v @ [10]) \<le> 16"
    by (cases "v_outcome v") (simp_all add: verdict_display_def REMEMBER_TOKEN_def str_len_def len_utf8_def is_allow_def)
  with len show "length (fst (finish v)) \<le> 16" by simp
  have "0 < str_len (verdict_display v @ [10])" by (simp add: str_len_def len_utf8_def)
  with len show "fst (finish v) \<noteq> []" by (metis length_greater_0_conv)
qed

lemma pipe_read_verdict:
  assumes "pk_poll k (parent_poll_timeout pt (timeout (hr_cfg req))) = Inr n" "n \<noteq> 0" "pk_read k 16 = pipe_read p"
  shows "run_helper None None pt k req =
    (case p of None \<Rightarrow> Inl (lit ''helper produced no output'') | Some r \<Rightarrow> Inr (verdict_norm (hp_verdict r)))"
proof (cases p)
  case None
  with assms show ?thesis by (simp add: run_helper_def parent_wait_def pipe_read_def helper_stdout_def)
next
  case (Some r)
  with assms verdict_line_fits [of "hp_verdict r"] verdict_of_bytes_display [of "hp_verdict r"] show ?thesis
    by (simp add: run_helper_def parent_wait_def pipe_read_def helper_stdout_def) (simp add: finish_def)
qed

lemma pam_verdict:
  assumes "h_pipe_error h = None" "h_fork_error h = None"
    and "pk_poll (h_parent h (pam_request h)) (parent_poll_timeout (h_poll_timeout h) (timeout (pam_cfg h))) = Inr n" "n \<noteq> 0"
    and "pk_read (h_parent h (pam_request h)) 16 = pipe_read p"
  shows "dialog_result h (pam_request h) =
    (case p of None \<Rightarrow> Inl (lit ''helper produced no output'') | Some r \<Rightarrow> Inr (verdict_norm (hp_verdict r)))"
proof -
  have "hr_cfg (pam_request h) = pam_cfg h" by (simp add: pam_request_def dialog_request_def)
  with assms pipe_read_verdict [OF _ assms(4,5)] show ?thesis by (simp add: dialog_result_def)
qed

text \<open>The dialog of a request: the process started with the command line the module's child executes.\<close>

definition request_dialog ::
  "arg_parser \<Rightarrow> ustr \<Rightarrow> (string \<Rightarrow> byte list option) \<Rightarrow> (ustr \<Rightarrow> ustr list \<Rightarrow> bool) \<Rightarrow> (ustr \<Rightarrow> bool) \<Rightarrow> bool \<Rightarrow> bool \<Rightarrow>
   dialog_event list \<Rightarrow> helper_request \<Rightarrow> helper_proc option" where
  "request_dialog clap path env_os spawn is_file qml_ok coin evs req =
     helper_process clap env_os spawn is_file qml_ok coin evs (tl (helper_argv path req))"

lemma request_dialog_eq:
  assumes "clap_reads clap cli_decls" "no_nul path" "- (2 ^ 31) \<le> hr_requesting_pid req" "hr_requesting_pid req < 2 ^ 31"
  shows "request_dialog clap path env_os spawn is_file qml_ok coin evs req =
    (if arrives (request_args req) then Some (helper_main env_os spawn is_file qml_ok (request_args req) coin evs) else None)"
  using helper_reads_request_eq [OF assms] by (simp add: request_dialog_def helper_process_def)

lemma no_output_denied:
  "pk_read (h_parent h (pam_request h)) 16 = ReadOk [] \<Longrightarrow> \<exists>e. dialog_result h (pam_request h) = Inl e"
  by (auto simp: dialog_result_def run_helper_def parent_wait_def split: option.split sum.split)

lemma record_call_iff:
  assumes "pam_interactive h" "\<not> remembered h"
  shows "CBroker (RecordRemember k) \<in> set (pr_calls (sm_authenticate h)) \<longleftrightarrow> pam_key h = Some k \<and> pam_ticked h"
  using assms check_agent_bypass_calls [of h]
  by (auto simp: sm_authenticate_calls pam_run_interactive_dialog pam_asked_def split: option.splits if_splits)

section \<open>The dialog, the agent and the PAM module\<close>

text \<open>The dialog as the agent's child: its output, line by line, and how long it took.\<close>

definition child_of :: "duration \<Rightarrow> helper_proc option \<Rightarrow> ui_process" where
  "child_of took p =
     \<lparr>up_spawn_error = None,
      up_lines =
        (case from_utf8 (helper_stdout p) of
           Some t \<Rightarrow> map Inr (lines t)
         | None \<Rightarrow> [Inl (lit ''stream did not contain valid UTF-8'')]),
      up_elapsed = took\<rparr>"

text \<open>\<open>Command::spawn\<close> refuses a word with a NUL.\<close>

definition action_dialog ::
  "arg_parser \<Rightarrow> (string \<Rightarrow> byte list option) \<Rightarrow> (ustr \<Rightarrow> ustr list \<Rightarrow> bool) \<Rightarrow> (ustr \<Rightarrow> bool) \<Rightarrow> bool \<Rightarrow> bool \<Rightarrow>
   dialog_event list \<Rightarrow> ustr list \<Rightarrow> helper_proc option" where
  "action_dialog clap env_os play is_file qml_ok coin evs words =
     (if list_all no_nul words then helper_process clap env_os play is_file qml_ok coin evs words else None)"

definition spawn_child ::
  "duration \<Rightarrow> arg_parser \<Rightarrow> (string \<Rightarrow> byte list option) \<Rightarrow> (ustr \<Rightarrow> ustr list \<Rightarrow> bool) \<Rightarrow> (ustr \<Rightarrow> bool) \<Rightarrow> bool \<Rightarrow> bool \<Rightarrow>
   dialog_event list \<Rightarrow> ustr list \<Rightarrow> ui_process" where
  "spawn_child took clap env_os play is_file qml_ok coin evs words =
     (if list_all no_nul words then child_of took (action_dialog clap env_os play is_file qml_ok coin evs words)
      else \<lparr>up_spawn_error = Some (lit ''nul byte found in provided data''), up_lines = [], up_elapsed = took\<rparr>)"

lemma verdict_line: "lines (verdict_display v @ [10]) = [verdict_display v]"
  by (cases "v_outcome v"; cases "v_remember v")
    (simp_all add: verdict_display_def REMEMBER_TOKEN_def is_allow_def lines_def strip_cr_def)

lemma child_of_lines:
  "up_lines (child_of took p) = (case p of None \<Rightarrow> [] | Some r \<Rightarrow> [Inr (verdict_display (hp_verdict r))])"
proof (cases p)
  case None
  then show ?thesis by (simp add: child_of_def helper_stdout_def from_utf8_def lines_def)
next
  case (Some r)
  have "\<forall>c\<in>set (verdict_display (hp_verdict r) @ [10]). is_scalar c"
    by (cases "v_outcome (hp_verdict r)") (auto simp: verdict_display_def REMEMBER_TOKEN_def is_scalar_def)
  with Some show ?thesis by (simp add: child_of_def helper_stdout_def finish_def from_utf8_as_bytes verdict_line)
qed

lemma helper_ui_run_child:
  assumes "env ''SENTINEL_TEST_HELPER_OUTCOME'' = None"
    and "spawn (ui_argv req) = spawn_child took clap env_os play is_file qml_ok coin evs (ui_argv req)"
    and "ui_timeout req = 0 \<or> took \<le> from_secs (ui_timeout req + 5)"
  shows "case action_dialog clap env_os play is_file qml_ok coin evs (ui_argv req) of
      None \<Rightarrow> \<exists>e. helper_ui_run env spawn req = Inl e
    | Some r \<Rightarrow> helper_ui_run env spawn req = Inr (verdict_norm (hp_verdict r))"
proof -
  have c: "up_spawn_error (child_of took p) = None" "up_elapsed (child_of took p) = took" for p by (simp_all add: child_of_def)
  show ?thesis
  proof (cases "list_all no_nul (ui_argv req)")
    case True
    with assms c show ?thesis
      by (auto simp: helper_ui_run_def Let_def spawn_child_def child_of_lines verdict_from_display HELPER_GRACE_SECS_UI_def
          split: option.split)
  next
    case False
    with assms show ?thesis by (simp add: helper_ui_run_def Let_def spawn_child_def action_dialog_def)
  qed
qed

lemma action_dialog_eq:
  assumes "clap_reads clap cli_decls" "pred_option (\<lambda>p. - (2 ^ 31) \<le> p \<and> p < 2 ^ 31) (in_process_pid i)"
    and "action_dialog clap env_os play is_file qml_ok coin evs (ui_argv (for_action i w)) = Some p"
  shows "p = helper_main env_os play is_file qml_ok (ui_args (for_action i w)) coin evs"
  using assms(3) helper_reads_action_eq [OF assms(1,2), of w]
  by (auto simp: action_dialog_def helper_process_def split: if_splits)

text \<open>
  polkit's helper runs the PAM stack: the module asks the agent's queue for an approval,
  which the agent takes off it, and the helper reports the module's verdict.
\<close>

definition stack_on_queue :: "'p pam_host \<Rightarrow> instant \<Rightarrow> approval_queue \<Rightarrow> (ustr + bool) \<times> approval_queue" where
  "stack_on_queue h t q =
     (case take_approval q t of
        (ok, q', _) \<Rightarrow> (Inr (pr_code (sm_authenticate (h\<lparr>h_agent_take := Inr ok\<rparr>)) = PAM_SUCCESS), q'))"

lemma stack_takes_approval:
  assumes "bypass_user h = Some user" "h_from_name h user = Some u" "h_agent_owner h = Inr (pw_uid u)"
    and "live_ids q t = a # as" "take_id q t = (r, q')"
  shows "stack_on_queue h t q = (Inr True, q')" "live_ids q' t = as"
proof -
  have r: "r = Some a" "live_ids q' t = as" using live_ids_take(1) [OF assms(5)] assms(4) by (auto split: option.splits)
  then have "fst (take_approval q t)" "fst (snd (take_approval q t)) = q'"
    by (simp_all add: take_approval_iff assms(5))
  moreover have "bypass_user (h\<lparr>h_agent_take := Inr True\<rparr>) = bypass_user h"
    by (simp add: bypass_user_def split: option.split)
  then have "agent_approved (h\<lparr>h_agent_take := Inr True\<rparr>)"
    using assms(1-3) by (simp add: agent_approved_def)
  ultimately show "stack_on_queue h t q = (Inr True, q')"
    by (simp add: stack_on_queue_def case_prod_beta sm_authenticate_code pam_decision_def)
  show "live_ids q' t = as" by (fact r(2))
qed

text \<open>A session whose dialog allows, in terms of the hand-off.\<close>

lemma session_ask_Allow:
  assumes "se_dialog e (for_action i (session_window i)) = Inr v" "v_outcome v = Allow"
    and "se_helper1 e (in_username i) (in_cookie i) (push q (in_action_id i) (se_t_push e)) = (Inr True, q')"
  shows "so_result (session_ask e q c i) = Inr True" "so_queue (session_ask e q c i) = q'"
    "(\<exists>a cmd. ERemember a cmd \<in> set (so_effects (session_ask e q c i))) \<longleftrightarrow> v_remember v \<and> 0 < session_window i"
  using assms by (auto simp: session_ask_def hand_off_def session_finish_def Let_def)

lemma session_ask_refused:
  assumes "case se_dialog e (for_action i (session_window i)) of Inl _ \<Rightarrow> True | Inr v \<Rightarrow> v_outcome v \<noteq> Allow"
  shows "so_result (session_ask e q c i) \<noteq> Inr True" "so_queue (session_ask e q c i) = q"
  using assms
  by (cases "se_dialog e (for_action i (session_window i))";
      auto simp: session_ask_def session_finish_def Let_def split: outcome.splits)+

section \<open>Concrete runs\<close>

definition ex_dialog_events :: "dialog_event list" where
  "ex_dialog_events = [Tick, Tick, PressAllow, Tick, Tick, SetRemember True, Tick, PressAllow]"

abbreviation ex_main :: "cli_args \<Rightarrow> helper_proc" where
  "ex_main a \<equiv> helper_main example_env_os (\<lambda>_ _. False) (\<lambda>_. False) True a True ex_dialog_events"

definition ex_verdict :: verdict where
  "ex_verdict = \<lparr>v_outcome = Allow, v_remember = True\<rparr>"

definition ex_host :: "int pam_host" where
  "ex_host = example_host sudo_pacman [] (\<lambda>_. None) (take 16 (fst (finish ex_verdict)))"

lemma ex_dialog_verdict:
  assumes "ca_timeout a = 30" "ca_min_time a = 500" "ca_remember_secs a = 300"
  shows "hp_verdict (ex_main a) = ex_verdict"
  using assms
  by (simp add: ex_dialog_events_def ex_verdict_def helper_main_def Let_def example_env_os_def
      dialog_default_def tick_def allow_def i32_of_u64_def i32_max_def i32_wrap_def TICK_MS_def saturating_mul_1000_def)

lemma example_times:
  "timeout (pam_cfg (example_host c d b r)) = 30" "min_display_time_ms (pam_cfg (example_host c d b r)) = 500"
proof -
  have "pam_cfg (example_host c d b r) = for_service (example_document d) (lit ''sudo'')"
    unfolding pam_cfg_def example_service by (simp add: example_host_def load_config_def load_from_def)
  then show "timeout (pam_cfg (example_host c d b r)) = 30" "min_display_time_ms (pam_cfg (example_host c d b r)) = 500"
    by (simp_all add: for_service_def example_document_def base_config_def apply_override_simps
        document_defaults_def general_default_def default_timeout_def default_min_display_time_def)
qed

lemma example_texts:
  "title (pam_cfg (example_host c d b r)) = DEFAULT_TITLE" "message (pam_cfg (example_host c d b r)) = DEFAULT_MESSAGE"
  "secondary (pam_cfg (example_host c d b r)) = DEFAULT_SECONDARY" "sound_name (pam_cfg (example_host c d b r)) = default_sound_name"
  "show_process_info (pam_cfg (example_host c d b r))"
proof -
  have "pam_cfg (example_host c d b r) = for_service (example_document d) (lit ''sudo'')"
    unfolding pam_cfg_def example_service by (simp add: example_host_def load_config_def load_from_def)
  then show "title (pam_cfg (example_host c d b r)) = DEFAULT_TITLE" "message (pam_cfg (example_host c d b r)) = DEFAULT_MESSAGE"
    "secondary (pam_cfg (example_host c d b r)) = DEFAULT_SECONDARY" "sound_name (pam_cfg (example_host c d b r)) = default_sound_name"
    "show_process_info (pam_cfg (example_host c d b r))"
    by (simp_all add: for_service_def example_document_def base_config_def apply_override_simps
        document_defaults_def appearance_default_def audio_default_def general_default_def)
qed

definition ex_polkit_host :: "int pam_host" where
  "ex_polkit_host = (example_host sudo_bare [] (\<lambda>_. None) [])\<lparr>h_agent_owner := Inr 1000\<rparr>"

abbreviation ex_spawn :: "ustr list \<Rightarrow> ui_process" where
  "ex_spawn \<equiv> spawn_child (from_secs 7) example_clap example_env_os (\<lambda>_ _. False) (\<lambda>_. False) True True ex_dialog_events"

definition ex_session_env :: session_env where
  "ex_session_env = (example_env (Inl HNoOutput) (Inr False))
     \<lparr>se_dialog := helper_ui_run (\<lambda>_. None) ex_spawn,
      se_helper1 := (\<lambda>_ _. stack_on_queue ex_polkit_host 5)\<rparr>"

lemma ex_session_window: "session_window (example_inputs [] (lit ''true'')) = 300"
  using example_cfg_window [of "[]" "lit ''true''"]
  by (simp add: session_window_def) (simp add: example_inputs_def str_eval)

lemma ex_min_time: "min_display_time_ms (in_cfg (example_inputs al cmd)) = 500"
  by (simp add: example_inputs_def for_service_def document_defaults_def base_config_def general_default_def
      default_min_display_time_def)

lemma ex_timeout: "timeout (in_cfg (example_inputs al cmd)) = 30"
  by (simp add: example_inputs_def for_service_def document_defaults_def base_config_def general_default_def
      default_timeout_def)

lemma ex_host_request:
  "hr_cfg (pam_request ex_host) = pam_cfg ex_host" "hr_requesting_pid (pam_request ex_host) = 42"
  "hr_remember_secs (pam_request ex_host) = 300"
  using example_pam_key
  by (simp_all add: pam_request_def dialog_request_def ex_host_def example_cfg) (simp add: example_host_def)

lemma ex_host_pid: "- (2 ^ 31) \<le> hr_requesting_pid (pam_request ex_host)" "hr_requesting_pid (pam_request ex_host) < 2 ^ 31"
  by (simp_all add: ex_host_request)

lemma ex_host_args:
  "ca_timeout (request_args (pam_request ex_host)) = 30" "ca_min_time (request_args (pam_request ex_host)) = 500"
  "ca_remember_secs (request_args (pam_request ex_host)) = 300"
  by (simp_all add: request_args_def Let_def ex_host_request) (simp_all add: ex_host_def example_times)

lemma ex_host_read: "pk_read (h_parent ex_host req) n = ReadOk (take 16 (fst (finish ex_verdict)))"
  by (simp add: ex_host_def example_host_def)

lemma ex_host_process:
  "pi_exe (pam_process ex_host) = lit ''pacman''" "pi_cmdline (pam_process ex_host) = lit ''pacman -Syu''"
  "pi_cwd (pam_process ex_host) = []" "pi_name (pam_process ex_host) = lit ''pacman''"
proof -
  have s: "strip_elevation_prefix (lit ''sudo pacman -Syu'') = lit ''pacman -Syu''"
    "split_whitespace (lit ''pacman -Syu'') = map lit [''pacman'', ''-Syu'']"
    by (simp_all add: str_eval)
  have "resolve_target w p raw (lit ''sudo pacman -Syu'') =
      (lit ''pacman'', lit ''pacman -Syu'', remember_command_for (lit ''pacman -Syu''), Some (lit ''pacman''))" for w p raw
    unfolding resolve_target_def Let_def s by simp
  moreover have "process_basename (lit ''pacman'') = Some (lit ''pacman'')" by (simp add: str_eval)
  ultimately show "pi_exe (pam_process ex_host) = lit ''pacman''" "pi_cmdline (pam_process ex_host) = lit ''pacman -Syu''"
    "pi_cwd (pam_process ex_host) = []" "pi_name (pam_process ex_host) = lit ''pacman''"
    by (simp_all add: pam_process_def for_pid_def ex_host_def example_host_def example_cmdline del: lit_simps)
      (simp add: read_cwd_def example_fs_def)
qed

lemma ex_host_arrives: "arrives (request_args (pam_request ex_host))"
proof -
  have u: "resolve_user ex_host (pam_uid ex_host) = lit ''ada''" "pam_service ex_host = lit ''sudo''" "h_getpid ex_host = 42"
    by (simp_all add: ex_host_def resolve_user_def) (simp_all add: example_host_def)
  have t: "title (pam_cfg ex_host) = DEFAULT_TITLE" "message (pam_cfg ex_host) = DEFAULT_MESSAGE"
    "secondary (pam_cfg ex_host) = DEFAULT_SECONDARY" "sound_name (pam_cfg ex_host) = default_sound_name"
    by (simp_all add: ex_host_def example_texts)
  have "show_int 42 = lit ''42''" by (simp add: show_int_def show_nat.simps)
  moreover have "list_all (\<lambda>t. no_nul t \<and> cli_value t) (map lit [''42'', ''ada'', ''sudo'', ''pacman'', ''pacman -Syu''])"
    by (simp add: no_nul_def cli_value_def)
  ultimately show ?thesis
    unfolding arrives_def cli_texts_def request_args_def Let_def pam_request_def dialog_request_def u
    by (simp add: List.map_filter_def ex_host_process t default_texts format_no_nul del: lit_simps)
qed

lemma ex_action_dialog:
  "\<exists>p. action_dialog example_clap example_env_os (\<lambda>_ _. False) (\<lambda>_. False) True True ex_dialog_events
     (ui_argv (for_action (example_inputs [] (lit ''true'')) (session_window (example_inputs [] (lit ''true''))))) = Some p \<and>
   v_outcome (hp_verdict p) = Allow"
proof -
  let ?i = "example_inputs [] (lit ''true'')"
  have c: "title (in_cfg ?i) = DEFAULT_TITLE" "message (in_cfg ?i) = DEFAULT_MESSAGE" "secondary (in_cfg ?i) = DEFAULT_SECONDARY"
    "sound_name (in_cfg ?i) = default_sound_name" "timeout (in_cfg ?i) = 30"
    by (simp_all add: example_inputs_def for_service_def document_defaults_def base_config_def appearance_default_def
        audio_default_def general_default_def default_timeout_def)
  have p: "process_name_of (Some (lit ''/usr/bin/true'')) = lit ''true''"
    by (simp add: process_name_of_def str_eval)
  have i: "in_username ?i = lit ''ada''" "in_process_exe ?i = Some (lit ''/usr/bin/true'')" "in_process_cmdline ?i = Some (lit ''true'')"
    "in_process_pid ?i = None" "in_process_cwd ?i = None" "in_requesting_user ?i = None" "in_action_id ?i = lit ''org.example.act''"
    by (simp_all add: example_inputs_def)
  have t: "list_all (\<lambda>t. no_nul t \<and> cli_value t) (map lit [''ada'', ''true'', ''/usr/bin/true'', ''org.example.act''])"
    "no_nul POLKIT_PAM_SERVICE"
    by (simp_all add: no_nul_def cli_value_def POLKIT_PAM_SERVICE_def)
  have f: "list_all no_nul (map lit [''--title'', ''--message'', ''--secondary'', ''--timeout'', ''--min-time'', ''--remember-secs'',
      ''--sound-name'', ''--randomize'', ''--process-exe'', ''--process-cmdline'', ''--action''])"
    by (simp add: no_nul_def)
  have "list_all no_nul (ui_argv (for_action ?i 300))"
    using t f unfolding ui_argv_def for_action_def Let_def c i p
    by (simp add: opt_arg_def default_texts format_no_nul show_u32_def del: lit_simps)
  moreover have "list_all cli_value (cli_texts (ui_args (for_action ?i 300)))"
    using t unfolding cli_texts_def ui_args_def for_action_def Let_def c i p
    by (simp add: List.map_filter_def default_texts del: lit_simps)
  then have "parse_cli example_clap (ui_argv (for_action ?i 300)) = Some (ui_args (for_action ?i 300))"
    using helper_reads_action_eq [OF example_clap_reads, of ?i 300] i(4) by simp
  moreover have "hp_verdict (ex_main (ui_args (for_action ?i 300))) = ex_verdict"
    by (rule ex_dialog_verdict) (simp_all add: ui_args_def for_action_def Let_def c(5) ex_min_time del: lit_simps)
  ultimately show ?thesis
    unfolding ex_session_window by (simp add: action_dialog_def helper_process_def ex_verdict_def)
qed

text \<open>\<open>sudo -i\<close> from a login shell.\<close>

definition ex_login_fs :: fs where
  "ex_login_fs =
     \<lparr>read_file = map_of
        [(proc_path 42 ''cmdline'', sudo_bare),
         (proc_path 42 ''status'', [80, 80, 105, 100, 58, 9, 52, 49, 10]),
         (proc_path 41 ''cmdline'', [45, 98, 97, 115, 104, 0])],
      read_link = [proc_path 41 ''exe'' \<mapsto> [47, 98]]\<rparr>"

definition ex_login_host :: "int pam_host" where
  "ex_login_host = (example_host sudo_bare [] (\<lambda>_. None) [])
     \<lparr>h_fs := ex_login_fs,
      h_parent := (\<lambda>req. \<lparr>pk_poll = (\<lambda>_. Inr 1),
        pk_read = (\<lambda>_. pipe_read (request_dialog example_clap [] example_env_os (\<lambda>_ _. False) (\<lambda>_. False) True True
          ex_dialog_events req))\<rparr>)\<rparr>"

lemma ex_login_reads:
  "read_cmdline ex_login_fs 42 = Some (lit ''sudo -i'')" "read_cmdline ex_login_fs 41 = Some (45 # 98 # lit ''ash'')"
  "read_ppid ex_login_fs 42 = Some 41" "read_exe ex_login_fs 41 = Some [47, 98]"
  by (simp_all add: read_cmdline_def read_ppid_def read_exe_def read_to_string_def ex_login_fs_def cmdline_parts_def
      from_utf8_lossy_def from_utf8_def utf8_step_def lines_def strip_cr_def parse_i32_def parse_nat_def str_eval
      proc_path_def show_int_def show_nat.simps)

section \<open>Properties\<close>

text \<open>C2. From the button to the module: when the module has to ask, the dialog is the process its child
  executes with the command line it wrote, and its one read of sixteen bytes returns the
  dialog's output, the request succeeds exactly when its texts get through that command line
  and the dialog's verdict is Allow; then the Allow button was pressed after the configured
  display time and no Deny came before; and a grant for a key is recorded exactly when it is the
  key of this request, the window is open and the box was ticked at that press.\<close>

theorem press_decides_authentication:
  assumes "pam_interactive h" "\<not> remembered h" "h_pipe_error h = None" "h_fork_error h = None"
    and "pk_poll (h_parent h (pam_request h)) (parent_poll_timeout (h_poll_timeout h) (timeout (pam_cfg h))) = Inr n" "n \<noteq> 0"
    and "pk_read (h_parent h (pam_request h)) 16 =
      pipe_read (request_dialog clap path env_os spawn is_file qml_ok coin evs (pam_request h))"
    and "100 * int (length evs) < 2 ^ 31"
    and "clap_reads clap cli_decls" "no_nul path" "- (2 ^ 31) \<le> h_getpid h" "h_getpid h < 2 ^ 31"
  shows "(pr_code (sm_authenticate h) = PAM_SUCCESS \<longleftrightarrow>
      arrives (request_args (pam_request h)) \<and>
      v_outcome (hp_verdict (helper_main env_os spawn is_file qml_ok (request_args (pam_request h)) coin evs)) = Allow) \<and>
    (pr_code (sm_authenticate h) = PAM_SUCCESS \<longrightarrow>
      (\<exists>pre post. evs = pre @ PressAllow # post \<and> PressDeny \<notin> set pre \<and>
        i32_of_u64 (unat (min_display_time_ms (pam_cfg h))) \<le> 100 * int (ticks pre) \<and>
        (\<forall>k. CBroker (RecordRemember k) \<in> set (pr_calls (sm_authenticate h)) \<longleftrightarrow>
          pam_key h = Some k \<and> 0 < remember_seconds (pam_cfg h) \<and> checked False pre)))"
proof -
  define a where "a = request_args (pam_request h)"
  let ?v = "hp_verdict (helper_main env_os spawn is_file qml_ok a coin evs)"
  have pid: "hr_requesting_pid (pam_request h) = h_getpid h" by (simp add: pam_request_def dialog_request_def)
  have dlg: "request_dialog clap path env_os spawn is_file qml_ok coin evs (pam_request h) =
      (if arrives a then Some (helper_main env_os spawn is_file qml_ok a coin evs) else None)"
    unfolding a_def using assms(11,12) pid by (intro request_dialog_eq assms(9,10)) simp_all
  have d: "dialog_result h (pam_request h) =
      (if arrives a then Inr (verdict_norm ?v) else Inl (lit ''helper produced no output''))"
    using pam_verdict [OF assms(3-7)] unfolding dlg by (simp del: lit_simps split: if_splits)
  have s: "pr_code (sm_authenticate h) = PAM_SUCCESS \<longleftrightarrow> arrives a \<and> v_outcome ?v = Allow"
    using assms(1,2) by (simp add: sm_authenticate_code pam_decision_def pam_interactive_def dialog_allows_def d is_allow_def)
  have "\<exists>pre post. evs = pre @ PressAllow # post \<and> PressDeny \<notin> set pre \<and>
        i32_of_u64 (unat (min_display_time_ms (pam_cfg h))) \<le> 100 * int (ticks pre) \<and>
        (\<forall>k. CBroker (RecordRemember k) \<in> set (pr_calls (sm_authenticate h)) \<longleftrightarrow>
          pam_key h = Some k \<and> 0 < remember_seconds (pam_cfg h) \<and> checked False pre)"
    if al: "v_outcome ?v = Allow" "arrives a"
  proof -
    from helper_main_press [OF assms(8) al(1)] obtain pre post where
      pp: "evs = pre @ PressAllow # post" "PressDeny \<notin> set pre" "i32_of_u64 (ca_min_time a) \<le> 100 * int (ticks pre)"
      and rem: "v_remember ?v = (0 < ca_remember_secs a \<and> checked False pre)"
      by (elim exE conjE)
    have a: "ca_min_time a = unat (min_display_time_ms (pam_cfg h))"
      "ca_remember_secs a = unat (if pam_key h \<noteq> None then remember_seconds (pam_cfg h) else 0)"
      by (simp_all add: a_def request_args_def pam_request_def dialog_request_def Let_def)
    have "pam_ticked h \<longleftrightarrow> v_remember ?v \<and> 0 < remember_seconds (pam_cfg h)"
      by (simp add: pam_ticked_def spawn_dialog_code d al is_allow_def)
    then have "pam_key h = Some k \<and> pam_ticked h \<longleftrightarrow>
        pam_key h = Some k \<and> 0 < remember_seconds (pam_cfg h) \<and> checked False pre" for k
      using rem a(2) by (auto simp: unat_gt_0 word_neq_0_conv)
    with pp a(1) show ?thesis by (auto simp: record_call_iff [OF assms(1,2)])
  qed
  with s show ?thesis unfolding a_def by blast
qed

theorem press_decides_authentication_witness:
  "pr_code (sm_authenticate ex_host) = PAM_SUCCESS \<and>
   CBroker (RecordRemember example_key) \<in> set (pr_calls (sm_authenticate ex_host))"
proof -
  let ?dialog = "request_dialog example_clap [] example_env_os (\<lambda>_ _. False) (\<lambda>_. False) True True ex_dialog_events (pam_request ex_host)"
  have v: "hp_verdict (ex_main (request_args (pam_request ex_host))) = ex_verdict"
    by (rule ex_dialog_verdict) (simp_all add: ex_host_args)
  have nul: "no_nul []" by (simp add: no_nul_def)
  have "\<not> remembered ex_host"
    by (simp add: ex_host_def remembered_def check_remember_def example_host_def split: option.splits)
  moreover have "pam_interactive ex_host" "pam_key ex_host = Some example_key" "0 < remember_seconds (pam_cfg ex_host)"
    using example_interactive example_pam_key by (simp_all add: ex_host_def example_cfg)
  moreover have "h_pipe_error ex_host = None" "h_fork_error ex_host = None" "h_getpid ex_host = 42"
    "pk_poll (h_parent ex_host (pam_request ex_host)) (parent_poll_timeout (h_poll_timeout ex_host) (timeout (pam_cfg ex_host))) = Inr 1"
    by (simp_all add: ex_host_def example_host_def)
  moreover have "pk_read (h_parent ex_host (pam_request ex_host)) 16 = pipe_read ?dialog"
    using v request_dialog_eq [OF example_clap_reads nul ex_host_pid]
    by (simp add: ex_host_arrives ex_host_read pipe_read_def helper_stdout_def)
  moreover have "100 * int (length ex_dialog_events) < 2 ^ 31" by (simp add: ex_dialog_events_def)
  moreover have "ex_dialog_events = pre @ PressAllow # post \<Longrightarrow> 500 \<le> 100 * int (ticks pre) \<Longrightarrow> checked False pre" for pre post
    by (auto simp: ex_dialog_events_def Cons_eq_append_conv)
  ultimately show ?thesis
    using press_decides_authentication [of ex_host 1 example_clap "[]" example_env_os "\<lambda>_ _. False" "\<lambda>_. False" True True ex_dialog_events]
      v ex_host_arrives example_clap_reads nul
    by (auto simp: ex_verdict_def ex_host_def example_times i32_of_u64_def i32_max_def)
qed

text \<open>C3. From the button to polkit: when the agent has to ask and its child is the dialog, started with
  the words the agent wrote and done no later than five seconds after its timeout, and polkit's helper runs the module for the agent's own user within a
  second of the push, the authentication succeeds exactly when the dialog could be started and its
  verdict is Allow. Then the Allow button was pressed after the configured display time with no
  Deny before it, the agent records a grant exactly when the box was offered and ticked at that
  press, and the one approval that was pushed has been used up: an empty queue is empty again.\<close>

theorem press_decides_polkit:
  assumes "session_policy i = PAsk" "\<not> session_remembered e c i"
    and "se_dialog e = helper_ui_run env spawn" "env ''SENTINEL_TEST_HELPER_OUTCOME'' = None"
    and "spawn (ui_argv (for_action i (session_window i))) =
      spawn_child took clap env_os play is_file qml_ok coin evs (ui_argv (for_action i (session_window i)))"
    and "timeout (in_cfg i) = 0 \<or> took \<le> from_secs (unat (timeout (in_cfg i)) + 5)"
    and "se_helper1 e (in_username i) (in_cookie i) = stack_on_queue h t" "t < se_t_push e + from_secs 1"
    and "bypass_user h = Some user" "h_from_name h user = Some u" "h_agent_owner h = Inr (pw_uid u)"
    and "clap_reads clap cli_decls" "pred_option (\<lambda>p. - (2 ^ 31) \<le> p \<and> p < 2 ^ 31) (in_process_pid i)"
    and "100 * int (length evs) < 2 ^ 31" "live_ids q t = []"
  shows "(so_result (session_run e q c i) = Inr True \<longleftrightarrow>
      (\<exists>p. action_dialog clap env_os play is_file qml_ok coin evs (ui_argv (for_action i (session_window i))) = Some p \<and>
        v_outcome (hp_verdict p) = Allow)) \<and>
    live_ids (so_queue (session_run e q c i)) t = [] \<and>
    (so_result (session_run e q c i) = Inr True \<longrightarrow>
      (\<exists>pre post. evs = pre @ PressAllow # post \<and> PressDeny \<notin> set pre \<and>
        i32_of_u64 (unat (min_display_time_ms (in_cfg i))) \<le> 100 * int (ticks pre) \<and>
        ((\<exists>b cmd. ERemember b cmd \<in> set (so_effects (session_run e q c i))) \<longleftrightarrow>
          0 < session_window i \<and> checked False pre)))"
proof -
  let ?r = "for_action i (session_window i)"
  let ?p = "action_dialog clap env_os play is_file qml_ok coin evs (ui_argv ?r)"
  have run: "session_run e q c i = session_ask e q c i"
    using assms(1,2) by (auto simp: session_run_def session_policy_def session_remembered_def)
  have limit: "ui_timeout ?r = 0 \<or> took \<le> from_secs (ui_timeout ?r + 5)"
    using assms(6) by (auto simp: for_action_def Let_def)
  have d: "case ?p of None \<Rightarrow> \<exists>x. se_dialog e ?r = Inl x | Some r \<Rightarrow> se_dialog e ?r = Inr (verdict_norm (hp_verdict r))"
    using helper_ui_run_child [of env spawn ?r took clap env_os play is_file qml_ok coin evs] assms(4,5) limit unfolding assms(3) by blast
  show ?thesis
  proof (cases "\<exists>p. ?p = Some p \<and> v_outcome (hp_verdict p) = Allow")
    case False
    with d have "case se_dialog e ?r of Inl _ \<Rightarrow> True | Inr v \<Rightarrow> v_outcome v \<noteq> Allow" by (auto split: option.splits)
    with session_ask_refused [OF this, of q c] assms(15) False show ?thesis by (simp add: run)
  next
    case True
    then obtain p where p: "?p = Some p" "v_outcome (hp_verdict p) = Allow" by blast
    have pa: "p = helper_main env_os play is_file qml_ok (ui_args ?r) coin evs"
      using action_dialog_eq [OF assms(12,13) p(1)] .
    obtain r q' where tk: "take_id (push q (in_action_id i) (se_t_push e)) t = (r, q')" by force
    have "live_ids (push q (in_action_id i) (se_t_push e)) t = [in_action_id i]"
      using assms(8,15) by (simp add: queue_simps DEFAULT_TTL_def)
    note st = stack_takes_approval [OF assms(9,10,11) this tk]
    have out: "se_dialog e ?r = Inr (hp_verdict p)" using d p by simp
    have h1: "se_helper1 e (in_username i) (in_cookie i) (push q (in_action_id i) (se_t_push e)) = (Inr True, q')"
      using st(1) assms(7) by simp
    note ask = session_ask_Allow [OF out p(2) h1, of c]
    from helper_main_press [OF assms(14) p(2) [unfolded pa]] obtain pre post where
      "evs = pre @ PressAllow # post" "PressDeny \<notin> set pre" "i32_of_u64 (ca_min_time (ui_args ?r)) \<le> 100 * int (ticks pre)"
      and rem: "v_remember (hp_verdict p) = (0 < ca_remember_secs (ui_args ?r) \<and> checked False pre)"
      unfolding pa by (elim exE conjE)
    moreover have "ca_min_time (ui_args ?r) = unat (min_display_time_ms (in_cfg i))" "ca_remember_secs (ui_args ?r) = unat (session_window i)"
      by (simp_all add: ui_args_def for_action_def Let_def)
    moreover from this have "(\<exists>b cmd. ERemember b cmd \<in> set (so_effects (session_run e q c i))) \<longleftrightarrow>
        0 < session_window i \<and> checked False pre"
      using ask(3) rem by (auto simp: run unat_gt_0 word_neq_0_conv)
    ultimately show ?thesis using ask(1,2) st(2) True by (auto simp: run)
  qed
qed

theorem press_decides_polkit_witness:
  "so_result (session_run ex_session_env queue_new cache_new (example_inputs [] (lit ''true''))) = Inr True \<and>
   (\<exists>b cmd. ERemember b cmd \<in> set (so_effects (session_run ex_session_env queue_new cache_new (example_inputs [] (lit ''true'')))))"
proof -
  let ?i = "example_inputs [] (lit ''true'')"
  have "\<not> session_remembered ex_session_env cache_new ?i"
    by (simp add: session_remembered_def fresh_simps cache_new_def)
  moreover have "bypass_user ex_polkit_host = Some (lit ''ada'')" "h_from_name ex_polkit_host (lit ''ada'') = Some example_passwd"
    "h_agent_owner ex_polkit_host = Inr (pw_uid example_passwd)"
    by (simp_all add: ex_polkit_host_def example_host_def bypass_user_def example_passwd_def)
  moreover have "se_dialog ex_session_env = helper_ui_run (\<lambda>_. None) ex_spawn"
    "se_helper1 ex_session_env (in_username ?i) (in_cookie ?i) = stack_on_queue ex_polkit_host 5"
    "5 < se_t_push ex_session_env + from_secs 1"
    by (simp_all add: ex_session_env_def example_env_def from_secs_def)
  moreover have "pred_option (\<lambda>p. - (2 ^ 31) \<le> p \<and> p < 2 ^ 31) (in_process_pid ?i)" by (simp add: example_inputs_def)
  moreover have "100 * int (length ex_dialog_events) < 2 ^ 31" by (simp add: ex_dialog_events_def)
  moreover have "live_ids queue_new 5 = []" by (simp add: queue_simps)
  moreover have "from_secs 7 \<le> from_secs (unat (timeout (in_cfg ?i)) + 5)"
    by (simp add: ex_timeout)
  moreover have "checked False pre"
    if "ex_dialog_events = pre @ PressAllow # post" "i32_of_u64 (unat (min_display_time_ms (in_cfg ?i))) \<le> 100 * int (ticks pre)" for pre post
    using that unfolding ex_min_time by (auto simp: ex_dialog_events_def Cons_eq_append_conv i32_of_u64_def i32_max_def)
  ultimately show ?thesis
    using press_decides_polkit [of ?i ex_session_env cache_new "\<lambda>_. None" ex_spawn "from_secs 7" example_clap example_env_os
        "\<lambda>_ _. False" "\<lambda>_. False" True True ex_dialog_events ex_polkit_host 5 "lit ''ada''" example_passwd queue_new]
      example_policy [of "lit ''true''"] ex_action_dialog ex_session_window example_clap_reads
    by (auto simp del: lit_simps)
qed

text \<open>C19. What the words of another process can do to a request: when \<open>sudo -i\<close> is started from a login
  shell, whose command line begins with a hyphen, the dialog's parser takes that command line
  for an option and the request is refused, whatever the user would have pressed.\<close>

theorem login_shell_denied:
  assumes "read_cmdline (h_fs h) (h_getpid h) = Some cmdline" "bare_elevation cmdline"
    and "read_ppid (h_fs h) (h_getpid h) = Some parent" "read_exe (h_fs h) parent = Some shell"
    and "read_cmdline (h_fs h) parent = Some (45 # c # cs)" "show_process_info (pam_cfg h)"
    and "\<not> agent_approved h" "enabled (pam_cfg h)" "pam_display h"
    and "pk_read (h_parent h (pam_request h)) 16 =
      pipe_read (request_dialog clap path env_os spawn is_file qml_ok coin evs (pam_request h))"
    and "clap_reads clap cli_decls" "no_nul path" "- (2 ^ 31) \<le> h_getpid h" "h_getpid h < 2 ^ 31"
  shows "pr_code (sm_authenticate h) = PAM_AUTH_ERR"
proof -
  have "pi_cmdline (pam_process h) = 45 # c # cs"
    using for_pid_bare_parent [OF assms(1-5)] by (simp add: pam_process_def)
  then have "45 # c # cs \<in> set (cli_texts (request_args (pam_request h)))"
    using assms(6) by (simp add: cli_texts_def request_args_def Let_def pam_request_def dialog_request_def List.map_filter_def)
  then have "\<not> arrives (request_args (pam_request h))"
    by (auto simp: arrives_def list_all_iff cli_value_def intro!: bexI [of _ "45 # c # cs"])
  moreover have "hr_requesting_pid (pam_request h) = h_getpid h" by (simp add: pam_request_def dialog_request_def)
  ultimately have "pk_read (h_parent h (pam_request h)) 16 = ReadOk []"
    using request_dialog_eq [OF assms(11,12), of "pam_request h"] assms(10,13,14) by (simp add: pipe_read_def helper_stdout_def)
  from no_output_denied [OF this] have "\<not> dialog_allows h" by (auto simp: dialog_allows_def)
  moreover have "pi_remember_command (pam_process h) = None" "pi_policy_exe (pam_process h) = None"
    using for_pid_bare [OF assms(1,2)] by (simp_all add: pam_process_def)
  then have "\<not> remembered h" "pam_policy h = PAsk"
    by (simp_all add: remembered_def pam_key_def remember_key_of_def pam_policy_def)
  ultimately show ?thesis
    using assms(7,8,9) by (simp add: sm_authenticate_code pam_decision_def)
qed

theorem login_shell_denied_witness: "pr_code (sm_authenticate ex_login_host) = PAM_AUTH_ERR"
proof -
  let ?h0 = "example_host sudo_bare [] (\<lambda>_. None) []"
  have cfg: "pam_cfg ex_login_host = pam_cfg ?h0" "agent_approved ex_login_host = agent_approved ?h0"
    "pam_display ex_login_host = pam_display ?h0" "h_getpid ex_login_host = 42" "h_fs ex_login_host = ex_login_fs"
    by (simp_all add: ex_login_host_def pam_cfg_def pam_service_def agent_approved_def bypass_user_def pam_display_def detect_for_user_def
        env_var_def example_host_def from_utf8_def utf8_step_def)
  have "bare_elevation (lit ''sudo -i'')" by (simp add: bare_elevation_def str_eval)
  moreover have "show_process_info (pam_cfg ?h0)" by (simp add: example_texts)
  moreover have "pk_read (h_parent ex_login_host (pam_request ex_login_host)) 16 =
      pipe_read (request_dialog example_clap [] example_env_os (\<lambda>_ _. False) (\<lambda>_. False) True True ex_dialog_events
        (pam_request ex_login_host))"
    by (simp add: ex_login_host_def)
  ultimately show ?thesis
    using login_shell_denied [of ex_login_host "lit ''sudo -i''" 41 "[47, 98]" 98 "lit ''ash''" example_clap "[]"]
      ex_login_reads example_clap_reads
    by (simp add: cfg example_cfg no_nul_def del: lit_simps)
qed

text \<open>A codec for the messages of one exchange.\<close>

definition ex_encq :: "request encoder" where
  "ex_encq r = (if r = CheckRemember \<lparr>q_key = example_key, q_ttl_secs = 300\<rparr> then Inr [0] else Inl [])"

definition ex_decq :: "request decoder" where
  "ex_decq b = (if b = [0] then Inr (CheckRemember \<lparr>q_key = example_key, q_ttl_secs = 300\<rparr>) else Inl [])"

definition ex_encr :: "response encoder" where
  "ex_encr r = (case r of Remember fresh \<Rightarrow> Inr [if fresh then 1 else 0] | _ \<Rightarrow> Inl [])"

definition ex_decr :: "response decoder" where
  "ex_decr b = (if b = [1] then Inr (Remember True) else if b = [0] then Inr (Remember False) else Inl [])"

text \<open>C4. The module's remembered grants are the daemon's history, over the wire: when the module has to
  ask, the dialog does not allow, nothing in the environment names another socket, and the daemon
  behind its socket has served some requests in the order of the clock, a call of the hook, its
  frames written, served and read back with a codec that carries the messages of the exchange,
  succeeds exactly when its own key, with the same login, session, service and command, was
  recorded within the service's window and within fifteen minutes.\<close>

theorem remembered_iff_recorded:
  assumes "pam_interactive (hc_host c)" "\<not> dialog_allows (hc_host c)"
    and "h_env (hc_host c) (lit ''SENTINEL_BROKER_SOCK'') = None"
    and "hc_link c = daemon_link encq decq encr decr (dispatch_all rs store_new) now"
    and "\<forall>k. pam_key (hc_host c) = Some k \<longrightarrow>
      carries encq decq (CheckRemember \<lparr>q_key = k, q_ttl_secs = remember_seconds (pam_cfg (hc_host c))\<rparr>)"
    and "\<forall>fresh. carries encr decr (Remember fresh)"
    and "sorted (map fst rs)" "\<forall>(t, r)\<in>set rs. t \<le> now"
    and "\<forall>(t, r)\<in>set rs. \<forall>k. r = RecordRemember k \<longrightarrow> 0 \<notin> set (service k)" "0 \<notin> set (pam_service (hc_host c))"
  shows "pr_code (fst (pam_sm_authenticate c st)) = PAM_SUCCESS \<longleftrightarrow>
    (\<exists>k t. pam_key (hc_host c) = Some k \<and> (t, RecordRemember k) \<in> set rs \<and>
       elapsed now t < window (from_secs 900) (remember_seconds (pam_cfg (hc_host c))))"
proof -
  let ?h = "hook_host c" and ?ttl = "remember_seconds (pam_cfg (hc_host c))"
  have "remembered ?h \<longleftrightarrow> (\<exists>t. (t, RecordRemember k) \<in> set rs \<and> elapsed now t < window (from_secs 900) ?ttl)"
    if k: "pam_key (hc_host c) = Some k" for k
  proof -
    have b: "is_bindable k" "0 \<notin> set (service k)" using pam_key_bindable [OF k] assms(10) by auto
    let ?req = "CheckRemember \<lparr>q_key = k, q_ttl_secs = ?ttl\<rparr>"
    have d: "fst (dispatch ?req (dispatch_all rs store_new) now) =
        Remember (store_is_fresh (dispatch_all rs store_new) (BoundKey k) ?ttl now)"
      using b(1) by (simp add: dispatch_def split: option.splits)
    have "h_broker ?h ?req = Some (fst (dispatch ?req (dispatch_all rs store_new) now))"
      using assms(5,6) k d by (intro hook_broker_daemon [OF assms(3,4)]) simp_all
    then have "check_remember (h_broker ?h) k ?ttl \<longleftrightarrow> store_is_fresh (dispatch_all rs store_new) (BoundKey k) ?ttl now"
      by (simp add: check_remember_def d)
    with check_after_requests [OF assms(7,8,9) b(2,1)] show ?thesis
      by (auto simp: remembered_def k MAX_REMEMBER_def window_def word_neq_0_conv)
  qed
  moreover have "pr_code (sm_authenticate ?h) = PAM_SUCCESS \<longleftrightarrow> remembered ?h"
    using assms(1,2) by (simp add: sm_authenticate_code pam_decision_def pam_interactive_def [of ?h] flip: hook_host_view(3))
  moreover have "fst (pam_sm_authenticate c st) = sm_authenticate ?h"
    by (simp add: pam_sm_authenticate_def Let_def case_prod_beta)
  ultimately show ?thesis by (cases "pam_key (hc_host c)") (auto simp: remembered_def)
qed

theorem remembered_iff_recorded_witness:
  "pr_code (fst (pam_sm_authenticate
     \<lparr>hc_link = daemon_link ex_encq ex_decq ex_encr ex_decr (dispatch_all [(0, RecordRemember example_key)] store_new) (from_secs 299),
      hc_syslog = (True, True), hc_args = [], hc_host = example_host sudo_pacman [] (\<lambda>_. None) []\<rparr>
     (False, \<lparr>ls_global = None, ls_max_level = None, ls_fallback = False, ls_syslog = [], ls_host = []\<rparr>))) = PAM_SUCCESS"
proof -
  let ?h = "example_host sudo_pacman [] (\<lambda>_. None) []"
  let ?rs = "[(0, RecordRemember example_key)]"
  let ?c = "\<lparr>hc_link = daemon_link ex_encq ex_decq ex_encr ex_decr (dispatch_all ?rs store_new) (from_secs 299),
      hc_syslog = (True, True), hc_args = [], hc_host = ?h\<rparr>"
  have "pam_interactive ?h" by (rule example_interactive)
  moreover have "\<not> dialog_allows ?h" by (simp add: dialog_allows_def example_dialog)
  moreover have "h_env ?h (lit ''SENTINEL_BROKER_SOCK'') = None" by (simp add: example_host_def)
  moreover have "\<forall>fresh. carries ex_encr ex_decr (Remember fresh)"
    by (simp add: carries_def ex_encr_def ex_decr_def MAX_FRAME_LEN_def)
  moreover have "carries ex_encq ex_decq (CheckRemember \<lparr>q_key = example_key, q_ttl_secs = 300\<rparr>)"
    by (simp add: carries_def ex_encq_def ex_decq_def MAX_FRAME_LEN_def)
  moreover have "0 \<notin> set (pam_service ?h)" by simp
  moreover have "elapsed (from_secs 299) 0 < window (from_secs 900) (remember_seconds (pam_cfg ?h))"
    unfolding example_cfg by (simp add: elapsed_def window_def from_secs_def)
  ultimately show ?thesis
    using remembered_iff_recorded [of ?c ex_encq ex_decq ex_encr ex_decr ?rs "from_secs 299"]
      example_pam_key [of "[]" "\<lambda>_. None" "[]"] example_key_ok(2)
    by (auto simp: example_cfg(2) simp del: dispatch_all.simps)
qed

text \<open>C5. A bypass is the user's own fresh approval: when the bus name's owner answers from the queue of
  a reachable agent, a bypassed request belongs to the very user who owns that agent, an agent
  session of an earlier authentication pushed an approval less than a second ago, and the
  request succeeds with that one call: no policy, no broker, no dialog.\<close>

theorem bypass_is_recent_approval:
  assumes "reach act ck s" "h_agent_take h = Inr (fst (take_approval (s_queue s) (s_now s)))" "agent_approved h"
  shows "\<exists>user u t i. bypass_user h = Some user \<and> h_from_name h user = Some u \<and> h_agent_owner h = Inr (pw_uid u) \<and>
      (t, i) \<in> set (s_pushed s) \<and> t \<le> s_now s \<and> s_now s < t + from_secs 1 \<and> past_push (s_phase s i) \<and>
      pr_code (sm_authenticate h) = PAM_SUCCESS \<and> pr_calls (sm_authenticate h) = [CTakeApproval]"
proof -
  from assms(3) obtain user u where u: "bypass_user h = Some user" "h_from_name h user = Some u"
    "h_agent_owner h = Inr (pw_uid u)" "h_agent_take h = Inr True"
    by (auto simp: agent_approved_def bind_eq_Some_conv split: option.splits)
  then obtain a q where "take_id (s_queue s) (s_now s) = (Some a, q)"
    using assms(2) by (auto simp: take_approval_iff split: prod.splits option.splits)
  from take_live [OF assms(1) this] obtain t i where "(t, i) \<in> set (s_pushed s)" "t \<le> s_now s" "s_now s < t + from_secs 1"
    "past_push (s_phase s i)" by (auto simp: DEFAULT_TTL_def)
  moreover have "pr_code (sm_authenticate h) = PAM_SUCCESS" using assms(3) by (simp add: sm_authenticate_code pam_decision_def)
  moreover have "pr_calls (sm_authenticate h) = [CTakeApproval]"
    using assms(3) u by (simp add: sm_authenticate_calls pam_interactive_def check_agent_bypass_def Let_def query_agent_def)
  ultimately show ?thesis using u by blast
qed

theorem bypass_is_recent_approval_witness:
  "\<exists>s h. reach ex_act ex_ck s \<and> h = (example_host sudo_bare [] (\<lambda>_. None) [])\<lparr>h_agent_owner := Inr 1000,
       h_agent_take := Inr (fst (take_approval (s_queue s) (s_now s)))\<rparr> \<and>
     pr_code (sm_authenticate h) = PAM_SUCCESS \<and> pr_calls (sm_authenticate h) = [CTakeApproval]"
proof -
  obtain s where s: "reach ex_act ex_ck s" "s_now s = 0" "s_queue s = push queue_new [97] 0" by (rule ex_run)
  let ?h = "(example_host sudo_bare [] (\<lambda>_. None) [])\<lparr>h_agent_owner := Inr 1000,
       h_agent_take := Inr (fst (take_approval (s_queue s) (s_now s)))\<rparr>"
  have "take_id (s_queue s) (s_now s) = (Some [97], queue_new)" using s by (simp add: ex_take)
  then have "agent_approved ?h"
    by (simp add: agent_approved_def bypass_user_def example_host_def example_passwd_def take_approval_iff)
  moreover have "h_agent_take ?h = Inr (fst (take_approval (s_queue s) (s_now s)))" by simp
  ultimately show ?thesis using bypass_is_recent_approval [OF s(1)] s(1) by blast
qed

end
